(* ===== verification/Snapback_Prelude.thy ===== *)
theory Snapback_Prelude
  imports Main "HOL-Library.Word" "HOL-Library.Sublist"
begin

text \<open>
  Shared ground of the Snapback development: the Go error values and result types that the
  components return, the machine integers of Go (\<open>uint64\<close> as a 64-bit word, \<open>int64\<close> and
  \<open>int32\<close> as integers whose wrap-around is written out), and the list lemmas that several
  components use, and the frames of stateful operations: \<open>keeps f op\<close> says that
  the operation leaves the part \<open>f\<close> of the world alone, and the collection \<open>frames\<close> holds these
  facts for the operations of the components.
\<close>

named_theorems frames \<open>what an operation leaves unchanged\<close>


section \<open>Bytes and errors\<close>

text \<open>
  A Go \<open>string\<close> and a Go \<open>[]byte\<close> are byte sequences; HOL's \<open>string\<close> is a list of
  8-bit characters, so both are \<open>string\<close>.
\<close>

type_synonym bytes = string

text \<open>
  Go errors are values. \<open>Errorf\<close> is an error made by \<open>fmt.Errorf\<close> without \<open>%w\<close> (its
  message identifies the site, its arguments follow), \<open>Wrapf\<close> one that wraps a cause with
  \<open>%w\<close>, \<open>Sentinel\<close> a package-level \<open>errors.New\<close> value. The remaining constructors are
  errors that come from outside: an S3 error response with its code and HTTP status, a
  Kubernetes API error, an operating-system error and any other library error. The rendered
  text of an error is not modelled, so a status field that stores \<open>err.Error()\<close> stores the
  error value itself.
\<close>

datatype goerr =
    Sentinel string
  | Errorf string "string list"
  | Wrapf string "string list" goerr
  | MinioErr string int
  | ApiNotFound string
  | ApiErr string
  | OsErr string
  | LibErr string

text \<open>\<open>errors.Is\<close>: the target occurs on the chain of wrapped causes.\<close>

fun errors_is :: "goerr \<Rightarrow> goerr \<Rightarrow> bool" where
  "errors_is (Wrapf m as c) t = (Wrapf m as c = t \<or> errors_is c t)"
| "errors_is e t = (e = t)"

text \<open>A message stored in a status field or a condition: a literal, or an error's text.\<close>

datatype message = Lit string | ErrText goerr | Fmt string "int list" "string list"

abbreviation no_message :: message where
  "no_message \<equiv> Lit ''''"

text \<open>
  A Go call with an error result that touches the outside world takes the state of the world
  and returns its result with the new state; a call without effects returns a \<open>result\<close>.
\<close>

type_synonym 'a result = "goerr + 'a"
type_synonym ('w, 'a) effect = "'w \<Rightarrow> 'a result \<times> 'w"


section \<open>Machine integers\<close>

type_synonym u64 = "64 word"
type_synonym u32 = "32 word"

definition wrap64 :: "int \<Rightarrow> int" where
  "wrap64 x = (x + 2 ^ 63) mod 2 ^ 64 - 2 ^ 63"

definition wrap32 :: "int \<Rightarrow> int" where
  "wrap32 x = (x + 2 ^ 31) mod 2 ^ 32 - 2 ^ 31"

definition in_int64 :: "int \<Rightarrow> bool" where
  "in_int64 x \<longleftrightarrow> - (2 ^ 63) \<le> x \<and> x < 2 ^ 63"

definition in_int32 :: "int \<Rightarrow> bool" where
  "in_int32 x \<longleftrightarrow> - (2 ^ 31) \<le> x \<and> x < 2 ^ 31"

text \<open>The conversions \<open>int64(u)\<close> and \<open>uint64(i)\<close>: both keep the 64 bits.\<close>

definition int64_of_u64 :: "u64 \<Rightarrow> int" where
  "int64_of_u64 u = sint u"

definition u64_of_int64 :: "int \<Rightarrow> u64" where
  "u64_of_int64 i = word_of_int i"

lemma wrap64_id [simp]: "in_int64 x \<Longrightarrow> wrap64 x = x"
  by (simp add: wrap64_def in_int64_def)

lemma wrap32_id [simp]: "in_int32 x \<Longrightarrow> wrap32 x = x"
  by (simp add: wrap32_def in_int32_def)

lemma in_int64_wrap64 [simp]: "in_int64 (wrap64 x)"
proof -
  have "0 \<le> (x + 2 ^ 63) mod 2 ^ 64" and "(x + 2 ^ 63) mod 2 ^ 64 < (2 ^ 64 :: int)"
    by simp_all
  then show ?thesis by (simp add: wrap64_def in_int64_def)
qed

lemma in_int32_wrap32 [simp]: "in_int32 (wrap32 x)"
proof -
  have "0 \<le> (x + 2 ^ 31) mod 2 ^ 32" and "(x + 2 ^ 31) mod 2 ^ 32 < (2 ^ 32 :: int)"
    by simp_all
  then show ?thesis by (simp add: wrap32_def in_int32_def)
qed

lemma int64_of_u64_small:
  assumes "unat u < 2 ^ 63"
  shows "int64_of_u64 u = int (unat u)"
proof -
  have "uint u < 2 ^ 63"
    using assms by (metis of_nat_less_numeral_power_cancel_iff uint_nat)
  moreover have "- (2 ^ 63) \<le> uint u"
    by (rule order_trans [OF _ uint_ge_0]) simp
  ultimately have "signed_take_bit 63 (uint u) = uint u"
    by (intro signed_take_bit_int_eq_self) simp_all
  moreover have "sint u = signed_take_bit 63 (uint u)"
    using sint_uint [of u] by simp
  ultimately have "sint u = uint u" by simp
  then show ?thesis by (simp only: int64_of_u64_def uint_nat)
qed

lemma unat_u64_of_int64: "0 \<le> i \<Longrightarrow> i < 2 ^ 64 \<Longrightarrow> unat (u64_of_int64 i) = nat i"
  by (simp add: u64_of_int64_def unat_eq_nat_uint uint_word_of_int)

lemma unat_add_no_wrap:
  "unat (a :: u64) + unat b < 2 ^ 64 \<Longrightarrow> unat (a + b) = unat a + unat b"
  by (simp add: unat_word_ariths)


section \<open>Lists\<close>

lemma takeWhile_append_stop:
  "\<forall>x \<in> set xs. P x \<Longrightarrow> \<not> P y \<Longrightarrow> takeWhile P (xs @ y # ys) = xs"
  by (induction xs) auto

lemma dropWhile_append_stop:
  "\<forall>x \<in> set xs. P x \<Longrightarrow> \<not> P y \<Longrightarrow> dropWhile P (xs @ y # ys) = y # ys"
  by (induction xs) auto

lemma append_sep_inject:
  assumes "xs @ c # ys = xs' @ c # ys'" and "c \<notin> set xs" and "c \<notin> set xs'"
  shows "xs = xs' \<and> ys = ys'"
proof -
  have "xs = takeWhile (\<lambda>x. x \<noteq> c) (xs @ c # ys)"
    using assms(2) by (intro takeWhile_append_stop [symmetric]) auto
  also have "\<dots> = xs'"
    unfolding assms(1) using assms(3) by (intro takeWhile_append_stop) auto
  finally show ?thesis using assms(1) by simp
qed

lemma sep_append_inject_last:
  assumes "xs @ c # ys = xs' @ c # ys'" and "c \<notin> set ys" and "c \<notin> set ys'"
  shows "xs = xs' \<and> ys = ys'"
proof -
  have "rev ys @ c # rev xs = rev ys' @ c # rev xs'"
    using arg_cong [OF assms(1), of rev] by simp
  then show ?thesis using append_sep_inject [of "rev ys" c "rev xs" "rev ys'" "rev xs'"] assms(2,3)
    by simp
qed


section \<open>Maps\<close>

text \<open>The assignment \<open>m[k] = v\<close> to a Go map, kept as an association list.\<close>

fun kv_set :: "string \<Rightarrow> 'v \<Rightarrow> (string \<times> 'v) list \<Rightarrow> (string \<times> 'v) list" where
  "kv_set k v [] = [(k, v)]"
| "kv_set k v ((k', v') # m) = (if k' = k then (k, v) # m else (k', v') # kv_set k v m)"

lemma map_of_kv_set [simp]: "map_of (kv_set k v m) = (map_of m)(k \<mapsto> v)"
  by (induction m) (auto simp: fun_eq_iff)

lemma keys_kv_set: "fst ` set (kv_set k v m) = insert k (fst ` set m)"
proof (induction m)
  case (Cons e m)
  then show ?case by (cases e; cases "fst e = k") (simp_all add: insert_commute)
qed simp

lemma distinct_kv_set: "distinct (map fst (kv_set k v m)) \<longleftrightarrow> distinct (map fst m)"
proof (induction m)
  case (Cons e m)
  have "fst e \<in> fst ` set (kv_set k v m) \<longleftrightarrow> fst e = k \<or> fst e \<in> fst ` set m"
    by (simp add: keys_kv_set)
  then show ?case using Cons by (cases e) auto
qed simp


section \<open>Frames\<close>

definition keeps :: "('w \<Rightarrow> 's) \<Rightarrow> ('w \<Rightarrow> 'r \<times> 'w) \<Rightarrow> bool" where
  "keeps f op \<longleftrightarrow> (\<forall>w r w'. op w = (r, w') \<longrightarrow> f w' = f w)"

lemma keepsI: "(\<And>w r w'. op w = (r, w') \<Longrightarrow> f w' = f w) \<Longrightarrow> keeps f op"
  by (simp add: keeps_def)

lemma keepsD: "keeps f op \<Longrightarrow> op w = (r, w') \<Longrightarrow> f w' = f w"
  by (simp add: keeps_def)

lemma keeps_snd: "keeps f op \<Longrightarrow> f (snd (op w)) = f w"
  by (simp add: keeps_def prod_eq_iff)

lemma keeps_return [simp, intro]: "keeps f (\<lambda>w. (r, w))" "keeps f (Pair r)"
  by (simp_all add: keeps_def)

end
