(* ===== verification/Api_Types.thy ===== *)
theory Api_Types
  imports Snapback_Prelude
begin

text \<open>
  The custom resources of Snapback (\<open>src/src/api/v1alpha1\<close>) and the subset of Velero's
  resources it watches (\<open>src/src/api/velero/v1/types.go\<close>), with the parts of Kubernetes
  object metadata, conditions and selectors that the code reads or writes. A pointer is an
  option. The phase types are enumerations of their admissible values; the empty string of a
  status that was never written is the first constructor.
\<close>


section \<open>Kubernetes metadata\<close>

text \<open>Instants are nanoseconds since the Unix epoch; the zero time is the first of January of year one.\<close>

type_synonym instant = int

definition zeroTime :: instant where
  "zeroTime = - 62135596800 * 1000000000"

definition IsZero :: "instant option \<Rightarrow> bool" where
  "IsZero t = (case t of None \<Rightarrow> True | Some i \<Rightarrow> i = zeroTime)"

record ObjectMeta =
  om_Name :: string
  om_Namespace :: string
  om_Labels :: "(string \<times> string) list"
  om_Generation :: int
  om_ResourceVersion :: string
  om_DeletionTimestamp :: "instant option"
  om_Owner :: "string option"

definition newMeta :: "string \<Rightarrow> string \<Rightarrow> ObjectMeta" where
  "newMeta name ns = \<lparr>om_Name = name, om_Namespace = ns, om_Labels = [], om_Generation = 0,
     om_ResourceVersion = '''', om_DeletionTimestamp = None, om_Owner = None\<rparr>"

datatype ConditionStatus = ConditionTrue | ConditionFalse

record Condition =
  cd_Type :: string
  cd_Status :: ConditionStatus
  cd_Reason :: string
  cd_Message :: message
  cd_ObservedGeneration :: int

record LabelSelectorRequirement =
  lr_Key :: string
  lr_Operator :: string
  lr_Values :: "string list"

record LabelSelector =
  ls_MatchLabels :: "(string \<times> string) list"
  ls_MatchExpressions :: "LabelSelectorRequirement list"


section \<open>ReplicationPolicy\<close>

record SecretKeyRef =
  sk_Name :: string
  sk_Key :: string
  sk_Namespace :: string

record TargetSpec =
  tg_EndpointID :: string
  tg_NodeID :: string
  tg_Addresses :: "string list"
  tg_RelayURL :: string

record PeatSpec =
  ps_Address :: string
  ps_OutboxRoot :: string
  ps_OutboxPath :: string

record ObjectStoreSpec =
  oss_Endpoint :: string
  oss_Region :: string
  oss_CABundleSecretRef :: "SecretKeyRef option"
  oss_InsecureSkipTLSVerify :: bool
  oss_CredentialsSecretRef :: "SecretKeyRef option"

record ReplicationPolicySpec =
  rp_Paused :: bool
  rp_BackupStorageLocations :: "string list"
  rp_BackupStorageLocationSelector :: "LabelSelector option"
  rp_BackupSelector :: "LabelSelector option"
  rp_Target :: TargetSpec
  rp_Priority :: string
  rp_BundleByteLimit :: int
  rp_BundleFileLimit :: int
  rp_MaxConcurrentBundles :: int
  rp_StaleAfter :: "int option"
  rp_Peat :: PeatSpec
  rp_ObjectStore :: ObjectStoreSpec

record ReplicationPolicyStatus =
  rps_Conditions :: "Condition list"
  rps_BackupsReplicated :: int
  rps_BytesReplicated :: int
  rps_ObservedGeneration :: int

record ReplicationPolicy =
  pol_Meta :: ObjectMeta
  pol_Spec :: ReplicationPolicySpec
  pol_Status :: ReplicationPolicyStatus


section \<open>BackupReplication\<close>

datatype ReplicationPhase =
    PhaseUnset | PhasePending | PhaseStaging | PhaseTransmitting | PhaseReplicated | PhaseFailed | PhaseSkipped

datatype BundlePhase =
    BundlePending | BundleInProgress | BundleCompleted | BundleFailed | BundleCancelled

record BundleStatus =
  bs_BundleID :: string
  bs_FileCount :: int
  bs_Bytes :: int
  bs_Phase :: BundlePhase
  bs_DistributionIDs :: "string list"
  bs_BytesTransferred :: int

record BackupReplicationSpec =
  brs_BackupName :: string
  brs_PolicyName :: string
  brs_StorageLocation :: string

record BackupReplicationStatus =
  brt_Phase :: ReplicationPhase
  brt_Conditions :: "Condition list"
  brt_ObjectCount :: int
  brt_TotalBytes :: int
  brt_BytesTransferred :: int
  brt_Bundles :: "BundleStatus list"
  brt_StartedAt :: "instant option"
  brt_CompletedAt :: "instant option"
  brt_RetryCount :: int
  brt_ObservedGeneration :: int
  brt_LastError :: message

record BackupReplication =
  br_Meta :: ObjectMeta
  br_Spec :: BackupReplicationSpec
  br_Status :: BackupReplicationStatus

definition zeroReplicationStatus :: BackupReplicationStatus where
  "zeroReplicationStatus = \<lparr>brt_Phase = PhaseUnset, brt_Conditions = [], brt_ObjectCount = 0,
     brt_TotalBytes = 0, brt_BytesTransferred = 0, brt_Bundles = [], brt_StartedAt = None,
     brt_CompletedAt = None, brt_RetryCount = 0, brt_ObservedGeneration = 0, brt_LastError = no_message\<rparr>"

definition newReplication :: "string \<Rightarrow> string \<Rightarrow> BackupReplication" where
  "newReplication name ns = \<lparr>br_Meta = newMeta name ns,
     br_Spec = \<lparr>brs_BackupName = '''', brs_PolicyName = '''', brs_StorageLocation = ''''\<rparr>,
     br_Status = zeroReplicationStatus\<rparr>"


section \<open>BackupImport\<close>

datatype ImportPhase = ImportUnset | ImportPending | ImportImporting | ImportImported | ImportFailed

record BackupImportSpec =
  bis_BackupName :: string
  bis_StorageLocation :: string
  bis_ManifestDocID :: string

record BackupImportStatus =
  bit_Phase :: ImportPhase
  bit_Conditions :: "Condition list"
  bit_FilesTotal :: int
  bit_FilesImported :: int
  bit_BytesImported :: int
  bit_Committed :: bool
  bit_StartedAt :: "instant option"
  bit_CompletedAt :: "instant option"
  bit_RetryCount :: int
  bit_ObservedGeneration :: int
  bit_LastError :: message

record BackupImport =
  bi_Meta :: ObjectMeta
  bi_Spec :: BackupImportSpec
  bi_Status :: BackupImportStatus

definition zeroImportStatus :: BackupImportStatus where
  "zeroImportStatus = \<lparr>bit_Phase = ImportUnset, bit_Conditions = [], bit_FilesTotal = 0, bit_FilesImported = 0,
     bit_BytesImported = 0, bit_Committed = False, bit_StartedAt = None, bit_CompletedAt = None,
     bit_RetryCount = 0, bit_ObservedGeneration = 0, bit_LastError = no_message\<rparr>"

definition newImport :: "string \<Rightarrow> string \<Rightarrow> BackupImport" where
  "newImport name ns = \<lparr>bi_Meta = newMeta name ns,
     bi_Spec = \<lparr>bis_BackupName = '''', bis_StorageLocation = '''', bis_ManifestDocID = ''''\<rparr>,
     bi_Status = zeroImportStatus\<rparr>"


section \<open>Velero's resources\<close>

datatype BackupPhase =
    BackupPhaseUnset | BackupPhaseNew | BackupPhaseInProgress | BackupPhaseFinalizing
  | BackupPhaseCompleted | BackupPhasePartiallyFailed | BackupPhaseFailed
  | BackupPhaseFailedValidation | BackupPhaseDeleting

record BackupSpec =
  bks_StorageLocation :: string
  bks_IncludedNamespaces :: "string list"
  bks_DefaultVolumesToFsBackup :: "bool option"
  bks_SnapshotVolumes :: "bool option"

record BackupStatus =
  bkt_Phase :: BackupPhase
  bkt_StartTimestamp :: "instant option"
  bkt_CompletionTimestamp :: "instant option"
  bkt_Expiration :: "instant option"

record Backup =
  bk_Meta :: ObjectMeta
  bk_Spec :: BackupSpec
  bk_Status :: BackupStatus

record ObjectStorageLocation =
  ol_Bucket :: string
  ol_Prefix :: string
  ol_CACert :: bytes

text \<open>The credential selector of a storage location names a secret and a key in it.\<close>

record SecretKeySelector =
  ss_Name :: string
  ss_Key :: string

record BackupStorageLocationSpec =
  bsl_Provider :: string
  bsl_ObjectStorage :: "ObjectStorageLocation option"
  bsl_Config :: "(string \<times> string) list option"
  bsl_Credential :: "SecretKeySelector option"
  bsl_Default :: bool

record BackupStorageLocation =
  loc_Meta :: ObjectMeta
  loc_Spec :: BackupStorageLocationSpec
  loc_Phase :: string


section \<open>Terminal phases\<close>

fun replicationTerminal :: "ReplicationPhase \<Rightarrow> bool" where
  "replicationTerminal PhaseReplicated = True"
| "replicationTerminal PhaseFailed = True"
| "replicationTerminal PhaseSkipped = True"
| "replicationTerminal _ = False"

fun importTerminal :: "ImportPhase \<Rightarrow> bool" where
  "importTerminal ImportImported = True"
| "importTerminal ImportFailed = True"
| "importTerminal _ = False"

end
