(* ===== verification/Go_Strings.thy ===== *)
theory Go_Strings
  imports Snapback_Prelude
begin

text \<open>
  The functions of Go's packages \<open>strings\<close>, \<open>bufio\<close>, \<open>fmt\<close>, \<open>strconv\<close> and
  \<open>encoding/hex\<close> that Snapback calls, on byte strings, with the lemmas the components use.
\<close>


section \<open>Prefixes, suffixes and trimming\<close>

fun has_prefix :: "string \<Rightarrow> string \<Rightarrow> bool" where
  "has_prefix s [] = True"
| "has_prefix [] (c # p) = False"
| "has_prefix (a # s) (c # p) = (a = c \<and> has_prefix s p)"

definition has_suffix :: "string \<Rightarrow> string \<Rightarrow> bool" where
  "has_suffix s p = has_prefix (rev s) (rev p)"

definition trim_prefix :: "string \<Rightarrow> string \<Rightarrow> string" where
  "trim_prefix s p = (if has_prefix s p then drop (length p) s else s)"

fun contains_str :: "string \<Rightarrow> string \<Rightarrow> bool" where
  "contains_str [] sub = (sub = [])"
| "contains_str (a # s) sub = (has_prefix (a # s) sub \<or> contains_str s sub)"

text \<open>\<open>TrimLeft\<close>, \<open>TrimRight\<close> and \<open>Trim\<close> with a cutset of ASCII characters.\<close>

definition trim_left :: "string \<Rightarrow> string \<Rightarrow> string" where
  "trim_left s cs = dropWhile (\<lambda>c. c \<in> set cs) s"

definition trim_right :: "string \<Rightarrow> string \<Rightarrow> string" where
  "trim_right s cs = rev (dropWhile (\<lambda>c. c \<in> set cs) (rev s))"

definition trim :: "string \<Rightarrow> string \<Rightarrow> string" where
  "trim s cs = trim_right (trim_left s cs) cs"

lemma has_prefix_append [simp]: "has_prefix (p @ t) p"
  by (induction p) auto

lemma has_prefix_iff: "has_prefix s p \<longleftrightarrow> (\<exists>t. s = p @ t)"
  by (induction s p rule: has_prefix.induct) auto

lemma has_prefix_self [simp]: "has_prefix s s"
  by (simp add: has_prefix_iff)

lemma trim_prefix_append [simp]: "trim_prefix (p @ t) p = t"
  by (simp add: trim_prefix_def)

lemma has_suffix_iff: "has_suffix s p \<longleftrightarrow> (\<exists>t. s = t @ p)"
  unfolding has_suffix_def has_prefix_iff
  by (metis rev_append rev_rev_ident)

lemma trim_left_id: "(case s of [] \<Rightarrow> True | c # _ \<Rightarrow> c \<notin> set cs) \<Longrightarrow> trim_left s cs = s"
  by (cases s) (simp_all add: trim_left_def)

lemma trim_none: "\<forall>c \<in> set s. c \<notin> set cs \<Longrightarrow> trim s cs = s"
proof -
  assume "\<forall>c \<in> set s. c \<notin> set cs"
  then have "dropWhile (\<lambda>c. c \<in> set cs) s = s" and "dropWhile (\<lambda>c. c \<in> set cs) (rev s) = rev s"
    unfolding dropWhile_eq_self_iff by (metis hd_in_set, metis hd_in_set set_rev)
  then show ?thesis by (simp add: trim_def trim_left_def trim_right_def)
qed

lemma trim_left_hd: "trim_left s cs = [] \<or> hd (trim_left s cs) \<notin> set cs"
  unfolding trim_left_def using hd_dropWhile by blast

lemma trim_left_idem [simp]: "trim_left (trim_left s cs) cs = trim_left s cs"
  by (simp add: trim_left_def dropWhile_idem)

lemma trim_right_last: "trim_right s cs = [] \<or> last (trim_right s cs) \<notin> set cs"
proof (cases "dropWhile (\<lambda>c. c \<in> set cs) (rev s) = []")
  case False
  then have "hd (dropWhile (\<lambda>c. c \<in> set cs) (rev s)) \<notin> set cs"
    using hd_dropWhile by blast
  then show ?thesis by (simp add: trim_right_def last_rev)
qed (simp add: trim_right_def)

lemma trim_ends:
  "trim s cs = [] \<or> hd (trim s cs) \<notin> set cs \<and> last (trim s cs) \<notin> set cs"
proof (cases "trim s cs = []")
  case False
  obtain u where u: "trim_left s cs = trim s cs @ u"
  proof
    show "trim_left s cs = trim s cs @ rev (takeWhile (\<lambda>c. c \<in> set cs) (rev (trim_left s cs)))"
      unfolding trim_def trim_right_def by (metis rev_append rev_rev_ident takeWhile_dropWhile_id)
  qed
  then have "hd (trim s cs) = hd (trim_left s cs)" "trim_left s cs \<noteq> []" using False by simp_all
  then show ?thesis
    using trim_left_hd [of s cs] trim_right_last [of "trim_left s cs" cs] False by (simp add: trim_def)
qed simp


section \<open>Splitting\<close>

text \<open>\<open>strings.Cut\<close> and \<open>strings.Split\<close> with a one-byte separator.\<close>

definition cut :: "char \<Rightarrow> string \<Rightarrow> string \<times> string \<times> bool" where
  "cut c s = (case dropWhile (\<lambda>x. x \<noteq> c) s of
     [] \<Rightarrow> (s, [], False)
   | _ # r \<Rightarrow> (takeWhile (\<lambda>x. x \<noteq> c) s, r, True))"

fun split_on :: "char \<Rightarrow> string \<Rightarrow> string list" where
  "split_on c [] = [[]]"
| "split_on c (x # xs) =
     (if x = c then [] # split_on c xs
      else case split_on c xs of [] \<Rightarrow> [[x]] | w # ws \<Rightarrow> (x # w) # ws)"

fun join_with :: "char \<Rightarrow> string list \<Rightarrow> string" where
  "join_with c [] = []"
| "join_with c [w] = w"
| "join_with c (w # v # ws) = w @ c # join_with c (v # ws)"

lemma split_neq_Nil [simp]: "split_on c s \<noteq> []"
  by (induction s) (auto split: list.splits)

lemma join_split: "join_with c (split_on c s) = s"
proof (induction s)
  case (Cons x xs)
  obtain w ws where "split_on c xs = w # ws" by (meson list.exhaust split_neq_Nil)
  with Cons show ?case by (cases ws) auto
qed simp

lemma split_no_sep: "w \<in> set (split_on c s) \<Longrightarrow> c \<notin> set w"
proof (induction s arbitrary: w)
  case (Cons x xs)
  then show ?case by (cases "split_on c xs") (auto split: if_splits)
qed simp

lemma split_word: "c \<notin> set w \<Longrightarrow> split_on c w = [w]"
  by (induction w) auto

lemma split_append_sep: "c \<notin> set w \<Longrightarrow> split_on c (w @ c # s) = w # split_on c s"
  by (induction w) auto

lemma split_join: "ws \<noteq> [] \<Longrightarrow> \<forall>w \<in> set ws. c \<notin> set w \<Longrightarrow> split_on c (join_with c ws) = ws"
  by (induction c ws rule: join_with.induct) (auto simp: split_word split_append_sep)

lemma cut_append_sep [simp]:
  assumes "c \<notin> set w"
  shows "cut c (w @ c # s) = (w, s, True)"
proof -
  have all: "\<forall>x \<in> set w. x \<noteq> c" using assms by auto
  have "dropWhile (\<lambda>x. x \<noteq> c) (w @ c # s) = c # s" and "takeWhile (\<lambda>x. x \<noteq> c) (w @ c # s) = w"
    by (rule dropWhile_append_stop takeWhile_append_stop; simp add: all)+
  then show ?thesis by (simp add: cut_def)
qed


section \<open>White space and case\<close>

text \<open>
  \<open>strings.TrimSpace\<close> removes leading and trailing Unicode white space: six ASCII bytes and
  the UTF-8 encodings of U+0085, U+00A0, U+1680, U+2000 to U+200A, U+2028, U+2029, U+202F,
  U+205F and U+3000.
\<close>

definition byte :: "nat \<Rightarrow> char" where
  "byte n = char_of n"

definition space_runes :: "string list" where
  "space_runes =
     [[CHR 0x09], [CHR 0x0A], [CHR 0x0B], [CHR 0x0C], [CHR 0x0D], [CHR 0x20], 
      [CHR 0xC2, CHR 0x85], [CHR 0xC2, CHR 0xA0], [CHR 0xE1, CHR 0x9A, CHR 0x80], 
      [CHR 0xE2, CHR 0x80, CHR 0x80], [CHR 0xE2, CHR 0x80, CHR 0x81], 
      [CHR 0xE2, CHR 0x80, CHR 0x82], [CHR 0xE2, CHR 0x80, CHR 0x83], 
      [CHR 0xE2, CHR 0x80, CHR 0x84], [CHR 0xE2, CHR 0x80, CHR 0x85], 
      [CHR 0xE2, CHR 0x80, CHR 0x86], [CHR 0xE2, CHR 0x80, CHR 0x87], 
      [CHR 0xE2, CHR 0x80, CHR 0x88], [CHR 0xE2, CHR 0x80, CHR 0x89], 
      [CHR 0xE2, CHR 0x80, CHR 0x8A], [CHR 0xE2, CHR 0x80, CHR 0xA8], 
      [CHR 0xE2, CHR 0x80, CHR 0xA9], [CHR 0xE2, CHR 0x80, CHR 0xAF], 
      [CHR 0xE2, CHR 0x81, CHR 0x9F], [CHR 0xE3, CHR 0x80, CHR 0x80]]"

text \<open>The prefix of \<open>s\<close> among \<open>ps\<close> that is a member of the list, as its length.\<close>

fun prefix_len :: "string list \<Rightarrow> string \<Rightarrow> nat" where
  "prefix_len [] s = 0"
| "prefix_len (p # ps) s = (if has_prefix s p then length p else prefix_len ps s)"

fun trim_runes :: "nat \<Rightarrow> string list \<Rightarrow> string \<Rightarrow> string" where
  "trim_runes 0 ps s = s"
| "trim_runes (Suc n) ps s =
     (let k = prefix_len ps s in if k = 0 then s else trim_runes n ps (drop k s))"

definition trim_space :: "string \<Rightarrow> string" where
  "trim_space s =
     (let l = trim_runes (length s) space_runes s
      in rev (trim_runes (length l) (map rev space_runes) (rev l)))"

text \<open>Printable ASCII other than the space: such a character is never part of white space.\<close>

definition plain :: "char \<Rightarrow> bool" where
  "plain c \<longleftrightarrow> (let n = of_char c :: nat in 32 < n \<and> n < 127)"

lemma space_runes_not_plain:
  "list_all (\<lambda>p. p \<noteq> [] \<and> \<not> plain (hd p) \<and> \<not> plain (last p)) space_runes"
  by code_simp

lemma prefix_len_plain:
  assumes "list_all (\<lambda>p. p \<noteq> [] \<and> \<not> plain (hd p)) ps" and "s = [] \<or> plain (hd s)"
  shows "prefix_len ps s = 0"
  using assms by (induction ps) (auto simp: has_prefix_iff)

lemma trim_runes_plain:
  assumes "list_all (\<lambda>p. p \<noteq> [] \<and> \<not> plain (hd p)) ps" and "s = [] \<or> plain (hd s)"
  shows "trim_runes n ps s = s"
  using prefix_len_plain [OF assms] by (cases n) simp_all

lemma trim_runes_space:
  "s = [] \<or> plain (hd s) \<Longrightarrow> trim_runes n space_runes s = s"
  "s = [] \<or> plain (last s) \<Longrightarrow> trim_runes n (map rev space_runes) (rev s) = rev s"
  using space_runes_not_plain
  by (intro trim_runes_plain; auto simp: list_all_iff hd_rev)+

lemma trim_space_plain:
  assumes "s = [] \<or> plain (hd s) \<and> plain (last s)"
  shows "trim_space s = s"
proof -
  have "s = [] \<or> plain (hd s)" and "s = [] \<or> plain (last s)" using assms by auto
  then show ?thesis by (simp add: trim_space_def trim_runes_space)
qed

lemma trim_space_lead:
  assumes "plain (hd s)" and "plain (last s)"
  shows "trim_space (CHR 0x20 # s) = s"
proof -
  have "prefix_len space_runes (CHR 0x20 # s) = 1" by (simp add: space_runes_def)
  then have "trim_runes (length (CHR 0x20 # s)) space_runes (CHR 0x20 # s) = s"
    using assms by (simp add: trim_runes_space)
  then show ?thesis using assms by (simp only: trim_space_def Let_def) (simp add: trim_runes_space)
qed

lemma trim_space_trail:
  assumes "s \<noteq> []" and "plain (hd s)" and "plain (last s)"
  shows "trim_space (s @ [CHR 0x20]) = s"
proof -
  have "prefix_len (map rev space_runes) (CHR 0x20 # rev s) = 1" by (simp add: space_runes_def)
  then have "trim_runes (length (s @ [CHR 0x20])) (map rev space_runes) (rev (s @ [CHR 0x20])) = rev s"
    using assms by (simp add: trim_runes_space)
  moreover have "trim_runes n space_runes (s @ [CHR 0x20]) = s @ [CHR 0x20]" for n
    using assms by (intro trim_runes_space) simp
  ultimately show ?thesis by (simp only: trim_space_def Let_def) simp
qed

text \<open>
  \<open>strings.ToLower\<close>, as far as the credentials parser can observe it: the bytes of ASCII
  letters, and the two code points beyond ASCII whose lower case is an ASCII letter (U+212A,
  the Kelvin sign, and U+0130). Other bytes are kept: the parser only compares the result
  with three ASCII names.
\<close>

definition ascii_lower :: "char \<Rightarrow> char" where
  "ascii_lower c = (let n = of_char c :: nat in if 65 \<le> n \<and> n \<le> 90 then byte (n + 32) else c)"

fun to_lower :: "string \<Rightarrow> string" where
  "to_lower [] = []"
| "to_lower (a # s) =
     (if has_prefix (a # s) [CHR 0xE2, CHR 0x84, CHR 0xAA] then CHR ''k'' # to_lower (drop 2 s)
      else if has_prefix (a # s) [CHR 0xC4, CHR 0xB0] then CHR ''i'' # to_lower (drop 1 s)
      else ascii_lower a # to_lower s)"


section \<open>bufio.Scanner over lines\<close>

text \<open>
  \<open>bufio.ScanLines\<close>: lines end at a newline byte, one trailing carriage return is dropped,
  a final empty line is not a token. With the buffer limit \<open>limit\<close> a line of \<open>limit\<close> bytes or
  more stops the scan with \<open>bufio.ErrTooLong\<close>.
\<close>

definition raw_lines :: "string \<Rightarrow> string list" where
  "raw_lines body = (let ls = split_on (CHR 0x0A) body in if last ls = [] then butlast ls else ls)"

definition drop_cr :: "string \<Rightarrow> string" where
  "drop_cr l = (if l \<noteq> [] \<and> last l = CHR 0x0D then butlast l else l)"

definition scan_lines :: "int \<Rightarrow> string \<Rightarrow> string list result" where
  "scan_lines limit body =
     (let ls = raw_lines body
      in if \<exists>l \<in> set ls. limit \<le> int (length l) then Inl (Sentinel ''bufio.Scanner: token too long'')
         else Inr (map drop_cr ls))"


section \<open>Numbers and hexadecimal\<close>

definition digit_char :: "nat \<Rightarrow> char" where
  "digit_char n = byte (48 + n)"

fun dec :: "nat \<Rightarrow> string" where
  "dec n = (if n < 10 then [digit_char n] else dec (n div 10) @ [digit_char (n mod 10)])"

declare dec.simps [simp del]

text \<open>\<open>fmt.Sprintf("%04d", n)\<close> for a non-negative \<open>n\<close>.\<close>

definition dec04 :: "nat \<Rightarrow> string" where
  "dec04 n = (let d = dec n in replicate (4 - length d) (CHR ''0'') @ d)"

definition hex_digit :: "nat \<Rightarrow> char" where
  "hex_digit n = (if n < 10 then byte (48 + n) else byte (87 + n))"

definition hex_encode :: "bytes \<Rightarrow> string" where
  "hex_encode b = concat (map (\<lambda>c. let n = of_char c :: nat
     in [hex_digit (n div 16), hex_digit (n mod 16)]) b)"

definition is_digit :: "char \<Rightarrow> bool" where
  "is_digit c = (let n = of_char c :: nat in 48 \<le> n \<and> n \<le> 57)"

definition digit_val :: "char \<Rightarrow> nat" where
  "digit_val c = of_char c - 48"

definition dec_val :: "string \<Rightarrow> nat" where
  "dec_val s = foldl (\<lambda>n c. 10 * n + digit_val c) 0 s"

lemma of_char_byte [simp]: "n < 256 \<Longrightarrow> of_char (byte n) = n"
  by (simp add: byte_def of_char_of)

lemma digit_char_val [simp]: "n < 10 \<Longrightarrow> digit_val (digit_char n) = n"
  by (simp add: digit_val_def digit_char_def)

lemma digit_char_is_digit [simp]: "n < 10 \<Longrightarrow> is_digit (digit_char n)"
  by (simp add: is_digit_def digit_char_def)

lemma dec_val_append [simp]: "dec_val (s @ [c]) = 10 * dec_val s + digit_val c"
  by (simp add: dec_val_def)

lemma dec_val_dec [simp]: "dec_val (dec n) = n"
proof (induction n rule: dec.induct)
  case (1 n)
  then show ?case
    by (subst dec.simps) (simp add: dec_val_def [of "[_]"])
qed

lemma dec_digits: "c \<in> set (dec n) \<Longrightarrow> is_digit c"
proof (induction n rule: dec.induct)
  case (1 n)
  from "1.prems" have "c \<in> set (if n < 10 then [digit_char n] else dec (n div 10) @ [digit_char (n mod 10)])"
    by (subst (asm) dec.simps)
  with "1.IH" show ?case by (auto split: if_splits)
qed

lemma dec_inject: "dec m = dec n \<longleftrightarrow> m = n"
  by (metis dec_val_dec)

lemma dec_val_zeros: "dec_val (replicate k (CHR ''0'') @ s) = dec_val s"
proof -
  have "foldl (\<lambda>n c. 10 * n + digit_val c) 0 (replicate k (CHR ''0'')) = 0"
    by (induction k) (simp_all add: digit_val_def)
  then show ?thesis by (simp add: dec_val_def)
qed

lemma dec04_val [simp]: "dec_val (dec04 n) = n"
  by (simp add: dec04_def Let_def dec_val_zeros)

lemma dec04_digits: "c \<in> set (dec04 n) \<Longrightarrow> is_digit c"
  by (auto simp: dec04_def Let_def is_digit_def dest: dec_digits)

lemma dec04_inject [simp]: "dec04 m = dec04 n \<longleftrightarrow> m = n"
  by (metis dec04_val)

end
