(* ===== verification/Kube.thy ===== *)
theory Kube
  imports Api_Types Go_Strings
begin

text \<open>
  What the controllers use of Kubernetes: the client for the resources they read and write,
  the clock, status conditions, owner references and label selectors, as a record of
  operations on the state of the world; the results of a reconcile; and the rules of
  optimistic concurrency as the locale \<open>kube_api\<close>. An in-memory API server interprets it.
\<close>


section \<open>Operations\<close>

text \<open>
  \<open>k_CreateOrUpdate...\<close> is \<open>controllerutil.CreateOrUpdate\<close> with the object to look up and the
  mutation of the code; \<open>k_Update...Status\<close> is \<open>Status().Update\<close>, which returns the object as
  the server stored it.
\<close>

record 'w Kube =
  k_Now :: "'w \<Rightarrow> instant \<times> 'w"
  k_SetCondition :: "Condition list \<Rightarrow> Condition \<Rightarrow> 'w \<Rightarrow> Condition list"
  k_Selector :: "LabelSelector \<Rightarrow> ((string \<times> string) list \<Rightarrow> bool) result"
  k_SetControllerReference :: "Backup \<Rightarrow> BackupReplication \<Rightarrow> BackupReplication result"
  k_GetBackup :: "string \<Rightarrow> string \<Rightarrow> ('w, Backup) effect"
  k_ListPolicies :: "('w, ReplicationPolicy list) effect"
  k_GetPolicy :: "string \<Rightarrow> ('w, ReplicationPolicy) effect"
  k_GetLocation :: "string \<Rightarrow> string \<Rightarrow> ('w, BackupStorageLocation) effect"
  k_GetSecret :: "string \<Rightarrow> string \<Rightarrow> ('w, (string \<times> bytes) list) effect"
  k_GetReplication :: "string \<Rightarrow> string \<Rightarrow> ('w, BackupReplication) effect"
  k_UpdateReplicationStatus :: "BackupReplication \<Rightarrow> ('w, BackupReplication) effect"
  k_CreateOrUpdateReplication :: "BackupReplication \<Rightarrow> (BackupReplication \<Rightarrow> BackupReplication result) \<Rightarrow>
    ('w, string) effect"
  k_GetImport :: "string \<Rightarrow> string \<Rightarrow> ('w, BackupImport) effect"
  k_UpdateImportStatus :: "BackupImport \<Rightarrow> ('w, BackupImport) effect"
  k_CreateOrUpdateImport :: "BackupImport \<Rightarrow> (BackupImport \<Rightarrow> BackupImport result) \<Rightarrow> ('w, string) effect"

text \<open>\<open>apierrors.IsNotFound\<close> looks through wrapped errors; \<open>client.IgnoreNotFound\<close>.\<close>

fun is_not_found :: "goerr \<Rightarrow> bool" where
  "is_not_found (ApiNotFound _) = True"
| "is_not_found (Wrapf _ _ e) = is_not_found e"
| "is_not_found _ = False"

definition ignore_not_found :: "goerr \<Rightarrow> goerr option" where
  "ignore_not_found e = (if is_not_found e then None else Some e)"

text \<open>The result of a reconcile: when to run again, and an error.\<close>

record ctrlResult =
  RequeueAfter :: int

definition doneResult :: ctrlResult where
  "doneResult = \<lparr>RequeueAfter = 0\<rparr>"

definition requeueAfterTransient :: int where
  "requeueAfterTransient = 30 * 1000000000"

definition retryResult :: ctrlResult where
  "retryResult = \<lparr>RequeueAfter = requeueAfterTransient\<rparr>"

type_synonym 'w reconciled = "(ctrlResult \<times> goerr option) \<times> 'w"

text \<open>Keys of namespaced objects.\<close>

type_synonym okey = "string \<times> string"

definition meta_key :: "ObjectMeta \<Rightarrow> okey" where
  "meta_key m = (om_Namespace m, om_Name m)"

definition rep_key :: "BackupReplication \<Rightarrow> okey" where
  "rep_key x = meta_key (br_Meta x)"

definition imp_key :: "BackupImport \<Rightarrow> okey" where
  "imp_key x = meta_key (bi_Meta x)"


section \<open>Optimistic concurrency\<close>

text \<open>
  The stored objects and all versions of them that were ever stored. A read may return any
  earlier version of the object it names (it is served from a cache). Two versions of an
  object with the same resource version are equal. A status update succeeds only when the
  submitted resource version is the stored one; it replaces the status and nothing else, and
  returns what it stored. \<open>CreateOrUpdate\<close> applies the mutation to the stored object, or to
  the given one when there is none, and leaves the status alone. A failed write changes
  nothing.
\<close>

record kubeState =
  ks_reps :: "okey \<rightharpoonup> BackupReplication"
  ks_rep_seen :: "BackupReplication set"
  ks_imps :: "okey \<rightharpoonup> BackupImport"
  ks_imp_seen :: "BackupImport set"

definition put_rep :: "BackupReplication \<Rightarrow> kubeState \<Rightarrow> kubeState" where
  "put_rep y s = s\<lparr>ks_reps := (ks_reps s)(rep_key y \<mapsto> y), ks_rep_seen := insert y (ks_rep_seen s)\<rparr>"

definition put_imp :: "BackupImport \<Rightarrow> kubeState \<Rightarrow> kubeState" where
  "put_imp j s = s\<lparr>ks_imps := (ks_imps s)(imp_key j \<mapsto> j), ks_imp_seen := insert j (ks_imp_seen s)\<rparr>"

lemma put_simps [simp]:
  "ks_reps (put_rep y s) = (ks_reps s)(rep_key y \<mapsto> y)" "ks_rep_seen (put_rep y s) = insert y (ks_rep_seen s)"
  "ks_imps (put_rep y s) = ks_imps s" "ks_imp_seen (put_rep y s) = ks_imp_seen s"
  "ks_imps (put_imp j s) = (ks_imps s)(imp_key j \<mapsto> j)" "ks_imp_seen (put_imp j s) = insert j (ks_imp_seen s)"
  "ks_reps (put_imp j s) = ks_reps s" "ks_rep_seen (put_imp j s) = ks_rep_seen s"
  by (simp_all add: put_rep_def put_imp_def)

locale kube_api =
  fixes K :: "'w Kube" and st :: "'w \<Rightarrow> kubeState"
  assumes now_frame: "k_Now K w = (t, w') \<Longrightarrow> st w' = st w"
    and get_backup_frame: "k_GetBackup K ns n w = (rb, w') \<Longrightarrow> st w' = st w"
    and list_policies_frame: "k_ListPolicies K w = (rl, w') \<Longrightarrow> st w' = st w"
    and get_policy_frame: "k_GetPolicy K n w = (rp, w') \<Longrightarrow> st w' = st w"
    and get_location_frame: "k_GetLocation K ns n w = (rloc, w') \<Longrightarrow> st w' = st w"
    and get_secret_frame: "k_GetSecret K ns n w = (rs, w') \<Longrightarrow> st w' = st w"
    and get_rep_frame: "k_GetReplication K ns n w = (rr, w') \<Longrightarrow> st w' = st w"
    and get_imp_frame: "k_GetImport K ns n w = (ri, w') \<Longrightarrow> st w' = st w"
    and get_rep_seen: "k_GetReplication K ns n w = (Inr x, w') \<Longrightarrow> x \<in> ks_rep_seen (st w) \<and> rep_key x = (ns, n)"
    and get_imp_seen: "k_GetImport K ns n w = (Inr i, w') \<Longrightarrow> i \<in> ks_imp_seen (st w) \<and> imp_key i = (ns, n)"
    and rep_stored: "ks_reps (st w) k = Some x \<Longrightarrow> x \<in> ks_rep_seen (st w) \<and> rep_key x = k"
    and imp_stored: "ks_imps (st w) k = Some i \<Longrightarrow> i \<in> ks_imp_seen (st w) \<and> imp_key i = k"
    and rep_version: "x \<in> ks_rep_seen (st w) \<Longrightarrow> y \<in> ks_rep_seen (st w) \<Longrightarrow> rep_key x = rep_key y \<Longrightarrow>
          om_ResourceVersion (br_Meta x) = om_ResourceVersion (br_Meta y) \<Longrightarrow> x = y"
    and imp_version: "i \<in> ks_imp_seen (st w) \<Longrightarrow> j \<in> ks_imp_seen (st w) \<Longrightarrow> imp_key i = imp_key j \<Longrightarrow>
          om_ResourceVersion (bi_Meta i) = om_ResourceVersion (bi_Meta j) \<Longrightarrow> i = j"
    and update_rep_ok: "k_UpdateReplicationStatus K x w = (Inr y, w') \<Longrightarrow>
          \<exists>old. ks_reps (st w) (rep_key x) = Some old \<and>
            om_ResourceVersion (br_Meta old) = om_ResourceVersion (br_Meta x) \<and>
            rep_key y = rep_key x \<and> br_Spec y = br_Spec old \<and> br_Status y = br_Status x \<and> st w' = put_rep y (st w)"
    and update_rep_err: "k_UpdateReplicationStatus K x w = (Inl e, w') \<Longrightarrow> st w' = st w"
    and update_imp_ok: "k_UpdateImportStatus K i w = (Inr j, w') \<Longrightarrow>
          \<exists>old. ks_imps (st w) (imp_key i) = Some old \<and>
            om_ResourceVersion (bi_Meta old) = om_ResourceVersion (bi_Meta i) \<and>
            imp_key j = imp_key i \<and> bi_Spec j = bi_Spec old \<and> bi_Status j = bi_Status i \<and> st w' = put_imp j (st w)"
    and update_imp_err: "k_UpdateImportStatus K i w = (Inl e, w') \<Longrightarrow> st w' = st w"
    and ensure_rep_ok: "k_CreateOrUpdateReplication K x f w = (Inr op, w') \<Longrightarrow>
          \<exists>z y. f (case ks_reps (st w) (rep_key x) of None \<Rightarrow> x | Some old \<Rightarrow> old) = Inr z \<and>
            rep_key y = rep_key x \<and> br_Spec y = br_Spec z \<and>
            br_Status y = (case ks_reps (st w) (rep_key x) of None \<Rightarrow> zeroReplicationStatus | Some old \<Rightarrow> br_Status old) \<and>
            st w' = put_rep y (st w)"
    and ensure_rep_err: "k_CreateOrUpdateReplication K x f w = (Inl e, w') \<Longrightarrow> st w' = st w"
    and ensure_imp_ok: "k_CreateOrUpdateImport K i g w = (Inr op, w') \<Longrightarrow>
          \<exists>z j. g (case ks_imps (st w) (imp_key i) of None \<Rightarrow> i | Some old \<Rightarrow> old) = Inr z \<and>
            imp_key j = imp_key i \<and> bi_Spec j = bi_Spec z \<and>
            bi_Status j = (case ks_imps (st w) (imp_key i) of None \<Rightarrow> zeroImportStatus | Some old \<Rightarrow> bi_Status old) \<and>
            st w' = put_imp j (st w)"
    and ensure_imp_err: "k_CreateOrUpdateImport K i g w = (Inl e, w') \<Longrightarrow> st w' = st w"

begin

text \<open>A status update goes through only for the version that is stored.\<close>

lemma update_rep_current:
  assumes "k_UpdateReplicationStatus K x w = (Inr y, w')" and "x0 \<in> ks_rep_seen (st w)"
    and "rep_key x0 = rep_key x" and "om_ResourceVersion (br_Meta x0) = om_ResourceVersion (br_Meta x)"
  shows "ks_reps (st w) (rep_key x) = Some x0 \<and> rep_key y = rep_key x \<and> br_Spec y = br_Spec x0 \<and>
    br_Status y = br_Status x \<and> st w' = put_rep y (st w)"
proof -
  obtain old where old: "ks_reps (st w) (rep_key x) = Some old"
    "om_ResourceVersion (br_Meta old) = om_ResourceVersion (br_Meta x)" "rep_key y = rep_key x"
    "br_Spec y = br_Spec old" "br_Status y = br_Status x" "st w' = put_rep y (st w)"
    using update_rep_ok [OF assms(1)] by blast
  then have "old = x0" using rep_version [OF _ assms(2), of old] rep_stored [OF old(1)] assms(3,4) by simp
  then show ?thesis using old by simp
qed

lemma update_imp_current:
  assumes "k_UpdateImportStatus K x w = (Inr y, w')" and "x0 \<in> ks_imp_seen (st w)"
    and "imp_key x0 = imp_key x" and "om_ResourceVersion (bi_Meta x0) = om_ResourceVersion (bi_Meta x)"
  shows "ks_imps (st w) (imp_key x) = Some x0 \<and> imp_key y = imp_key x \<and> bi_Spec y = bi_Spec x0 \<and>
    bi_Status y = bi_Status x \<and> st w' = put_imp y (st w)"
proof -
  obtain old where old: "ks_imps (st w) (imp_key x) = Some old"
    "om_ResourceVersion (bi_Meta old) = om_ResourceVersion (bi_Meta x)" "imp_key y = imp_key x"
    "bi_Spec y = bi_Spec old" "bi_Status y = bi_Status x" "st w' = put_imp y (st w)"
    using update_imp_ok [OF assms(1)] by blast
  then have "old = x0" using imp_version [OF _ assms(2), of old] imp_stored [OF old(1)] assms(3,4) by simp
  then show ?thesis using old by simp
qed

end

end
