(* ===== verification/Go_Paths.thy ===== *)
theory Go_Paths
  imports Go_Strings
begin

text \<open>
  The lexical path functions of Go's packages \<open>path\<close> and \<open>path/filepath\<close> (on a
  slash-separated system) that Snapback calls: \<open>Clean\<close>, \<open>Base\<close>, \<open>Dir\<close> and \<open>Join\<close>, with
  an independent reading of a relative path as a walk from a root directory.
\<close>

abbreviation slash :: char where
  "slash \<equiv> CHR ''/''"


section \<open>Clean, Base, Dir, Join\<close>

text \<open>
  \<open>Clean\<close> processes the elements from left to right; \<open>out\<close> is the reversed list of kept
  elements.
\<close>

definition clean_step :: "bool \<Rightarrow> string list \<Rightarrow> string \<Rightarrow> string list" where
  "clean_step rooted out c =
     (if c = '''' \<or> c = ''.'' then out
      else if c = ''..'' then
        (case out of
           [] \<Rightarrow> if rooted then [] else [c]
         | d # ds \<Rightarrow> if d = ''..'' then c # out else ds)
      else c # out)"

definition clean_comps :: "string \<Rightarrow> string list" where
  "clean_comps p = rev (foldl (clean_step (has_prefix p ''/'')) [] (split_on slash p))"

definition path_clean :: "string \<Rightarrow> string" where
  "path_clean p =
     (if p = '''' then ''.''
      else let cs = clean_comps p
           in if has_prefix p ''/'' then slash # join_with slash cs
              else if cs = [] then ''.'' else join_with slash cs)"

definition path_base :: "string \<Rightarrow> string" where
  "path_base p =
     (if p = '''' then ''.''
      else let b = last (split_on slash (trim_right p ''/''))
           in if b = '''' then ''/'' else b)"

definition path_dir :: "string \<Rightarrow> string" where
  "path_dir p = path_clean (rev (dropWhile (\<lambda>c. c \<noteq> slash) (rev p)))"

definition filepath_join :: "string list \<Rightarrow> string" where
  "filepath_join es = (case filter (\<lambda>e. e \<noteq> '''') es of
     [] \<Rightarrow> '''' | e # es' \<Rightarrow> path_clean (join_with slash (e # es')))"


section \<open>Relative paths as walks\<close>

text \<open>
  A path element that names an entry of a directory, and a path that is a non-empty sequence
  of such elements.
\<close>

definition normal_comp :: "string \<Rightarrow> bool" where
  "normal_comp c \<longleftrightarrow> c \<noteq> '''' \<and> c \<noteq> ''.'' \<and> c \<noteq> ''..'' \<and> slash \<notin> set c"

definition safe_path :: "string \<Rightarrow> bool" where
  "safe_path p \<longleftrightarrow> list_all normal_comp (split_on slash p)"

text \<open>
  Walking the elements of a relative path from a root directory: the reversed position below
  the root, or \<open>None\<close> as soon as the walk leaves the root.
\<close>

fun walk :: "string list \<Rightarrow> string list \<Rightarrow> string list option" where
  "walk pos [] = Some pos"
| "walk pos (c # cs) =
     (if c = '''' \<or> c = ''.'' then walk pos cs
      else if c = ''..'' then (case pos of [] \<Rightarrow> None | d # ds \<Rightarrow> walk ds cs)
      else walk (c # pos) cs)"

text \<open>The reversed element lists that cleaning a relative path can build.\<close>

definition clean_stack :: "string list \<Rightarrow> bool" where
  "clean_stack out \<longleftrightarrow> (\<exists>ns k. out = ns @ replicate k ''..'' \<and> list_all normal_comp ns)"

lemma normal_comp_not_dotdot: "normal_comp c \<Longrightarrow> c \<noteq> ''..''"
  by (simp add: normal_comp_def)

lemma clean_step_simps [simp]:
  "clean_step r out '''' = out"
  "clean_step r out ''.'' = out"
  "clean_step False [] ''..'' = [''..'']"
  "d \<noteq> ''..'' \<Longrightarrow> clean_step r (d # ds) ''..'' = ds"
  "normal_comp c \<Longrightarrow> clean_step r out c = c # out"
  by (simp_all add: clean_step_def normal_comp_def)

lemma walk_normal_Cons [simp]: "normal_comp c \<Longrightarrow> walk pos (c # cs) = walk (c # pos) cs"
  by (simp add: normal_comp_def)

lemma clean_stack_Nil [simp]: "clean_stack []"
  unfolding clean_stack_def by (intro exI [of _ "[]"] exI [of _ 0]) simp

lemma clean_stack_Cons: "normal_comp c \<Longrightarrow> clean_stack out \<Longrightarrow> clean_stack (c # out)"
  unfolding clean_stack_def by (metis append_Cons list.pred_inject(2))

lemma clean_stack_dotdots: "clean_stack (replicate k ''..'')"
  unfolding clean_stack_def by (intro exI [of _ "[]"] exI [of _ k]) simp

lemma clean_stackE:
  assumes "clean_stack out"
  obtains (dots) k where "out = replicate k ''..''"
    | (comp) n out' where "out = n # out'" and "normal_comp n" and "clean_stack out'"
proof -
  obtain ns k where out: "out = ns @ replicate k ''..''" and ns: "list_all normal_comp ns"
    using assms unfolding clean_stack_def by auto
  show ?thesis
  proof (cases ns)
    case Nil
    then show ?thesis using out dots by simp
  next
    case (Cons n ns')
    then have "clean_stack (ns' @ replicate k ''..'')" and "normal_comp n"
      using ns unfolding clean_stack_def by auto
    then show ?thesis using out Cons comp by simp
  qed
qed

lemma clean_step_stack:
  assumes "clean_stack out" and "slash \<notin> set c"
  shows "clean_stack (clean_step False out c)"
proof (cases "c = ''..''")
  case True
  from assms(1) show ?thesis
  proof (cases rule: clean_stackE)
    case (dots k)
    then have "clean_step False out c = replicate (Suc k) ''..''"
      using True by (cases k) (simp_all add: clean_step_def)
    then show ?thesis by (simp only: clean_stack_dotdots)
  next
    case (comp n out')
    then show ?thesis using True by (simp add: clean_step_def normal_comp_def)
  qed
next
  case False
  then show ?thesis
    using assms clean_stack_Cons [of c out] by (auto simp: clean_step_def normal_comp_def)
qed

lemma foldl_clean_stack:
  "clean_stack out \<Longrightarrow> \<forall>c \<in> set cs. slash \<notin> set c \<Longrightarrow> clean_stack (foldl (clean_step False) out cs)"
  by (induction cs arbitrary: out) (auto simp: clean_step_stack)

text \<open>
  Cleaning agrees with walking: without an escape the kept elements are the position reached,
  and after an escape the kept elements begin with \<open>..\<close>.
\<close>

lemma last_dotdot_step:
  "out \<noteq> [] \<Longrightarrow> last out = ''..'' \<Longrightarrow>
     clean_step False out c \<noteq> [] \<and> last (clean_step False out c) = ''..''"
  by (cases out) (auto simp: clean_step_def split: if_splits)

lemma foldl_last_dotdot:
  "out \<noteq> [] \<Longrightarrow> last out = ''..'' \<Longrightarrow>
     foldl (clean_step False) out cs \<noteq> [] \<and> last (foldl (clean_step False) out cs) = ''..''"
proof (induction cs arbitrary: out)
  case (Cons c cs)
  then show ?case using last_dotdot_step [of out c] by simp
qed simp

lemma foldl_clean_walk:
  "list_all normal_comp pos \<Longrightarrow> \<forall>c \<in> set cs. slash \<notin> set c \<Longrightarrow>
   (case walk pos cs of
      Some pos' \<Rightarrow> foldl (clean_step False) pos cs = pos' \<and> list_all normal_comp pos'
    | None \<Rightarrow> foldl (clean_step False) pos cs \<noteq> [] \<and> last (foldl (clean_step False) pos cs) = ''..'')"
proof (induction pos cs rule: walk.induct)
  case (1 pos)
  then show ?case by simp
next
  case (2 pos c cs)
  consider "c = '''' \<or> c = ''.''" | "c = ''..''" "pos = []" | d ds where "c = ''..''" "pos = d # ds"
    | "normal_comp c"
    using "2.prems" by (cases pos) (auto simp: normal_comp_def)
  then show ?case
  proof cases
    case 1
    then show ?thesis using "2.IH"(1) "2.prems" by (auto split: option.splits)
  next
    case 2
    then show ?thesis using foldl_last_dotdot [of "[''..'']" cs] by simp
  next
    case (3 d ds)
    then have "d \<noteq> ''..''" using "2.prems"(1) by (simp add: normal_comp_def)
    then show ?thesis using "2.IH"(2) [of d ds] "2.prems" 3 by (auto split: option.splits)
  next
    case 4
    have "c \<noteq> ''''" "c \<noteq> ''.''" "c \<noteq> ''..''" using 4 by (simp_all add: normal_comp_def)
    then show ?thesis using "2.IH"(3) "2.prems" 4 by (auto split: option.splits)
  qed
qed

lemma split_slash_free: "\<forall>c \<in> set (split_on slash p). slash \<notin> set c"
  using split_no_sep by blast

lemma clean_comps_rel:
  assumes "\<not> has_prefix p ''/''"
  shows "case walk [] (split_on slash p) of
      Some pos \<Rightarrow> clean_comps p = rev pos \<and> list_all normal_comp pos
    | None \<Rightarrow> clean_comps p \<noteq> [] \<and> hd (clean_comps p) = ''..''"
  using foldl_clean_walk [of "[]" "split_on slash p"] split_slash_free [of p] assms
  by (auto simp: clean_comps_def hd_rev split: option.splits)

lemma clean_stack_slash_free:
  assumes "clean_stack out" and "c \<in> set out"
  shows "slash \<notin> set c"
proof -
  obtain ns k where "out = ns @ replicate k ''..''" and "list_all normal_comp ns"
    using assms(1) unfolding clean_stack_def by blast
  then consider "normal_comp c" | "c = ''..''"
    using assms(2) unfolding list_all_iff by (metis Un_iff in_set_replicate set_append)
  then show ?thesis by cases (simp_all add: normal_comp_def)
qed

lemma clean_comps_slash_free:
  assumes "\<not> has_prefix p ''/''" and "c \<in> set (clean_comps p)"
  shows "slash \<notin> set c"
proof -
  have "clean_stack (rev (clean_comps p))"
    using foldl_clean_stack [of "[]" "split_on slash p"] split_slash_free assms(1)
    by (simp add: clean_comps_def)
  then show ?thesis by (rule clean_stack_slash_free) (simp add: assms(2))
qed


section \<open>Fixed points\<close>

lemma walk_normal: "list_all normal_comp cs \<Longrightarrow> walk pos cs = Some (rev cs @ pos)"
  by (induction cs arbitrary: pos) (auto simp: normal_comp_def)

lemma safe_path_not_rooted: "safe_path p \<Longrightarrow> \<not> has_prefix p ''/''"
  by (cases p) (auto simp: safe_path_def normal_comp_def)

lemma safe_path_join:
  "cs \<noteq> [] \<Longrightarrow> list_all normal_comp cs \<Longrightarrow> safe_path (join_with slash cs)"
  by (simp add: safe_path_def split_join list_all_iff normal_comp_def)

lemma clean_comps_safe: "safe_path p \<Longrightarrow> clean_comps p = split_on slash p"
  using clean_comps_rel [OF safe_path_not_rooted, of p]
  by (simp add: safe_path_def walk_normal)

lemma path_clean_safe: "safe_path p \<Longrightarrow> path_clean p = p"
  using safe_path_not_rooted [of p]
  by (auto simp: path_clean_def Let_def clean_comps_safe join_split safe_path_def normal_comp_def)



text \<open>A clean absolute path other than the root directory, and a safe path below it.\<close>

definition abs_root :: "string \<Rightarrow> bool" where
  "abs_root r \<longleftrightarrow> has_prefix r ''/'' \<and> safe_path (tl r)"

lemma split_append: "split_on c (a @ c # b) = split_on c a @ split_on c b"
proof (induction a)
  case (Cons x a)
  obtain w ws where "split_on c a = w # ws" by (meson list.exhaust split_neq_Nil)
  with Cons show ?case by simp
qed simp

lemma foldl_clean_normal:
  "list_all normal_comp cs \<Longrightarrow> foldl (clean_step r) out cs = rev cs @ out"
  by (induction cs arbitrary: out) simp_all

lemma path_clean_abs:
  assumes "safe_path p"
  shows "path_clean (slash # p) = slash # p"
proof -
  have "foldl (clean_step True) [] (split_on slash p) = rev (split_on slash p)"
    using assms by (simp add: foldl_clean_normal safe_path_def)
  then show ?thesis by (simp add: path_clean_def clean_comps_def Let_def join_split)
qed

lemma join_below_root:
  assumes "abs_root r" and "safe_path p"
  shows "filepath_join [r, p] = r @ slash # p"
proof -
  obtain q where r: "r = slash # q" and q: "safe_path q"
    using assms(1) by (cases r) (auto simp: abs_root_def)
  have "safe_path (q @ slash # p)" using q assms(2) by (simp add: safe_path_def split_append)
  moreover have "p \<noteq> ''''" using assms(2) by (auto simp: safe_path_def normal_comp_def)
  ultimately show ?thesis using r path_clean_abs [of "q @ slash # p"] by (simp add: filepath_join_def)
qed


section \<open>Base names\<close>

lemma split_append_last:
  "slash \<notin> set s \<Longrightarrow> \<exists>w ws. split_on slash (d @ slash # s) = (w # ws) @ [s]"
proof (induction d)
  case (Cons x d)
  then obtain w ws where "split_on slash (d @ slash # s) = (w # ws) @ [s]" by blast
  then show ?case by simp
qed (simp add: split_word)

lemma last_split_append: "slash \<notin> set s \<Longrightarrow> last (split_on slash (d @ slash # s)) = s"
  using split_append_last [of s d] by (metis last_snoc)

lemma trim_right_no: "s \<noteq> [] \<Longrightarrow> last s \<notin> set cs \<Longrightarrow> trim_right s cs = s"
  by (cases s rule: rev_cases) (simp_all add: trim_right_def)

lemma path_base_append:
  assumes "s \<noteq> []" and "slash \<notin> set s"
  shows "path_base (d @ slash # s) = s"
proof -
  have "last (d @ slash # s) = last s" using assms(1) by simp
  moreover have "last s \<noteq> slash" using assms by (metis last_in_set)
  ultimately have "trim_right (d @ slash # s) ''/'' = d @ slash # s"
    by (intro trim_right_no) simp_all
  then show ?thesis using assms by (simp add: path_base_def last_split_append)
qed

lemma safe_path_last: "safe_path p \<Longrightarrow> p \<noteq> [] \<and> last p \<noteq> slash"
proof (cases p rule: rev_cases)
  case (snoc q c)
  moreover assume "safe_path p"
  moreover have "split_on slash (q @ slash # []) = split_on slash q @ [[]]" by (subst split_append) simp
  ultimately show ?thesis by (auto simp: safe_path_def normal_comp_def)
qed (simp add: safe_path_def normal_comp_def)

lemma path_base_below:
  assumes "safe_path p"
  shows "path_base (d @ slash # p) = path_base p"
proof -
  have p: "p \<noteq> []" "last p \<noteq> slash" using safe_path_last [OF assms] by auto
  then have "trim_right p ''/'' = p" "trim_right (d @ slash # p) ''/'' = d @ slash # p"
    by (auto intro!: trim_right_no)
  then show ?thesis using p by (simp add: path_base_def split_append)
qed

end
