(* ===== verification/Go_OS.thy ===== *)
theory Go_OS
  imports Go_Paths
begin

text \<open>
  The operating-system services that Snapback calls through Go's packages \<open>os\<close>, \<open>io\<close> and
  \<open>path/filepath\<close>, as a record of operations on the state of the world, and the laws of the
  file system as a locale. The services themselves are not part of the program; the
  definitions of the components take the record as an argument. An in-memory file system
  interprets the locale.
\<close>

section \<open>Services\<close>

text \<open>
  An \<open>io.Reader\<close> is drained in one go: the bytes it delivers and the error that ended it, if
  it did not end at the end of the input.
\<close>

type_synonym 'w Reader = "'w \<Rightarrow> (bytes \<times> goerr option) \<times> 'w"

text \<open>
  \<open>os_Walk\<close> is the sequence of callbacks of \<open>filepath.WalkDir\<close> while they return no error:
  a path with the directory flag of its entry, or with the error of the visit.
\<close>

record 'w OS =
  os_MkdirAll :: "string \<Rightarrow> ('w, unit) effect"
  os_CreateTemp :: "string \<Rightarrow> string \<Rightarrow> ('w, string) effect"
  os_Write :: "string \<Rightarrow> bytes \<Rightarrow> ('w, unit) effect"
  os_Close :: "string \<Rightarrow> ('w, unit) effect"
  os_Rename :: "string \<Rightarrow> string \<Rightarrow> ('w, unit) effect"
  os_Remove :: "string \<Rightarrow> ('w, unit) effect"
  os_Stat :: "string \<Rightarrow> 'w \<Rightarrow> bool result"
  os_Open :: "string \<Rightarrow> 'w \<Rightarrow> unit result"
  os_Read :: "string \<Rightarrow> 'w \<Rightarrow> bytes result"
  os_Walk :: "string \<Rightarrow> 'w \<Rightarrow> (string \<times> bool result) list"

text \<open>\<open>os.IsNotExist\<close>.\<close>

definition errNotExist :: goerr where
  "errNotExist = OsErr ''file does not exist''"

definition is_not_exist :: "goerr \<Rightarrow> bool" where
  "is_not_exist e \<longleftrightarrow> e = errNotExist"

text \<open>The reader over an open file.\<close>

definition file_reader :: "'w OS \<Rightarrow> string \<Rightarrow> 'w Reader" where
  "file_reader os p w = (case os_Read os p w of
     Inl e \<Rightarrow> (([], Some e), w) | Inr b \<Rightarrow> ((b, None), w))"

text \<open>
  \<open>io.Copy\<close> from a reader to an open file: the number of bytes copied, or the error of the
  write or of the read. The bytes delivered before a read error are written.
\<close>

definition io_copy :: "'w OS \<Rightarrow> string \<Rightarrow> 'w Reader \<Rightarrow> ('w, bytes) effect" where
  "io_copy os p r w = (case r w of ((b, rerr), w1) \<Rightarrow>
     (case os_Write os p b w1 of
        (Inl e, w2) \<Rightarrow> (Inl e, w2)
      | (Inr _, w2) \<Rightarrow> (case rerr of Some e \<Rightarrow> (Inl e, w2) | None \<Rightarrow> (Inr b, w2))))"


section \<open>Laws\<close>

text \<open>
  The regular files of the world. A failed operation leaves the files alone, except that a
  failed write may leave anything in the file being written.
\<close>

locale posix_fs =
  fixes os :: "'w OS" and files :: "'w \<Rightarrow> string \<rightharpoonup> bytes"
  assumes mkdir_frame: "os_MkdirAll os d w = (r, w') \<Longrightarrow> files w' = files w"
    and temp_fresh: "os_CreateTemp os d ''.staging-*'' w = (Inr t, w') \<Longrightarrow>
          files w t = None \<and> has_prefix (path_base t) ''.staging-'' \<and> files w' = (files w)(t \<mapsto> [])"
    and temp_err: "os_CreateTemp os d pat w = (Inl e, w') \<Longrightarrow> files w' = files w"
    and write_ok: "os_Write os t b w = (Inr u, w') \<Longrightarrow> files w t = Some a \<Longrightarrow>
          files w' = (files w)(t \<mapsto> a @ b)"
    and write_err: "os_Write os t b w = (Inl e, w') \<Longrightarrow> p \<noteq> t \<Longrightarrow> files w' p = files w p"
    and close_frame: "os_Close os t w = (r, w') \<Longrightarrow> files w' = files w"
    and rename_ok: "os_Rename os s d w = (Inr u, w') \<Longrightarrow> files w s = Some b \<Longrightarrow>
          files w' = (files w)(s := None, d \<mapsto> b)"
    and rename_err: "os_Rename os s d w = (Inl e, w') \<Longrightarrow> files w' = files w"
    and remove_ok: "os_Remove os p w = (Inr u, w') \<Longrightarrow> files w' = (files w)(p := None)"
    and remove_err: "os_Remove os p w = (Inl e, w') \<Longrightarrow> files w' = files w"
    and read_ok: "os_Read os p w = Inr b \<Longrightarrow> files w p = Some b"

begin

lemma remove_absent: "files w p = None \<Longrightarrow> files (snd (os_Remove os p w)) = files w"
  by (cases "os_Remove os p w" rule: prod.exhaust, cases "fst (os_Remove os p w)")
    (auto simp: fun_upd_idem dest: remove_ok remove_err)

lemma remove_other: "q \<noteq> p \<Longrightarrow> files (snd (os_Remove os p w)) q = files w q"
  by (cases "os_Remove os p w" rule: prod.exhaust, cases "fst (os_Remove os p w)")
    (auto dest: remove_ok remove_err)

end


section \<open>An in-memory file system\<close>

text \<open>
  The world holds a list of files, which keeps the walk executable; every operation that a
  healthy file system performs succeeds. A temporary name is longer than every name in use.
\<close>

record memfs =
  mf_files :: "(string \<times> bytes) list"

definition memfs_del :: "string \<Rightarrow> (string \<times> bytes) list \<Rightarrow> (string \<times> bytes) list" where
  "memfs_del p fs = filter (\<lambda>(q, _). q \<noteq> p) fs"

definition memfs_set :: "string \<Rightarrow> bytes \<Rightarrow> (string \<times> bytes) list \<Rightarrow> (string \<times> bytes) list" where
  "memfs_set p b fs = memfs_del p fs @ [(p, b)]"

definition memfs_temp :: "string \<Rightarrow> (string \<times> bytes) list \<Rightarrow> string" where
  "memfs_temp d fs = d @ slash # ''.staging-'' @
     replicate (sum_list (map (\<lambda>(q, _). length q) fs)) (CHR ''x'')"

definition mem_os :: "'a memfs_scheme OS" where
  "mem_os = \<lparr>
     os_MkdirAll = (\<lambda>d w. (Inr (), w)),
     os_CreateTemp = (\<lambda>d pat w. let t = memfs_temp d (mf_files w)
        in (Inr t, w\<lparr>mf_files := memfs_set t [] (mf_files w)\<rparr>)),
     os_Write = (\<lambda>t b w. case map_of (mf_files w) t of
        None \<Rightarrow> (Inl errNotExist, w)
      | Some a \<Rightarrow> (Inr (), w\<lparr>mf_files := memfs_set t (a @ b) (mf_files w)\<rparr>)),
     os_Close = (\<lambda>t w. (Inr (), w)),
     os_Rename = (\<lambda>s d w. case map_of (mf_files w) s of
        None \<Rightarrow> (Inl errNotExist, w)
      | Some b \<Rightarrow> (Inr (), w\<lparr>mf_files := memfs_set d b (memfs_del s (mf_files w))\<rparr>)),
     os_Remove = (\<lambda>p w. case map_of (mf_files w) p of
        None \<Rightarrow> (Inl errNotExist, w)
      | Some _ \<Rightarrow> (Inr (), w\<lparr>mf_files := memfs_del p (mf_files w)\<rparr>)),
     os_Stat = (\<lambda>p w. case map_of (mf_files w) p of
        Some _ \<Rightarrow> Inr False
      | None \<Rightarrow> if \<exists>(q, _) \<in> set (mf_files w). has_prefix q (p @ ''/'') then Inr True
          else Inl errNotExist),
     os_Open = (\<lambda>p w. case map_of (mf_files w) p of None \<Rightarrow> Inl errNotExist | Some _ \<Rightarrow> Inr ()),
     os_Read = (\<lambda>p w. case map_of (mf_files w) p of None \<Rightarrow> Inl errNotExist | Some b \<Rightarrow> Inr b),
     os_Walk = (\<lambda>root w.
        (root, Inr True) #
        map (\<lambda>(q, _). (q, Inr False)) (filter (\<lambda>(q, _). has_prefix q (root @ ''/'')) (mf_files w)))\<rparr>"

lemma map_of_memfs_del [simp]: "map_of (memfs_del p fs) = (map_of fs)(p := None)"
  unfolding memfs_del_def by (induction fs) (auto simp: fun_eq_iff)

lemma map_of_memfs_set [simp]: "map_of (memfs_set p b fs) = (map_of fs)(p \<mapsto> b)"
  unfolding memfs_set_def by (auto simp: fun_eq_iff map_add_def split: option.splits)

lemma memfs_temp_fresh: "map_of fs (memfs_temp d fs) = None"
proof -
  have "(q, b) \<in> set fs \<Longrightarrow> length q \<le> sum_list (map (\<lambda>(q, _). length q) fs)" for q b
    by (rule member_le_sum_list) (force, simp)
  then have "length q < length (memfs_temp d fs)" if "(q, b) \<in> set fs" for q b
    using that by (fastforce simp: memfs_temp_def)
  then have "memfs_temp d fs \<notin> fst ` set fs" by force
  then show ?thesis by (simp add: map_of_eq_None_iff)
qed

lemma memfs_temp_base: "has_prefix (path_base (memfs_temp d fs)) ''.staging-''"
  unfolding memfs_temp_def by (simp add: path_base_append)

interpretation mem_fs: posix_fs mem_os "\<lambda>w. map_of (mf_files w)"
  by unfold_locales
    (auto simp: mem_os_def Let_def memfs_temp_fresh memfs_temp_base fun_upd_idem
      split: option.splits)

end
