(* ===== verification/Objstore.thy ===== *)
theory Objstore
  imports Go_OS
begin

text \<open>
  The object-store seam (\<open>src/src/internal/objstore/objstore.go\<close>): object descriptions, the
  store configuration, the \<open>Store\<close> interface as a record of its methods, and the contract the
  importer, the stager and the replication controller rely on, as the locale
  \<open>object_store\<close>. The store of \<open>minio.go\<close> is shown to satisfy it in theory \<open>Minio_Store\<close>.
\<close>

type_synonym time = int

record ObjectInfo =
  oi_Key :: string
  oi_Size :: int
  oi_ETag :: string
  oi_LastModified :: time

definition zeroObjectInfo :: ObjectInfo where
  "zeroObjectInfo = \<lparr>oi_Key = [], oi_Size = 0, oi_ETag = [], oi_LastModified = 0\<rparr>"

record Config =
  cfg_Endpoint :: string
  cfg_Region :: string
  cfg_Bucket :: string
  cfg_Prefix :: string
  cfg_ForcePathStyle :: bool
  cfg_AccessKeyID :: string
  cfg_SecretAccessKey :: string
  cfg_SessionToken :: string
  cfg_CABundle :: bytes
  cfg_InsecureTLS :: bool

definition zeroConfig :: Config where
  "zeroConfig = \<lparr>cfg_Endpoint = [], cfg_Region = [], cfg_Bucket = [], cfg_Prefix = [],
     cfg_ForcePathStyle = False, cfg_AccessKeyID = [], cfg_SecretAccessKey = [],
     cfg_SessionToken = [], cfg_CABundle = [], cfg_InsecureTLS = False\<rparr>"

record 'w Store =
  st_List :: "string \<Rightarrow> ('w, ObjectInfo list) effect"
  st_Open :: "string \<Rightarrow> ('w, 'w Reader) effect"
  st_Put :: "string \<Rightarrow> 'w Reader \<Rightarrow> int \<Rightarrow> string \<Rightarrow> ('w, unit) effect"
  st_Stat :: "string \<Rightarrow> ('w, ObjectInfo \<times> bool) effect"
  st_GetLedger :: "string \<Rightarrow> ('w, bytes \<times> string) effect"
  st_PutLedger :: "string \<Rightarrow> bytes \<Rightarrow> string \<Rightarrow> ('w, string) effect"


section \<open>The contract of the data keys\<close>

text \<open>
  \<open>objs w k\<close> is the content of the object at key \<open>k\<close>. Two keys with the same canonical
  form name the same object. \<open>Stat\<close> reports what is there and changes nothing; a successful
  \<open>Put\<close> of a reader that delivers exactly the announced number of bytes stores these bytes,
  and a failed one has either stored them or not. Any call may fail.
\<close>

locale object_store =
  fixes S :: "'w Store"
    and canon :: "string \<Rightarrow> string"
    and objs :: "'w \<Rightarrow> string \<rightharpoonup> bytes"
  assumes objs_canon: "canon k = canon k' \<Longrightarrow> objs w k = objs w k'"
    and stat_frame: "st_Stat S k w = (sr, w') \<Longrightarrow> objs w' = objs w"
    and stat_present: "st_Stat S k w = (Inr (info, True), w') \<Longrightarrow>
          \<exists>b. objs w k = Some b \<and> oi_Size info = int (length b)"
    and stat_absent: "st_Stat S k w = (Inr (info, False), w') \<Longrightarrow> objs w k = None"
    and put_ok: "st_Put S k rd n ct w = (Inr u, w') \<Longrightarrow> rd w = ((b, None), w) \<Longrightarrow>
          int (length b) = n \<Longrightarrow>
          objs w' = (\<lambda>k'. if canon k' = canon k then Some b else objs w k')"
    and put_err: "st_Put S k rd n ct w = (Inl e, w') \<Longrightarrow> rd w = ((b, None), w) \<Longrightarrow>
          int (length b) = n \<Longrightarrow>
          objs w' = objs w \<or> objs w' = (\<lambda>k'. if canon k' = canon k then Some b else objs w k')"
    and open_frame: "st_Open S k w = (Inr rd, w') \<Longrightarrow> objs w' = objs w"
    and open_err: "st_Open S k w = (Inl e, w') \<Longrightarrow> objs w' = objs w"
    and open_read: "st_Open S k w = (Inr rd, w1) \<Longrightarrow> rd w2 = ((b, None), w3) \<Longrightarrow> objs w2 k = Some b"
    and read_frame: "st_Open S k w = (Inr rd, w1) \<Longrightarrow> rd w2 = (rr, w3) \<Longrightarrow> objs w3 = objs w2"

begin

lemma put_cases:
  assumes "st_Put S k rd n ct w = (pr, w')" and "rd w = ((b, None), w)" and "int (length b) = n"
  shows "objs w' = objs w \<or> objs w' = (\<lambda>k'. if canon k' = canon k then Some b else objs w k')"
  using assms by (cases pr) (auto dest: put_ok put_err)

lemma stat_snd: "objs (snd (st_Stat S k w)) = objs w"
  by (cases "st_Stat S k w") (auto dest: stat_frame)

end

end
