(* ===== verification/Minio_Store.thy ===== *)
theory Minio_Store
  imports Objstore "HOL-Library.AList"
begin

text \<open>
  The S3 store (\<open>src/src/internal/objstore/minio.go\<close>): endpoint and key handling, the store
  methods over a minio-go client, and \<open>New\<close>. The client is third-party code: the definitions
  take its operations as a record, and the locale \<open>s3_client\<close> states what S3 documents of
  them. Under these laws the store satisfies the contract \<open>object_store\<close>.
\<close>


section \<open>The client\<close>

record MObj =
  mo_Key :: string
  mo_Size :: int
  mo_ETag :: string
  mo_LastModified :: time

record PutOpts =
  po_ContentType :: string
  po_MatchETag :: "string option"
  po_MatchETagExcept :: "string option"

definition noPutOpts :: PutOpts where
  "noPutOpts = \<lparr>po_ContentType = [], po_MatchETag = None, po_MatchETagExcept = None\<rparr>"

text \<open>
  \<open>GetObject\<close> is lazy: it returns an object whose \<open>Stat\<close> and reads contact the server.
  \<open>ListObjects\<close> delivers a sequence of objects and errors.
\<close>

record 'w MObject =
  ob_Stat :: "('w, MObj) effect"
  ob_Read :: "'w Reader"

record 'w MinioClient =
  mc_ListObjects :: "string \<Rightarrow> string \<Rightarrow> bool \<Rightarrow> 'w \<Rightarrow> (goerr + MObj) list \<times> 'w"
  mc_GetObject :: "string \<Rightarrow> string \<Rightarrow> ('w, 'w MObject) effect"
  mc_PutObject :: "string \<Rightarrow> string \<Rightarrow> 'w Reader \<Rightarrow> int \<Rightarrow> PutOpts \<Rightarrow> ('w, string) effect"
  mc_StatObject :: "string \<Rightarrow> string \<Rightarrow> ('w, MObj) effect"

text \<open>\<open>minio.ToErrorResponse\<close>: the code and status of an S3 error, empty for other errors.\<close>

fun toErrorResponse :: "goerr \<Rightarrow> string \<times> int" where
  "toErrorResponse (MinioErr code status) = (code, status)"
| "toErrorResponse _ = ([], 0)"

definition isNotFound :: "goerr \<Rightarrow> bool" where
  "isNotFound err = (case toErrorResponse err of (code, status) \<Rightarrow>
     code = ''NoSuchKey'' \<or> code = ''NoSuchBucket'' \<or> status = 404)"

definition isPreconditionFailed :: "goerr \<Rightarrow> bool" where
  "isPreconditionFailed err = (case toErrorResponse err of (code, status) \<Rightarrow>
     code = ''PreconditionFailed'' \<or> status = 412)"

definition ErrLedgerConflict :: goerr where
  "ErrLedgerConflict = Sentinel ''objstore: ledger precondition failed (concurrent write)''"


section \<open>Keys\<close>

record 'w minioStore =
  ms_client :: "'w MinioClient"
  ms_bucket :: string
  ms_prefix :: string

definition fullKey :: "string \<Rightarrow> string \<Rightarrow> string" where
  "fullKey pfx rel =
     (let rel = trim_left rel ''/'' in if pfx = '''' then rel else pfx @ ''/'' @ rel)"

definition relKey :: "string \<Rightarrow> string \<Rightarrow> string" where
  "relKey pfx full = (if pfx = '''' then full else trim_prefix full (pfx @ ''/''))"


section \<open>Methods\<close>

definition unquote :: "string \<Rightarrow> string" where
  "unquote s = trim s [CHR 0x22]"

fun collectObjects :: "string \<Rightarrow> string \<Rightarrow> (goerr + MObj) list \<Rightarrow> ObjectInfo list \<Rightarrow> ObjectInfo list result" where
  "collectObjects pfx lp [] out = Inr out"
| "collectObjects pfx lp (Inl e # xs) out = Inl (Wrapf ''objstore: list'' [lp] e)"
| "collectObjects pfx lp (Inr obj # xs) out =
     collectObjects pfx lp xs (out @ [\<lparr>oi_Key = relKey pfx (mo_Key obj), oi_Size = mo_Size obj,
       oi_ETag = unquote (mo_ETag obj), oi_LastModified = mo_LastModified obj\<rparr>])"

definition List_minio :: "'w minioStore \<Rightarrow> string \<Rightarrow> ('w, ObjectInfo list) effect" where
  "List_minio s pfx w =
     (let listPrefix = fullKey (ms_prefix s) pfx
      in case mc_ListObjects (ms_client s) (ms_bucket s) listPrefix True w of (xs, w') \<Rightarrow>
           (collectObjects (ms_prefix s) listPrefix xs [], w'))"

definition Open_minio :: "'w minioStore \<Rightarrow> string \<Rightarrow> ('w, 'w Reader) effect" where
  "Open_minio s key w =
     (case mc_GetObject (ms_client s) (ms_bucket s) (fullKey (ms_prefix s) key) w of
        (Inl e, w') \<Rightarrow> (Inl (Wrapf ''objstore: open'' [key] e), w')
      | (Inr obj, w') \<Rightarrow> (Inr (ob_Read obj), w'))"

definition Put_minio :: "'w minioStore \<Rightarrow> string \<Rightarrow> 'w Reader \<Rightarrow> int \<Rightarrow> string \<Rightarrow> ('w, unit) effect" where
  "Put_minio s key r n contentType w =
     (let opts = (if contentType \<noteq> '''' then noPutOpts\<lparr>po_ContentType := contentType\<rparr> else noPutOpts)
      in case mc_PutObject (ms_client s) (ms_bucket s) (fullKey (ms_prefix s) key) r n opts w of
           (Inl e, w') \<Rightarrow> (Inl (Wrapf ''objstore: put'' [key] e), w')
         | (Inr _, w') \<Rightarrow> (Inr (), w'))"

definition Stat_minio :: "'w minioStore \<Rightarrow> string \<Rightarrow> ('w, ObjectInfo \<times> bool) effect" where
  "Stat_minio s key w =
     (case mc_StatObject (ms_client s) (ms_bucket s) (fullKey (ms_prefix s) key) w of
        (Inl e, w') \<Rightarrow>
          (if isNotFound e then (Inr (zeroObjectInfo, False), w')
           else (Inl (Wrapf ''objstore: stat'' [key] e), w'))
      | (Inr st, w') \<Rightarrow>
          (Inr (\<lparr>oi_Key = key, oi_Size = mo_Size st, oi_ETag = unquote (mo_ETag st),
            oi_LastModified = mo_LastModified st\<rparr>, True), w'))"

definition GetLedger_minio :: "'w minioStore \<Rightarrow> string \<Rightarrow> ('w, bytes \<times> string) effect" where
  "GetLedger_minio s key w =
     (case mc_GetObject (ms_client s) (ms_bucket s) key w of
        (Inl e, w1) \<Rightarrow> (Inl (Wrapf ''objstore: get ledger'' [key] e), w1)
      | (Inr obj, w1) \<Rightarrow>
          (case ob_Stat obj w1 of
             (Inl e, w2) \<Rightarrow>
               (if isNotFound e then (Inr ([], []), w2)
                else (Inl (Wrapf ''objstore: stat ledger'' [key] e), w2))
           | (Inr st, w2) \<Rightarrow>
               (case ob_Read obj w2 of
                  ((body, Some e), w3) \<Rightarrow> (Inl (Wrapf ''objstore: read ledger'' [key] e), w3)
                | ((body, None), w3) \<Rightarrow> (Inr (body, unquote (mo_ETag st)), w3))))"

definition bytes_reader :: "bytes \<Rightarrow> 'w Reader" where
  "bytes_reader b w = ((b, None), w)"

definition PutLedger_minio :: "'w minioStore \<Rightarrow> string \<Rightarrow> bytes \<Rightarrow> string \<Rightarrow> ('w, string) effect" where
  "PutLedger_minio s key body etag w =
     (let opts0 = noPutOpts\<lparr>po_ContentType := ''application/json''\<rparr>;
          opts = (if etag = '''' then opts0\<lparr>po_MatchETagExcept := Some ''*''\<rparr>
                  else opts0\<lparr>po_MatchETag := Some etag\<rparr>)
      in case mc_PutObject (ms_client s) (ms_bucket s) key (bytes_reader body) (int (length body)) opts w of
           (Inl e, w') \<Rightarrow>
             (if isPreconditionFailed e then (Inl ErrLedgerConflict, w')
              else (Inl (Wrapf ''objstore: put ledger'' [key] e), w'))
         | (Inr tag, w') \<Rightarrow> (Inr (unquote tag), w'))"

definition minio_Store :: "'w minioStore \<Rightarrow> 'w Store" where
  "minio_Store s = \<lparr>st_List = List_minio s, st_Open = Open_minio s, st_Put = Put_minio s,
     st_Stat = Stat_minio s, st_GetLedger = GetLedger_minio s, st_PutLedger = PutLedger_minio s\<rparr>"



section \<open>Keys round-trip\<close>

lemma relKey_fullKey_trim: "relKey pfx (fullKey pfx k) = trim_left k ''/''"
proof -
  have "trim_prefix (pfx @ ''/'' @ trim_left k ''/'') (pfx @ ''/'') = trim_left k ''/''"
    using trim_prefix_append [of "pfx @ ''/''" "trim_left k ''/''"] by simp
  then show ?thesis by (simp add: relKey_def fullKey_def Let_def)
qed

lemma fullKey_trim_left [simp]: "fullKey pfx (trim_left k ''/'') = fullKey pfx k"
  by (simp add: fullKey_def)

lemma fullKey_eq_iff: "fullKey pfx k = fullKey pfx k' \<longleftrightarrow> trim_left k ''/'' = trim_left k' ''/''"
  by (auto simp: fullKey_def Let_def)

text \<open>A listed bucket key, stripped and completed again, is the key it came from.\<close>

lemma fullKey_relKey_listed:
  assumes "has_prefix full (fullKey pfx p)" and "trim_left p ''/'' \<noteq> []"
  shows "fullKey pfx (relKey pfx full) = full"
proof -
  obtain t where full: "full = fullKey pfx p @ t"
    using assms(1) by (auto simp: has_prefix_iff)
  obtain c cs where p: "trim_left p ''/'' = c # cs" using assms(2) by (cases "trim_left p ''/''") auto
  then have c: "c \<noteq> slash" using trim_left_hd [of p "''/''"] by simp
  then have "trim_left (trim_left p ''/'' @ t) ''/'' = trim_left p ''/'' @ t"
    by (intro trim_left_id) (simp add: p)
  moreover have "relKey pfx full = trim_left p ''/'' @ t"
    using trim_prefix_append [of "pfx @ ''/''" "trim_left p ''/'' @ t"]
    by (simp add: full fullKey_def relKey_def Let_def)
  ultimately show ?thesis by (simp add: full fullKey_def Let_def)
qed


section \<open>What S3 documents of the client\<close>

text \<open>
  \<open>store w\<close> and \<open>etag w\<close> are the contents and entity tags of the bucket. Reads change
  nothing and return what is stored; a successful unconditional or conditional \<open>PUT\<close> replaces
  one object atomically, its precondition held, and the tag it returns is the object's new
  tag; a refused precondition changes nothing; any other failed \<open>PUT\<close> happened in the same way
  or did not.
\<close>

locale s3_client =
  fixes C :: "'w MinioClient" and bkt :: string
    and store :: "'w \<Rightarrow> string \<rightharpoonup> bytes" and etag :: "'w \<Rightarrow> string \<rightharpoonup> string"
  assumes stat_frame: "mc_StatObject C bkt k w = (sr, w') \<Longrightarrow> store w' = store w \<and> etag w' = etag w"
    and stat_ok: "mc_StatObject C bkt k w = (Inr st, w') \<Longrightarrow>
          \<exists>b. store w k = Some b \<and> mo_Size st = int (length b)"
    and stat_missing: "mc_StatObject C bkt k w = (Inl e, w') \<Longrightarrow> isNotFound e \<Longrightarrow> store w k = None"
    and get_frame: "mc_GetObject C bkt k w = (gr, w') \<Longrightarrow> store w' = store w \<and> etag w' = etag w"
    and get_stat_frame: "mc_GetObject C bkt k w = (Inr ob, w1) \<Longrightarrow> ob_Stat ob w2 = (osr, w3) \<Longrightarrow>
          store w3 = store w2 \<and> etag w3 = etag w2"
    and get_stat_ok: "mc_GetObject C bkt k w = (Inr ob, w1) \<Longrightarrow> ob_Stat ob w2 = (Inr st, w3) \<Longrightarrow>
          etag w2 k = Some (unquote (mo_ETag st)) \<and> unquote (mo_ETag st) \<noteq> [] \<and> store w2 k \<noteq> None"
    and get_stat_missing: "mc_GetObject C bkt k w = (Inr ob, w1) \<Longrightarrow> ob_Stat ob w2 = (Inl e, w3) \<Longrightarrow>
          isNotFound e \<Longrightarrow> store w2 k = None"
    and get_read_frame: "mc_GetObject C bkt k w = (Inr ob, w1) \<Longrightarrow> ob_Read ob w2 = (rr, w3) \<Longrightarrow>
          store w3 = store w2 \<and> etag w3 = etag w2"
    and get_read_ok: "mc_GetObject C bkt k w = (Inr ob, w1) \<Longrightarrow> ob_Read ob w2 = ((b, None), w3) \<Longrightarrow>
          store w2 k = Some b"
    and put_ok: "mc_PutObject C bkt k rd n opts w = (Inr tag, w') \<Longrightarrow> rd w = ((b, None), w) \<Longrightarrow>
          int (length b) = n \<Longrightarrow>
          store w' = (store w)(k \<mapsto> b) \<and> etag w' = (etag w)(k \<mapsto> unquote tag) \<and>
          (po_MatchETagExcept opts = Some ''*'' \<longrightarrow> store w k = None) \<and>
          (\<forall>t. po_MatchETag opts = Some t \<longrightarrow> etag w k = Some t)"
    and put_refused: "mc_PutObject C bkt k rd n opts w = (Inl e, w') \<Longrightarrow> isPreconditionFailed e \<Longrightarrow>
          rd w = ((b, None), w) \<Longrightarrow> store w' = store w \<and> etag w' = etag w"
    and put_err: "mc_PutObject C bkt k rd n opts w = (Inl e, w') \<Longrightarrow> rd w = ((b, None), w) \<Longrightarrow>
          int (length b) = n \<Longrightarrow> store w' = store w \<and> etag w' = etag w \<or>
          store w' = (store w)(k \<mapsto> b) \<and> (\<exists>t. etag w' = (etag w)(k \<mapsto> t)) \<and>
          (po_MatchETagExcept opts = Some ''*'' \<longrightarrow> store w k = None) \<and>
          (\<forall>t. po_MatchETag opts = Some t \<longrightarrow> etag w k = Some t)"

text \<open>A store with its key prefix over such a client.\<close>

locale s3_store = s3_client +
  fixes pfx :: string

begin

abbreviation Sm where
  "Sm \<equiv> \<lparr>ms_client = C, ms_bucket = bkt, ms_prefix = pfx\<rparr>"

lemma Stat_cases:
  assumes "Stat_minio Sm k w = (sr, w')"
  obtains (err) e where "sr = Inl e" "store w' = store w"
    | (absent) "sr = Inr (zeroObjectInfo, False)" "store w (fullKey pfx k) = None" "store w' = store w"
    | (present) info b where "sr = Inr (info, True)" "store w (fullKey pfx k) = Some b"
        "oi_Size info = int (length b)" "oi_Key info = k" "store w' = store w"
proof (cases "mc_StatObject C bkt (fullKey pfx k) w")
  case (Pair r v)
  have frame: "store v = store w" using stat_frame [OF Pair] by simp
  show ?thesis
  proof (cases r)
    case (Inl e)
    then show ?thesis
      using assms Pair frame err absent stat_missing [of _ w e v]
      by (auto simp: Stat_minio_def split: if_splits)
  next
    case (Inr st)
    with Pair obtain b where "store w (fullKey pfx k) = Some b" and "mo_Size st = int (length b)"
      using stat_ok by blast
    with Inr Pair frame assms present show ?thesis by (auto simp: Stat_minio_def)
  qed
qed

lemma Open_cases:
  assumes "Open_minio Sm k w = (Inr rd, w')"
  obtains ob where "mc_GetObject C bkt (fullKey pfx k) w = (Inr ob, w')" and "rd = ob_Read ob"
  using assms by (auto simp: Open_minio_def split: prod.splits sum.splits)

lemma Open_frame: "Open_minio Sm k w = (r, w') \<Longrightarrow> store w' = store w"
  using get_frame [of "fullKey pfx k" w]
  by (auto simp: Open_minio_def split: prod.splits sum.splits)

lemma Put_cases:
  assumes "Put_minio Sm k rd n ct w = (pr, w')" and "rd w = ((b, None), w)" and "int (length b) = n"
  shows "store w' = (store w)(fullKey pfx k \<mapsto> b) \<or> store w' = store w \<and> isl pr"
  using assms put_ok put_err
  by (fastforce simp: Put_minio_def Let_def split: prod.splits sum.splits if_splits)

lemma Put_ok:
  assumes "Put_minio Sm k rd n ct w = (Inr u, w')" and "rd w = ((b, None), w)" and "int (length b) = n"
  shows "store w' = (store w)(fullKey pfx k \<mapsto> b)"
  using Put_cases [OF assms] by simp

end

sublocale s3_store \<subseteq> data: object_store
  "minio_Store \<lparr>ms_client = C, ms_bucket = bkt, ms_prefix = pfx\<rparr>" "fullKey pfx"
  "\<lambda>w k. store w (fullKey pfx k)"
proof (unfold_locales, goal_cases)
  case 1
  then show ?case by simp
next
  case (2 k w sr w')
  then show ?case by (auto simp: minio_Store_def elim!: Stat_cases)
next
  case (3 k w info w')
  then show ?case by (auto simp: minio_Store_def elim!: Stat_cases)
next
  case (4 k w info w')
  then show ?case by (auto simp: minio_Store_def elim!: Stat_cases)
next
  case (5 k rd n ct w u w' b)
  then show ?case using Put_ok [of k rd n ct w u w' b] by (auto simp: minio_Store_def)
next
  case (6 k rd n ct w e w' b)
  then show ?case using Put_cases [of k rd n ct w "Inl e" w' b] by (auto simp: minio_Store_def)
next
  case (7 k w rd w')
  then show ?case using Open_frame [of k w] by (simp add: minio_Store_def)
next
  case (8 k w e w')
  then show ?case using Open_frame [of k w] by (simp add: minio_Store_def)
next
  case (9 k w rd w1 w2 b w3)
  then show ?case by (auto simp: minio_Store_def elim!: Open_cases dest: get_read_ok)
next
  case (10 k w rd w1 w2 rr w3)
  then show ?case by (auto simp: minio_Store_def elim!: Open_cases dest: get_read_frame)
qed



context s3_store
begin

lemma data_store: "object_store (minio_Store Sm) (fullKey pfx) (\<lambda>w k. store w (fullKey pfx k))"
  by (rule data.object_store_axioms)

lemma GetLedger_ok:
  assumes "GetLedger_minio Sm key w = (Inr (body, tag), w')"
  shows "store w' = store w \<and> etag w' = etag w \<and>
    (if tag = [] then body = [] \<and> store w key = None
     else store w key = Some body \<and> etag w key = Some tag)"
proof -
  obtain ob w1 where get: "mc_GetObject C bkt key w = (Inr ob, w1)"
    using assms by (auto simp: GetLedger_minio_def split: prod.splits sum.splits)
  obtain osr w2 where st: "ob_Stat ob w1 = (osr, w2)" by (cases "ob_Stat ob w1") auto
  obtain d rerr w3 where rd: "ob_Read ob w2 = ((d, rerr), w3)"
    by (metis prod.exhaust)
  note frames = get_frame [OF get] get_stat_frame [OF get st] get_read_frame [OF get rd]
  show ?thesis
  proof (cases osr)
    case (Inl e)
    then show ?thesis
      using assms get st frames get_stat_missing [OF get, of w1 e w2]
      by (auto simp: GetLedger_minio_def split: if_splits)
  next
    case (Inr i)
    then have "rerr = None" "body = d" "tag = unquote (mo_ETag i)" "w' = w3"
      using assms get st rd by (auto simp: GetLedger_minio_def split: option.splits)
    then show ?thesis
      using frames get_stat_ok [OF get, of w1 i w2] get_read_ok [OF get, of w2 d w3] st rd Inr by auto
  qed
qed

lemma PutLedger_ok:
  assumes "PutLedger_minio Sm key body tag w = (Inr tag', w')"
  shows "store w' = (store w)(key \<mapsto> body) \<and> etag w' = (etag w)(key \<mapsto> tag') \<and>
    (if tag = [] then store w key = None else etag w key = Some tag)"
proof -
  define opts where "opts = (if tag = [] then
      noPutOpts\<lparr>po_ContentType := ''application/json'', po_MatchETagExcept := Some ''*''\<rparr>
    else noPutOpts\<lparr>po_ContentType := ''application/json'', po_MatchETag := Some tag\<rparr>)"
  obtain t where put: "mc_PutObject C bkt key (bytes_reader body) (int (length body)) opts w = (Inr t, w')"
    and t: "tag' = unquote t"
    using assms by (auto simp: PutLedger_minio_def Let_def opts_def split: prod.splits sum.splits if_splits)
  show ?thesis
    using put_ok [OF put, of body] t by (auto simp: bytes_reader_def opts_def)
qed

lemma PutLedger_cases:
  assumes "PutLedger_minio Sm key body tag w = (r, w')"
  obtains (kept) "isl r" "store w' = store w" "etag w' = etag w"
    | (written) t where "store w' = (store w)(key \<mapsto> body)" "etag w' = (etag w)(key \<mapsto> t)"
        "if tag = [] then store w key = None else etag w key = Some tag"
proof (cases r)
  case (Inr t)
  then show ?thesis using PutLedger_ok [OF assms [unfolded Inr]] written by blast
next
  case (Inl e)
  define opts where "opts = (if tag = [] then
      noPutOpts\<lparr>po_ContentType := ''application/json'', po_MatchETagExcept := Some ''*''\<rparr>
    else noPutOpts\<lparr>po_ContentType := ''application/json'', po_MatchETag := Some tag\<rparr>)"
  obtain pe where put: "mc_PutObject C bkt key (bytes_reader body) (int (length body)) opts w = (Inl pe, w')"
    using assms Inl by (auto simp: PutLedger_minio_def Let_def opts_def split: prod.splits sum.splits if_splits)
  have rd: "bytes_reader body w = ((body, None), w)" by (simp add: bytes_reader_def)
  have opt: "(if tag = [] then po_MatchETagExcept opts = Some ''*'' else po_MatchETag opts = Some tag)"
    by (simp add: opts_def)
  from put_err [OF put rd refl] show ?thesis
  proof (elim disjE conjE exE)
    assume "store w' = store w" "etag w' = etag w"
    then show ?thesis using kept Inl by simp
  next
    fix t assume "store w' = (store w)(key \<mapsto> body)" "etag w' = (etag w)(key \<mapsto> t)"
      "po_MatchETagExcept opts = Some ''*'' \<longrightarrow> store w key = None" "\<forall>t. po_MatchETag opts = Some t \<longrightarrow> etag w key = Some t"
    then show ?thesis using written [of t] opt by (auto split: if_splits)
  qed
qed

lemma PutLedger_conflict:
  assumes "PutLedger_minio Sm key body tag w = (Inl ErrLedgerConflict, w')"
  shows "store w' = store w \<and> etag w' = etag w"
  using assms put_refused [of key "bytes_reader body" "int (length body)" _ w _ _ body]
  by (auto simp: PutLedger_minio_def Let_def ErrLedgerConflict_def bytes_reader_def
      split: prod.splits sum.splits if_splits)

end


section \<open>An in-memory S3\<close>

text \<open>
  One bucket of versioned objects; the entity tag of an object is its version number. The
  record extends the in-memory file system, so that one world serves both interfaces, and
  keeps the sequence of keys written.
\<close>

record memworld = memfs +
  mw_objs :: "(string \<times> (bytes \<times> nat)) list"
  mw_ver :: nat
  mw_puts :: "string list"

definition mem_obj :: "string \<Rightarrow> bytes \<times> nat \<Rightarrow> MObj" where
  "mem_obj k v = \<lparr>mo_Key = k, mo_Size = int (length (fst v)), mo_ETag = dec (snd v), mo_LastModified = 0\<rparr>"

definition noSuchKey :: goerr where
  "noSuchKey = MinioErr ''NoSuchKey'' 404"

definition mem_stat :: "string \<Rightarrow> string \<Rightarrow> string \<Rightarrow> ('a memworld_scheme, MObj) effect" where
  "mem_stat bkt b k w =
     (if b \<noteq> bkt then (Inl (MinioErr ''NoSuchBucket'' 404), w)
      else case map_of (mw_objs w) k of None \<Rightarrow> (Inl noSuchKey, w) | Some v \<Rightarrow> (Inr (mem_obj k v), w))"

definition mem_read :: "string \<Rightarrow> string \<Rightarrow> string \<Rightarrow> 'a memworld_scheme Reader" where
  "mem_read bkt b k w =
     (case (if b = bkt then map_of (mw_objs w) k else None) of
        None \<Rightarrow> (([], Some noSuchKey), w) | Some v \<Rightarrow> ((fst v, None), w))"

definition mem_put :: "string \<Rightarrow> string \<Rightarrow> string \<Rightarrow> 'a memworld_scheme Reader \<Rightarrow> int \<Rightarrow> PutOpts \<Rightarrow>
    ('a memworld_scheme, string) effect" where
  "mem_put bkt b k rd n opts w =
     (if b \<noteq> bkt then (Inl (MinioErr ''NoSuchBucket'' 404), w)
      else case rd w of
        ((d, Some e), w1) \<Rightarrow> (Inl e, w1)
      | ((d, None), w1) \<Rightarrow>
          if int (length d) \<noteq> n then (Inl (LibErr ''unexpected EOF''), w1)
          else if po_MatchETagExcept opts = Some ''*'' \<and> map_of (mw_objs w1) k \<noteq> None \<or>
              (case po_MatchETag opts of None \<Rightarrow> False
               | Some t \<Rightarrow> map_option (\<lambda>v. dec (snd v)) (map_of (mw_objs w1) k) \<noteq> Some t)
            then (Inl (MinioErr ''PreconditionFailed'' 412), w1)
          else (Inr (dec (mw_ver w1)),
            w1\<lparr>mw_objs := AList.update k (d, mw_ver w1) (mw_objs w1), mw_ver := Suc (mw_ver w1),
               mw_puts := mw_puts w1 @ [k]\<rparr>))"

definition mem_client :: "string \<Rightarrow> 'a memworld_scheme MinioClient" where
  "mem_client bkt = \<lparr>
     mc_ListObjects = (\<lambda>b p rec w.
       (if b \<noteq> bkt then [Inl (MinioErr ''NoSuchBucket'' 404)]
        else map (\<lambda>(k, v). Inr (mem_obj k v)) (filter (\<lambda>(k, v). has_prefix k p) (mw_objs w)), w)),
     mc_GetObject = (\<lambda>b k w. (Inr \<lparr>ob_Stat = mem_stat bkt b k, ob_Read = mem_read bkt b k\<rparr>, w)),
     mc_PutObject = mem_put bkt,
     mc_StatObject = mem_stat bkt\<rparr>"

definition mem_store :: "'a memworld_scheme \<Rightarrow> string \<rightharpoonup> bytes" where
  "mem_store w = map_option fst \<circ> map_of (mw_objs w)"

definition mem_etag :: "'a memworld_scheme \<Rightarrow> string \<rightharpoonup> string" where
  "mem_etag w = map_option (\<lambda>v. dec (snd v)) \<circ> map_of (mw_objs w)"

lemma dec_neq_Nil: "dec n \<noteq> []"
  by (subst dec.simps) simp

lemma unquote_dec [simp]: "unquote (dec n) = dec n"
proof -
  have "\<not> is_digit (CHR 0x22)" by (simp add: is_digit_def)
  then have "\<forall>c \<in> set (dec n). c \<notin> set [CHR 0x22]" using dec_digits by fastforce
  then show ?thesis unfolding unquote_def by (rule trim_none)
qed

lemmas mem_s3_defs = mem_client_def mem_stat_def mem_read_def mem_put_def mem_store_def mem_etag_def
  mem_obj_def noSuchKey_def

lemma mem_put_ok:
  "mem_put bkt bkt k rd n opts w = (Inr tag, w') \<Longrightarrow> rd w = ((b, None), w) \<Longrightarrow>
   mem_store w' = (mem_store w)(k \<mapsto> b) \<and> mem_etag w' = (mem_etag w)(k \<mapsto> unquote tag) \<and>
   (po_MatchETagExcept opts = Some ''*'' \<longrightarrow> mem_store w k = None) \<and>
   (\<forall>t. po_MatchETag opts = Some t \<longrightarrow> mem_etag w k = Some t)"
  by (cases "map_of (mw_objs w) k")
    (auto simp: mem_put_def mem_store_def mem_etag_def update_conv' fun_eq_iff
      split: if_splits option.splits)

lemma mem_put_err:
  "mem_put bkt b k rd n opts w = (Inl e, w') \<Longrightarrow> rd w = ((d, None), w) \<Longrightarrow> w' = w"
  by (auto simp: mem_put_def split: if_splits)

interpretation mem_s3: s3_store "mem_client bkt" bkt mem_store mem_etag pfx
  for bkt pfx
proof (unfold_locales, goal_cases)
  case (10 k rd n opts w tag w' b)
  then show ?case using mem_put_ok [of bkt k rd n opts w tag w' b] by (simp add: mem_client_def)
next
  case (11 k rd n opts w e w' b)
  then show ?case by (auto simp: mem_client_def dest: mem_put_err)
next
  case (12 k rd n opts w e w' b)
  then show ?case by (auto simp: mem_client_def dest: mem_put_err)
qed (auto simp: mem_s3_defs isNotFound_def dec_neq_Nil split: if_splits option.splits)



lemma collectObjects_Inr:
  "collectObjects pfx lp xs out = Inr os \<Longrightarrow>
   \<exists>ms. xs = map Inr ms \<and> map oi_Key os = map oi_Key out @ map (\<lambda>m. relKey pfx (mo_Key m)) ms"
proof (induction pfx lp xs out rule: collectObjects.induct)
  case (3 pfx lp obj xs out)
  then obtain ms where "xs = map Inr ms"
    and "map oi_Key os = map oi_Key out @ relKey pfx (mo_Key obj) # map (\<lambda>m. relKey pfx (mo_Key m)) ms"
    by auto
  then show ?case by (intro exI [of _ "obj # ms"]) simp
qed auto

definition exampleWorld :: memworld where
  "exampleWorld = \<lparr>mf_files = [],
     mw_objs = [(''backups/kopia/p0'', (''abc'', 1)), (''backups/backups/b/velero-backup.json'', (''{}'', 2))],
     mw_ver = 3, mw_puts = []\<rparr>"

definition exampleStore :: "memworld minioStore" where
  "exampleStore = \<lparr>ms_client = mem_client ''velero'', ms_bucket = ''velero'', ms_prefix = ''backups''\<rparr>"


section \<open>Properties\<close>

text \<open>
  C16: over any client that behaves as S3 documents, the store of \<open>minio.go\<close> satisfies the
  contract of the \<open>Store\<close> interface under its prefix: \<open>Stat\<close> reports presence and size,
  \<open>Put\<close> replaces exactly the object at the key, \<open>Open\<close> reads it, and two keys name the same
  object exactly when they agree up to leading slashes.
\<close>

theorem minio_store_refines_contract:
  assumes "s3_client C bkt store etag"
  shows "object_store (minio_Store \<lparr>ms_client = C, ms_bucket = bkt, ms_prefix = pfx\<rparr>) (fullKey pfx)
      (\<lambda>w k. store w (fullKey pfx k))
    \<and> (fullKey pfx k = fullKey pfx k' \<longleftrightarrow> trim_left k ''/'' = trim_left k' ''/'')"
  using s3_store.data_store [of C bkt store etag pfx] assms
  by (simp add: s3_store_def fullKey_eq_iff)

theorem minio_store_refines_contract_witness:
  "object_store (minio_Store \<lparr>ms_client = mem_client ''velero'' :: memworld MinioClient,
      ms_bucket = ''velero'', ms_prefix = ''backups''\<rparr>)
    (fullKey ''backups'') (\<lambda>w k. mem_store w (fullKey ''backups'' k))"
  using minio_store_refines_contract [OF mem_s3.s3_client_axioms] by blast

text \<open>
  C36: keys round-trip between \<open>List\<close> and \<open>Open\<close>: \<open>relKey\<close> inverts \<open>fullKey\<close> up to the
  leading slashes \<open>fullKey\<close> removes, and every key that \<open>List\<close> returns for a prefix that is
  not just slashes resolves to the very bucket key it was made from.
\<close>

theorem listed_keys_reopen:
  assumes "List_minio s p w = (Inr os, w')"
    and "fst (mc_ListObjects (ms_client s) (ms_bucket s) (fullKey (ms_prefix s) p) True w) = map Inr ms"
    and "\<forall>m \<in> set ms. has_prefix (mo_Key m) (fullKey (ms_prefix s) p)"
    and "trim_left p ''/'' \<noteq> ''''"
  shows "relKey (ms_prefix s) (fullKey (ms_prefix s) k) = trim_left k ''/'' \<and>
    map (\<lambda>i. fullKey (ms_prefix s) (oi_Key i)) os = map mo_Key ms"
proof -
  let ?pfx = "ms_prefix s"
  have "collectObjects ?pfx (fullKey ?pfx p) (map Inr ms) [] = Inr os"
    using assms(1,2) by (auto simp: List_minio_def Let_def split: prod.splits)
  then have keys: "map oi_Key os = map (\<lambda>m. relKey ?pfx (mo_Key m)) ms"
    using collectObjects_Inr by (fastforce simp: inj_map_eq_map)
  have "map (\<lambda>i. fullKey ?pfx (oi_Key i)) os = map (fullKey ?pfx) (map oi_Key os)" by simp
  also have "\<dots> = map (\<lambda>m. fullKey ?pfx (relKey ?pfx (mo_Key m))) ms" by (simp add: keys)
  also have "\<dots> = map mo_Key ms"
    using assms(3,4) by (auto intro!: fullKey_relKey_listed)
  finally show ?thesis by (simp add: relKey_fullKey_trim)
qed

theorem listed_keys_reopen_witness:
  "map (\<lambda>i. fullKey ''backups'' (oi_Key i))
     (projr (fst (List_minio exampleStore ''kopia/'' exampleWorld))) = [''backups/kopia/p0'']"
proof -
  let ?m = "mem_obj ''backups/kopia/p0'' (''abc'', 1)"
  have "fst (mc_ListObjects (ms_client exampleStore) (ms_bucket exampleStore)
      (fullKey (ms_prefix exampleStore) ''kopia/'') True exampleWorld) = map Inr [?m]"
    by (simp add: exampleStore_def exampleWorld_def mem_client_def fullKey_def trim_left_def)
  moreover obtain os w' where "List_minio exampleStore ''kopia/'' exampleWorld = (Inr os, w')"
    by (simp add: List_minio_def exampleStore_def exampleWorld_def mem_client_def fullKey_def trim_left_def)
  ultimately have "map (\<lambda>i. fullKey ''backups'' (oi_Key i)) os = map mo_Key [?m]"
    using listed_keys_reopen [of exampleStore "''kopia/''" exampleWorld os w' "[?m]"]
    by (simp add: exampleStore_def fullKey_def trim_left_def mem_obj_def)
  then show ?thesis
    using \<open>List_minio exampleStore ''kopia/'' exampleWorld = (Inr os, w')\<close> by (simp add: mem_obj_def)
qed

text \<open>
  C18: the ledger is updated by compare-and-swap: when the ledger that \<open>GetLedger\<close> read in one
  state is written back with its tag in a later state, the write happens only if the object
  is still absent, or still carries the tag that was read; it stores exactly the new body,
  and a conflict changes nothing.
\<close>

theorem ledger_compare_and_swap:
  assumes "s3_client C bkt store etag"
    and "GetLedger_minio \<lparr>ms_client = C, ms_bucket = bkt, ms_prefix = pfx\<rparr> key w = (Inr (body, tag), w1)"
    and "PutLedger_minio \<lparr>ms_client = C, ms_bucket = bkt, ms_prefix = pfx\<rparr> key body' tag v = (r, v')"
  shows "(\<forall>tag'. r = Inr tag' \<longrightarrow> store v' = (store v)(key \<mapsto> body') \<and>
      (if tag = '''' then store w key = None \<and> store v key = None
       else store w key = Some body \<and> etag w key = Some tag \<and> etag v key = Some tag)) \<and>
    (r = Inl ErrLedgerConflict \<longrightarrow> store v' = store v)"
  using s3_store.GetLedger_ok [of C bkt store etag pfx key w body tag w1]
    s3_store.PutLedger_ok [of C bkt store etag pfx key body' tag v _ v']
    s3_store.PutLedger_conflict [of C bkt store etag pfx key body' tag v v'] assms
  by (auto simp: s3_store_def)

theorem ledger_compare_and_swap_witness:
  "mem_store (snd (PutLedger_minio exampleStore ''snapback/ledger/default.json'' ''{}'' '''' exampleWorld))
     ''snapback/ledger/default.json'' = Some ''{}''"
proof -
  let ?k = "''snapback/ledger/default.json''"
  have get: "GetLedger_minio exampleStore ?k exampleWorld = (Inr ('''', ''''), exampleWorld)"
    by (simp add: GetLedger_minio_def exampleStore_def exampleWorld_def mem_client_def mem_stat_def
        noSuchKey_def isNotFound_def)
  obtain t v where put: "PutLedger_minio exampleStore ?k ''{}'' '''' exampleWorld = (Inr t, v)"
    by (simp add: PutLedger_minio_def exampleStore_def exampleWorld_def mem_client_def mem_put_def
        bytes_reader_def noPutOpts_def Let_def)
  show ?thesis
    using ledger_compare_and_swap [OF mem_s3.s3_client_axioms get [unfolded exampleStore_def]
        put [unfolded exampleStore_def]]
    by (simp add: put [unfolded exampleStore_def] exampleStore_def)
qed

end
