(* ===== verification/Go_Url.thy ===== *)
theory Go_Url
  imports Go_Paths
begin

text \<open>
  \<open>url.Parse\<close> of Go's package \<open>net/url\<close>, as far as the object-store endpoint needs it: the
  scheme and the host of a URL, and whether the URL is accepted at all.
\<close>


section \<open>Percent escapes\<close>

definition ascii_in :: "nat \<Rightarrow> nat \<Rightarrow> char \<Rightarrow> bool" where
  "ascii_in lo hi c \<longleftrightarrow> (let n = of_char c in lo \<le> n \<and> n \<le> hi)"

definition is_alpha :: "char \<Rightarrow> bool" where
  "is_alpha c \<longleftrightarrow> ascii_in 65 90 c \<or> ascii_in 97 122 c"

definition unhex :: "char \<Rightarrow> nat option" where
  "unhex c =
     (if ascii_in 48 57 c then Some (of_char c - 48)
      else if ascii_in 97 102 c then Some (of_char c - 87)
      else if ascii_in 65 70 c then Some (of_char c - 55)
      else None)"

text \<open>The characters that \<open>shouldEscape\<close> lets through in a host.\<close>

definition host_char :: "char \<Rightarrow> bool" where
  "host_char c \<longleftrightarrow> is_alpha c \<or> ascii_in 48 57 c \<or> c \<in> set ''!$&()*+,;=:[]<>-_.~'' \<or> c = CHR 0x22 \<or> c = CHR 0x27"

datatype escape_mode = encodeHost | encodeZone | encodeOther

fun unescape :: "escape_mode \<Rightarrow> string \<Rightarrow> string option" where
  "unescape m [] = Some []"
| "unescape m (c # s) =
     (if c = CHR ''%'' then
        (case s of a # b # r \<Rightarrow>
           (case (unhex a, unhex b) of
              (Some x, Some y) \<Rightarrow>
                if m = encodeHost \<and> x < 8 \<and> [a, b] \<noteq> ''25'' then None
                else if m = encodeZone \<and> [a, b] \<noteq> ''25'' \<and> 16 * x + y \<noteq> 32 \<and> \<not> host_char (byte (16 * x + y)) then None
                else map_option (Cons (byte (16 * x + y))) (unescape m r)
            | _ \<Rightarrow> None)
         | _ \<Rightarrow> None)
      else if m \<noteq> encodeOther \<and> of_char c < (128 :: nat) \<and> \<not> host_char c then None
      else map_option (Cons c) (unescape m s))"


section \<open>Authority\<close>

definition validOptionalPort :: "string \<Rightarrow> bool" where
  "validOptionalPort port \<longleftrightarrow> port = '''' \<or> hd port = CHR '':'' \<and> list_all is_digit (tl port)"

text \<open>Splitting at the last occurrence of a character.\<close>

definition cut_last :: "char \<Rightarrow> string \<Rightarrow> (string \<times> string) option" where
  "cut_last c s = (if c \<notin> set s then None
     else Some (rev (tl (dropWhile (\<lambda>x. x \<noteq> c) (rev s))), rev (takeWhile (\<lambda>x. x \<noteq> c) (rev s))))"

fun index_of :: "string \<Rightarrow> string \<Rightarrow> nat option" where
  "index_of [] sub = (if sub = [] then Some 0 else None)"
| "index_of (a # s) sub = (if has_prefix (a # s) sub then Some 0 else map_option Suc (index_of s sub))"

definition parseHost :: "string \<Rightarrow> string option" where
  "parseHost host =
     (if has_prefix host ''['' then
        (case cut_last (CHR '']'') host of
           None \<Rightarrow> None
         | Some (pre, post) \<Rightarrow>
             if \<not> validOptionalPort post then None
             else case index_of pre ''%25'' of
                 Some z \<Rightarrow>
                   (case (unescape encodeHost (take z host), unescape encodeZone (drop z pre),
                          unescape encodeHost (drop (length pre) host)) of
                      (Some a, Some b, Some c) \<Rightarrow> Some (a @ b @ c)
                    | _ \<Rightarrow> None)
               | None \<Rightarrow> unescape encodeHost host)
      else case cut_last (CHR '':'') host of
          Some (pre, post) \<Rightarrow>
            if \<not> validOptionalPort (CHR '':'' # post) then None else unescape encodeHost host
        | None \<Rightarrow> unescape encodeHost host)"

definition validUserinfo :: "string \<Rightarrow> bool" where
  "validUserinfo s \<longleftrightarrow>
     list_all (\<lambda>c. is_alpha c \<or> ascii_in 48 57 c \<or> c \<in> set ''-._:~!$&()*+,;=%@'' \<or> c = CHR 0x27) s"

definition parseAuthority :: "string \<Rightarrow> string option" where
  "parseAuthority authority =
     (case cut_last (CHR ''@'') authority of
        None \<Rightarrow> parseHost authority
      | Some (userinfo, host) \<Rightarrow>
          (case parseHost host of None \<Rightarrow> None | Some h \<Rightarrow>
             if \<not> validUserinfo userinfo then None
             else case cut (CHR '':'') userinfo of (user, pass, _) \<Rightarrow>
               if unescape encodeOther user = None \<or> unescape encodeOther pass = None then None else Some h))"


section \<open>Parse\<close>

text \<open>The scheme and the rest, or an error.\<close>

fun scheme_go :: "string \<Rightarrow> string \<Rightarrow> string \<Rightarrow> (string \<times> string) option" where
  "scheme_go raw acc [] = Some ('''', raw)"
| "scheme_go raw acc (c # s) =
     (if is_alpha c then scheme_go raw (acc @ [c]) s
      else if ascii_in 48 57 c \<or> c \<in> set ''+-.'' then
        (if acc = [] then Some ('''', raw) else scheme_go raw (acc @ [c]) s)
      else if c = CHR '':'' then (if acc = [] then None else Some (acc, s))
      else Some ('''', raw))"

record URL =
  url_Scheme :: string
  url_Host :: string

definition url_parse :: "string \<Rightarrow> URL option" where
  "url_parse raw =
     (case cut (CHR ''#'') raw of (u, frag, _) \<Rightarrow>
        if list_ex (\<lambda>c. of_char c < (32 :: nat) \<or> of_char c = (127 :: nat)) u then None
        else if u = ''*'' then (if unescape encodeOther frag = None then None else Some \<lparr>url_Scheme = '''', url_Host = ''''\<rparr>)
        else case scheme_go u '''' u of
            None \<Rightarrow> None
          | Some (sch, rest0) \<Rightarrow>
              (let scheme = map ascii_lower sch;
                   rest = fst (cut (CHR ''?'') rest0)
               in if \<not> has_prefix rest ''/'' \<and> scheme \<noteq> '''' then
                    (if unescape encodeOther frag = None then None else Some \<lparr>url_Scheme = scheme, url_Host = ''''\<rparr>)
                  else if \<not> has_prefix rest ''/'' \<and> CHR '':'' \<in> set (fst (cut slash rest)) then None
                  else case
                    (if (scheme \<noteq> '''' \<or> \<not> has_prefix rest ''///'') \<and> has_prefix rest ''//''
                     then (let authority = takeWhile (\<lambda>c. c \<noteq> slash) (drop 2 rest)
                           in map_option (\<lambda>h. (h, drop (2 + length authority) rest)) (parseAuthority authority))
                     else Some ('''', rest)) of
                      None \<Rightarrow> None
                    | Some (host, path) \<Rightarrow>
                        if unescape encodeOther path = None \<or> unescape encodeOther frag = None then None
                        else Some \<lparr>url_Scheme = scheme, url_Host = host\<rparr>))"


section \<open>Plain hosts\<close>

text \<open>
  A host name of letters, digits, hyphens and dots with an optional port, and a path without
  percent signs, query or fragment.
\<close>

definition plain_host :: "string \<Rightarrow> bool" where
  "plain_host h \<longleftrightarrow> (case cut (CHR '':'') h of (name, port, _) \<Rightarrow>
     name \<noteq> '''' \<and> list_all (\<lambda>c. is_alpha c \<or> ascii_in 48 57 c \<or> c \<in> set ''-.'') name \<and> list_all is_digit port)"

definition plain_tail :: "string \<Rightarrow> bool" where
  "plain_tail t \<longleftrightarrow> t = '''' \<or> hd t = slash \<and>
     list_all (\<lambda>c. is_alpha c \<or> ascii_in 48 57 c \<or> c \<in> set ''-./'') t"


definition url_plain :: "char \<Rightarrow> bool" where
  "url_plain c \<longleftrightarrow> is_alpha c \<or> ascii_in 48 57 c \<or> c = CHR ''-'' \<or> c = CHR ''.'' \<or> c = CHR '':'' \<or> c = slash"

lemma url_plain_not [simp]:
  "\<not> url_plain (CHR ''#'')" "\<not> url_plain (CHR ''?'')" "\<not> url_plain (CHR ''%'')" "\<not> url_plain (CHR ''@'')"
  "\<not> url_plain (CHR ''['')"
  by (simp_all add: url_plain_def is_alpha_def ascii_in_def)

lemma url_plain_printable: "url_plain c \<Longrightarrow> \<not> of_char c < (32 :: nat) \<and> of_char c \<noteq> (127 :: nat)"
  by (auto simp: url_plain_def is_alpha_def ascii_in_def)

lemma url_plain_host: "url_plain c \<Longrightarrow> c \<noteq> slash \<Longrightarrow> host_char c"
  by (auto simp: url_plain_def host_char_def)

lemma plain_not_member: "list_all url_plain s \<Longrightarrow> \<not> url_plain c \<Longrightarrow> c \<notin> set s"
  by (auto simp: list_all_iff)

lemma cut_none: "c \<notin> set s \<Longrightarrow> cut c s = (s, [], False)"
proof -
  assume "c \<notin> set s"
  then have "dropWhile (\<lambda>x. x \<noteq> c) s = []" by (auto simp: dropWhile_eq_Nil_conv)
  then show ?thesis by (simp only: cut_def list.case)
qed

lemma unescape_plain:
  "CHR ''%'' \<notin> set s \<Longrightarrow> m = encodeOther \<or> list_all host_char s \<Longrightarrow> unescape m s = Some s"
  by (induction s) auto

lemma cut_join: "cut c s = (a, b, True) \<Longrightarrow> s = a @ c # b \<and> c \<notin> set a"
proof -
  assume "cut c s = (a, b, True)"
  then obtain x where "dropWhile (\<lambda>x. x \<noteq> c) s = x # b" "a = takeWhile (\<lambda>x. x \<noteq> c) s"
    by (auto simp: cut_def split: list.splits)
  moreover from this have "x = c" using hd_dropWhile [of "\<lambda>x. x \<noteq> c" s] by simp
  ultimately show ?thesis
    using takeWhile_dropWhile_id [of "\<lambda>x. x \<noteq> c" s] set_takeWhileD by fastforce
qed

lemma cut_False: "cut c s = (a, b, False) \<Longrightarrow> a = s \<and> b = [] \<and> c \<notin> set s"
  by (auto simp: cut_def dropWhile_eq_Nil_conv split: list.splits)

lemma cut_last_append: "c \<notin> set b \<Longrightarrow> cut_last c (a @ c # b) = Some (a, b)"
proof -
  assume "c \<notin> set b"
  then have "\<forall>x \<in> set (rev b). x \<noteq> c" by auto
  then show ?thesis
    by (simp add: cut_last_def takeWhile_append_stop dropWhile_append_stop)
qed

lemma plain_hostE:
  assumes "plain_host h"
  obtains name port where "h = name \<or> h = name @ CHR '':'' # port" "name \<noteq> []" "CHR '':'' \<notin> set name"
    "list_all (\<lambda>c. is_alpha c \<or> ascii_in 48 57 c \<or> c \<in> set ''-.'') name" "list_all is_digit port"
proof -
  obtain name port b where c: "cut (CHR '':'') h = (name, port, b)" by (metis prod_cases3)
  have "(h = name \<or> h = name @ CHR '':'' # port) \<and> CHR '':'' \<notin> set name"
    using cut_join [of _ h name port] cut_False [of _ h name port] c by (cases b) auto
  then show ?thesis using that assms c by (auto simp: plain_host_def)
qed

lemma digit_plain: "is_digit c \<Longrightarrow> url_plain c \<and> c \<noteq> slash \<and> c \<noteq> CHR '':''"
  by (auto simp: is_digit_def url_plain_def ascii_in_def)

lemma name_plain:
  "is_alpha c \<or> ascii_in 48 57 c \<or> c \<in> set ''-.'' \<Longrightarrow> url_plain c \<and> c \<noteq> slash"
  by (auto simp: url_plain_def is_alpha_def ascii_in_def)

lemma plain_host_chars:
  assumes "plain_host h"
  shows "list_all url_plain h" "slash \<notin> set h" "h \<noteq> []"
proof -
  obtain name port where h: "h = name \<or> h = name @ CHR '':'' # port" "name \<noteq> []"
    "list_all (\<lambda>c. is_alpha c \<or> ascii_in 48 57 c \<or> c \<in> set ''-.'') name" "list_all is_digit port"
    using assms by (rule plain_hostE)
  have "\<forall>c \<in> set name. url_plain c \<and> c \<noteq> slash"
    using h(3) name_plain unfolding list_all_iff by blast
  moreover have "\<forall>c \<in> set port. url_plain c \<and> c \<noteq> slash"
    using h(4) digit_plain unfolding list_all_iff by blast
  moreover have "url_plain (CHR '':'')" "CHR '':'' \<noteq> slash" by (simp_all add: url_plain_def)
  moreover have "set h \<subseteq> set name \<union> {CHR '':''} \<union> set port" using h(1) by auto
  ultimately have all: "\<forall>c \<in> set h. url_plain c \<and> c \<noteq> slash" by blast
  then show "list_all url_plain h" "slash \<notin> set h" unfolding list_all_iff by blast+
  show "h \<noteq> []" using h(1,2) by blast
qed

lemma parseHost_plain:
  assumes "plain_host h"
  shows "parseHost h = Some h"
proof -
  note h = plain_host_chars [OF assms]
  have "\<not> has_prefix h ''[''"
    using plain_not_member [OF h(1), of "CHR ''[''"] by (cases h) auto
  moreover have un: "unescape encodeHost h = Some h"
  proof (rule unescape_plain)
    show "CHR ''%'' \<notin> set h" by (rule plain_not_member [OF h(1)]) simp
    show "encodeHost = encodeOther \<or> list_all host_char h"
      using h(1,2) url_plain_host unfolding list_all_iff by blast
  qed
  moreover have "case cut_last (CHR '':'') h of None \<Rightarrow> True | Some (pre, post) \<Rightarrow> validOptionalPort (CHR '':'' # post)"
    using assms
  proof (rule plain_hostE)
    fix name port
    assume *: "h = name \<or> h = name @ CHR '':'' # port" "CHR '':'' \<notin> set name" "list_all is_digit port"
    moreover from this have "CHR '':'' \<notin> set port" using digit_plain by (auto simp: list_all_iff)
    ultimately show ?thesis
      by (auto simp: cut_last_append validOptionalPort_def) (simp add: cut_last_def)
  qed
  ultimately show ?thesis by (auto simp: parseHost_def split: option.splits prod.splits)
qed

lemma plain_tail_chars: "plain_tail t \<Longrightarrow> list_all url_plain t"
  by (auto simp: plain_tail_def list_all_iff url_plain_def)

lemma takeWhile_host:
  assumes "plain_host h" and "plain_tail t"
  shows "takeWhile (\<lambda>c. c \<noteq> slash) (h @ t) = h"
proof -
  have "\<forall>c \<in> set h. c \<noteq> slash" using plain_host_chars(2) [OF assms(1)] by auto
  then show ?thesis using assms(2) by (cases t) (auto simp: plain_tail_def takeWhile_append takeWhile_eq_all_conv)
qed

lemma url_parse_plain:
  assumes "plain_host h" and "plain_tail t" and "scheme = ''http'' \<or> scheme = ''https''"
  shows "url_parse (scheme @ ''://'' @ h @ t) = Some \<lparr>url_Scheme = scheme, url_Host = h\<rparr>"
proof -
  let ?rest = "''//'' @ h @ t"
  let ?raw = "scheme @ CHR '':'' # ?rest"
  have plain: "list_all url_plain ?rest"
    using plain_host_chars(1) [OF assms(1)] plain_tail_chars [OF assms(2)] by (simp add: url_plain_def)
  moreover have "list_all url_plain scheme" using assms(3) by (auto simp: url_plain_def is_alpha_def ascii_in_def)
  ultimately have raw: "list_all url_plain ?raw" by (simp add: url_plain_def)
  have frag: "cut (CHR ''#'') ?raw = (?raw, '''', False)"
    using plain_not_member [OF raw] by (intro cut_none) simp
  have query: "cut (CHR ''?'') ?rest = (?rest, '''', False)"
    using plain_not_member [OF plain] by (intro cut_none) simp
  have ctl: "\<not> list_ex (\<lambda>c. of_char c < (32 :: nat) \<or> of_char c = (127 :: nat)) ?raw"
    using raw url_plain_printable by (auto simp: list_ex_iff list_all_iff)
  have sch: "scheme_go ?raw '''' ?raw = Some (scheme, ?rest)" "map ascii_lower scheme = scheme" "?raw \<noteq> ''*''"
    using assms(3) by (auto simp: is_alpha_def ascii_in_def ascii_lower_def)
  have host: "parseAuthority h = Some h"
    using plain_not_member [OF plain_host_chars(1) [OF assms(1)], of "CHR ''@''"] parseHost_plain [OF assms(1)]
    by (simp add: parseAuthority_def cut_last_def)
  have path: "unescape encodeOther t = Some t"
    using plain_not_member [OF plain_tail_chars [OF assms(2)], of "CHR ''%''"] by (intro unescape_plain) simp_all
  have "scheme \<noteq> ''''" using assms(3) by auto
  then have "url_parse ?raw = Some \<lparr>url_Scheme = scheme, url_Host = h\<rparr>"
    unfolding url_parse_def frag
    using ctl sch query takeWhile_host [OF assms(1,2)] host path
    by (simp add: Let_def)
  then show ?thesis by simp
qed

end
