(* ===== verification/Objstore_New.thy ===== *)
theory Objstore_New
  imports Minio_Store Go_Url
begin

text \<open>
  Construction of the minio-backed store (\<open>New\<close> and \<open>normalizeEndpoint\<close> of
  \<open>src/src/internal/objstore/minio.go\<close>). The minio SDK, its transport and the certificate
  pool are parameters.
\<close>


section \<open>Model\<close>

text \<open>\<open>mopt_TLS\<close> is the TLS configuration of a custom transport: verification skipped, and the CA bundle.\<close>

record MinioOptions =
  mopt_Creds :: "string \<times> string \<times> string"
  mopt_Secure :: bool
  mopt_Region :: string
  mopt_PathLookup :: bool
  mopt_TLS :: "(bool \<times> bytes option) option"

record 'w MinioSDK =
  sdk_DefaultTransport :: "goerr option"
  sdk_AppendCertsFromPEM :: "bytes \<Rightarrow> bool"
  sdk_New :: "string \<Rightarrow> MinioOptions \<Rightarrow> 'w MinioClient result"

definition normalizeEndpoint :: "string \<Rightarrow> string \<times> bool" where
  "normalizeEndpoint raw =
     (if raw = '''' then ('''', False)
      else case (if contains_str raw ''://'' then url_parse raw else None) of
          Some u \<Rightarrow> if url_Host u \<noteq> '''' then (url_Host u, url_Scheme u = ''https'')
            else (trim_right raw ''/'', False)
        | None \<Rightarrow> (trim_right raw ''/'', False))"

definition tlsOptions :: "'w MinioSDK \<Rightarrow> Config \<Rightarrow> bool \<Rightarrow> (bool \<times> bytes option) option result" where
  "tlsOptions sdk cfg secure =
     (if secure \<and> (cfg_InsecureTLS cfg \<or> cfg_CABundle cfg \<noteq> []) then
        (case sdk_DefaultTransport sdk of
           Some e \<Rightarrow> Inl (Wrapf ''objstore: build transport'' [] e)
         | None \<Rightarrow>
             if cfg_CABundle cfg \<noteq> [] then
               (if \<not> sdk_AppendCertsFromPEM sdk (cfg_CABundle cfg)
                then Inl (Errorf ''objstore: CABundle contained no valid certificates'' [])
                else Inr (Some (cfg_InsecureTLS cfg, Some (cfg_CABundle cfg))))
             else Inr (Some (cfg_InsecureTLS cfg, None)))
      else Inr None)"

definition NewStore :: "'w MinioSDK \<Rightarrow> Config \<Rightarrow> 'w minioStore result" where
  "NewStore sdk cfg =
     (case normalizeEndpoint (cfg_Endpoint cfg) of (endpoint, secure) \<Rightarrow>
        if endpoint = '''' then Inl (Errorf ''objstore: empty endpoint (BSL config.s3Url is not set)'' [])
        else if cfg_Bucket cfg = '''' then Inl (Errorf ''objstore: empty bucket'' [])
        else case tlsOptions sdk cfg secure of
            Inl e \<Rightarrow> Inl e
          | Inr tls \<Rightarrow>
              (case sdk_New sdk endpoint
                 \<lparr>mopt_Creds = (cfg_AccessKeyID cfg, cfg_SecretAccessKey cfg, cfg_SessionToken cfg),
                  mopt_Secure = secure, mopt_Region = cfg_Region cfg,
                  mopt_PathLookup = cfg_ForcePathStyle cfg, mopt_TLS = tls\<rparr> of
                 Inl e \<Rightarrow> Inl (Wrapf ''objstore: init minio client'' [] e)
               | Inr client \<Rightarrow> Inr \<lparr>ms_client = client, ms_bucket = cfg_Bucket cfg,
                   ms_prefix = trim (cfg_Prefix cfg) ''/''\<rparr>))"


section \<open>Endpoints\<close>

lemma contains_str_middle: "contains_str (a @ b @ c) b"
proof (induction a)
  case Nil
  have "has_prefix (b @ c) b" by simp
  then show ?case by (cases "b @ c") auto
qed simp

lemma plain_host_no_scheme:
  assumes "plain_host h"
  shows "\<not> contains_str h ''://''"
proof -
  have "contains_str s ''://'' \<Longrightarrow> slash \<in> set s" for s
  proof (induction s)
    case (Cons a s)
    then show ?case by (auto simp: has_prefix_iff)
  qed simp
  then show ?thesis using plain_host_chars(2) [OF assms] by blast
qed

lemma normalize_plain:
  assumes "plain_host h" and "plain_tail t"
  shows "normalizeEndpoint (''http://'' @ h @ t) = (h, False)"
    "normalizeEndpoint (''https://'' @ h @ t) = (h, True)"
    "normalizeEndpoint h = (h, False)"
proof -
  have "contains_str (''http'' @ ''://'' @ h @ t) ''://''" "contains_str (''https'' @ ''://'' @ h @ t) ''://''"
    by (rule contains_str_middle)+
  then show "normalizeEndpoint (''http://'' @ h @ t) = (h, False)"
    "normalizeEndpoint (''https://'' @ h @ t) = (h, True)"
    using url_parse_plain [OF assms, of "''http''"] url_parse_plain [OF assms, of "''https''"]
      plain_host_chars(3) [OF assms(1)]
    by (simp_all add: normalizeEndpoint_def)
  have "last h \<noteq> slash" using plain_host_chars [OF assms(1)] last_in_set [of h] by metis
  then have "trim_right h ''/'' = h"
    using plain_host_chars [OF assms(1)] by (intro trim_right_no) simp_all
  then show "normalizeEndpoint h = (h, False)"
    using plain_host_no_scheme [OF assms(1)] plain_host_chars(3) [OF assms(1)]
    by (simp add: normalizeEndpoint_def)
qed


section \<open>Properties\<close>

text \<open>
  Endpoints are normalised as the storage location writes them: a URL with a host of
  letters, digits, hyphens and dots, an optional port and any plain path gives the host with
  its port, secure exactly for \<open>https\<close>; a bare host is taken as plaintext.
\<close>

theorem normalize_endpoint_hosts:
  assumes "plain_host h" and "plain_tail t"
  shows "normalizeEndpoint (''http://'' @ h @ t) = (h, False) \<and>
    normalizeEndpoint (''https://'' @ h @ t) = (h, True) \<and> normalizeEndpoint h = (h, False)"
  using normalize_plain [OF assms] by blast

theorem normalize_endpoint_hosts_witness:
  "normalizeEndpoint ''https://minio.velero.svc:9000/'' = (''minio.velero.svc:9000'', True)"
proof -
  have "plain_host ''minio.velero.svc:9000''" "plain_tail ''/''" by code_simp+
  then show ?thesis using normalize_endpoint_hosts [of "''minio.velero.svc:9000''" "''/''"] by simp
qed

text \<open>
  A store is built only from a configuration with an endpoint and a bucket, its client
  talks to the normalised endpoint with the configured credentials, certificate verification
  is skipped only when the configuration says so, and its key prefix has no slash at either
  end. Without a custom CA bundle or the insecure flag no custom transport is used.
\<close>

theorem new_store_configuration:
  assumes "NewStore sdk cfg = Inr s"
  shows "\<exists>endpoint secure opts. normalizeEndpoint (cfg_Endpoint cfg) = (endpoint, secure) \<and> endpoint \<noteq> '''' \<and>
    sdk_New sdk endpoint opts = Inr (ms_client s) \<and> mopt_Secure opts = secure \<and>
    mopt_Creds opts = (cfg_AccessKeyID cfg, cfg_SecretAccessKey cfg, cfg_SessionToken cfg) \<and>
    (\<forall>skip ca. mopt_TLS opts = Some (skip, ca) \<longrightarrow> secure \<and> skip = cfg_InsecureTLS cfg) \<and>
    (mopt_TLS opts = None \<longleftrightarrow> \<not> secure \<or> \<not> cfg_InsecureTLS cfg \<and> cfg_CABundle cfg = []) \<and>
    ms_bucket s = cfg_Bucket cfg \<and> ms_bucket s \<noteq> '''' \<and>
    (ms_prefix s \<noteq> '''' \<longrightarrow> hd (ms_prefix s) \<noteq> slash \<and> last (ms_prefix s) \<noteq> slash)"
proof -
  obtain endpoint secure tls where e: "normalizeEndpoint (cfg_Endpoint cfg) = (endpoint, secure)"
    "endpoint \<noteq> ''''" "cfg_Bucket cfg \<noteq> ''''" "tlsOptions sdk cfg secure = Inr tls"
    using assms by (auto simp: NewStore_def split: prod.splits if_splits sum.splits)
  have "tls = None \<or> secure \<and> (\<exists>ca. tls = Some (cfg_InsecureTLS cfg, ca))"
    "tls = None \<longleftrightarrow> \<not> secure \<or> \<not> cfg_InsecureTLS cfg \<and> cfg_CABundle cfg = []"
    using e(4) by (auto simp: tlsOptions_def split: if_splits option.splits)
  then show ?thesis
    using assms e trim_ends [of "cfg_Prefix cfg" "''/''"]
    by (auto simp: NewStore_def split: sum.splits)
qed

definition exampleSDK :: "memworld MinioSDK" where
  "exampleSDK = \<lparr>sdk_DefaultTransport = None, sdk_AppendCertsFromPEM = (\<lambda>_. True),
     sdk_New = (\<lambda>endpoint opts. Inr (mem_client ''velero''))\<rparr>"

definition exampleConfig :: Config where
  "exampleConfig = zeroConfig\<lparr>cfg_Endpoint := ''https://minio.svc:9000'', cfg_Bucket := ''velero'',
     cfg_Prefix := ''/backups/''\<rparr>"

lemma exampleConfig_store: "NewStore exampleSDK exampleConfig = Inr exampleStore"
proof -
  have "normalizeEndpoint ''https://minio.svc:9000'' = (''minio.svc:9000'', True)"
    "trim ''/backups/'' ''/'' = ''backups''" by code_simp+
  then show ?thesis
    by (simp add: NewStore_def tlsOptions_def exampleSDK_def exampleConfig_def exampleStore_def zeroConfig_def)
qed

theorem new_store_configuration_witness:
  "ms_bucket exampleStore \<noteq> '''' \<and> hd (ms_prefix exampleStore) \<noteq> slash"
  using new_store_configuration [OF exampleConfig_store] by (auto simp: exampleStore_def)

end
