(* ===== verification/Peat_Types.thy ===== *)
theory Peat_Types
  imports Go_Strings
begin

text \<open>
  The data types of the peat client seam (\<open>src/src/internal/peat/client.go\<close>): priorities,
  distribution states, the file descriptions handed to \<open>SendAttachments\<close>, its handles and
  results, and the progress reports of \<open>GetDistribution\<close>.
\<close>

datatype Priority =
  PriorityBulk | PriorityLow | PriorityRoutine | PriorityPriority | PriorityCritical

datatype DistributionStatus =
  StatusPending | StatusInProgress | StatusCompleted | StatusFailed | StatusCancelled

fun Terminal :: "DistributionStatus \<Rightarrow> bool" where
  "Terminal StatusCompleted = True"
| "Terminal StatusFailed = True"
| "Terminal StatusCancelled = True"
| "Terminal _ = False"

record FileSpec =
  fs_RootName :: string
  fs_RelativePath :: string
  fs_Size :: u64
  fs_SHA256 :: bytes
  fs_ContentType :: string
  fs_DisplayName :: string

record Scope =
  sc_AllNodes :: bool
  sc_NodeIDs :: "string list"

record AttachmentHandle =
  ah_FileIndex :: u32
  ah_BlobToken :: string
  ah_DistributionID :: string

record SendResult =
  sr_BundleID :: string
  sr_Handles :: "AttachmentHandle list"

record Progress =
  pr_DistributionID :: string
  pr_Status :: DistributionStatus
  pr_BytesTransferred :: u64
  pr_BytesTotal :: u64
  pr_Err :: string

record NodeStatus =
  ns_NodeID :: string
  ns_EndpointAddr :: string
  ns_SyncActive :: bool
  ns_ConnectedPeers :: u32
  ns_Phase :: string

end
