(* ===== verification/Go_Json.thy ===== *)
theory Go_Json
  imports Go_Strings "HOL-Library.Char_ord" "HOL-Library.List_Lexorder" "HOL-Library.Multiset"
begin

text \<open>
  Go's package \<open>encoding/json\<close>, as far as Snapback uses it: the compact printer with its
  escaping of HTML characters and of bytes that are not UTF-8, the parser with its depth
  limit, and decoding into structs, slices, maps and scalars with case-insensitive field
  names, unknown fields ignored, \<open>null\<close> leaving a value alone and the first type error
  reported after the rest has been decoded. The central fact is that the parser inverts the
  printer.
\<close>


section \<open>UTF-8\<close>

definition char_in :: "nat \<Rightarrow> nat \<Rightarrow> char \<Rightarrow> bool" where
  "char_in lo hi c \<longleftrightarrow> (let n = of_char c in lo \<le> n \<and> n \<le> hi)"

text \<open>
  The length of the encoding of a code point at the start of a string, or zero if there is
  none (\<open>utf8.DecodeRune\<close>): the first byte gives the length and the range of the second byte.
\<close>

definition lead_len :: "char \<Rightarrow> nat" where
  "lead_len a =
     (if char_in 0x00 0x7F a then 1 else if char_in 0xC2 0xDF a then 2
      else if char_in 0xE0 0xEF a then 3 else if char_in 0xF0 0xF4 a then 4 else 0)"

definition second_ok :: "char \<Rightarrow> char \<Rightarrow> bool" where
  "second_ok a b \<longleftrightarrow>
     char_in (if char_in 0xE0 0xE0 a then 0xA0 else if char_in 0xF0 0xF0 a then 0x90 else 0x80)
       (if char_in 0xED 0xED a then 0x9F else if char_in 0xF4 0xF4 a then 0x8F else 0xBF) b"

definition utf8_len :: "string \<Rightarrow> nat" where
  "utf8_len s = (case s of [] \<Rightarrow> 0 | a # r \<Rightarrow>
     (let k = lead_len a
      in if k \<le> 1 then k
         else if length r < k - 1 then 0
         else if second_ok a (hd r) \<and> list_all (char_in 0x80 0xBF) (take (k - 2) (tl r)) then k
         else 0))"

text \<open>The encoding of a code point (\<open>utf8.AppendRune\<close>).\<close>

definition utf8_encode :: "nat \<Rightarrow> string" where
  "utf8_encode n =
     (if n < 0x80 then [byte n]
      else if n < 0x800 then [byte (0xC0 + n div 64), byte (0x80 + n mod 64)]
      else if n < 0x10000 then
        [byte (0xE0 + n div 4096), byte (0x80 + n div 64 mod 64), byte (0x80 + n mod 64)]
      else [byte (0xF0 + n div 262144), byte (0x80 + n div 4096 mod 64),
        byte (0x80 + n div 64 mod 64), byte (0x80 + n mod 64)])"

abbreviation replacement :: string where
  "replacement \<equiv> [CHR 0xEF, CHR 0xBF, CHR 0xBD]"

function valid_utf8 :: "string \<Rightarrow> bool" where
  "valid_utf8 [] = True"
| "valid_utf8 (a # s) =
     (if utf8_len (a # s) = 0 then False else valid_utf8 (drop (utf8_len (a # s) - 1) s))"
  by pat_completeness auto
termination by (relation "measure length") auto

lemma utf8_len_le: "utf8_len s \<le> length s"
  by (auto simp: utf8_len_def Let_def split: list.split)

lemma utf8_len_append:
  assumes "utf8_len s \<noteq> 0"
  shows "utf8_len (s @ t) = utf8_len s"
proof -
  obtain a r where s: "s = a # r" using assms by (cases s) (auto simp: utf8_len_def)
  show ?thesis
  proof (cases "lead_len a \<le> 1")
    case False
    then have len: "lead_len a - 1 \<le> length r" using assms s by (auto simp: utf8_len_def Let_def split: if_splits)
    then have "r \<noteq> []" "lead_len a - 2 \<le> length (tl r)" using False by auto
    then show ?thesis using s False len by (simp add: utf8_len_def Let_def)
  qed (simp add: s utf8_len_def Let_def)
qed

lemma utf8_len_take: "utf8_len (take (utf8_len s) s) = utf8_len s"
proof (cases "utf8_len s = 0")
  case False
  then obtain a r where s: "s = a # r" by (cases s) (auto simp: utf8_len_def)
  show ?thesis
  proof (cases "lead_len a \<le> 1")
    case True
    then have "utf8_len s = Suc 0" using False s by (simp add: utf8_len_def Let_def)
    then show ?thesis using s True False by (simp add: utf8_len_def Let_def)
  next
    case big: False
    then have k: "utf8_len s = lead_len a" "lead_len a - 1 \<le> length r" "second_ok a (hd r)"
      "list_all (char_in 0x80 0xBF) (take (lead_len a - 2) (tl r))"
      using False s by (auto simp: utf8_len_def Let_def split: if_splits)
    then obtain b r' where r: "r = b # r'" using big by (cases r) auto
    obtain m where m: "lead_len a = Suc (Suc m)" using big by (cases "lead_len a"; cases "lead_len a - 1") auto
    show ?thesis using k s r m by (simp add: utf8_len_def Let_def)
  qed
qed (simp add: utf8_len_def)

lemma valid_utf8_append: "valid_utf8 s \<Longrightarrow> valid_utf8 t \<Longrightarrow> valid_utf8 (s @ t)"
proof (induction s rule: valid_utf8.induct)
  case (2 a s)
  have k: "utf8_len (a # s) \<noteq> 0" "valid_utf8 (drop (utf8_len (a # s) - 1) s)"
    using "2.prems"(1) by (auto split: if_splits)
  moreover have "utf8_len (a # s @ t) = utf8_len (a # s)" using utf8_len_append [OF k(1), of t] by simp
  moreover have "utf8_len (a # s) - 1 \<le> length s" using utf8_len_le [of "a # s"] by simp
  ultimately show ?case using "2.IH" "2.prems"(2) by simp
qed simp

lemma utf8_len_ascii [simp]: "of_char a < (128 :: nat) \<Longrightarrow> utf8_len (a # s) = 1"
  by (simp add: utf8_len_def lead_len_def char_in_def)

lemma ascii_utf8: "list_all (char_in 0 127) s \<Longrightarrow> valid_utf8 s"
  by (induction s) (simp_all add: char_in_def)

lemma dec_utf8 [simp]: "valid_utf8 (dec n)" "valid_utf8 (dec04 n)"
proof -
  have "is_digit c \<Longrightarrow> char_in 0 127 c" for c by (simp add: is_digit_def char_in_def Let_def)
  then show "valid_utf8 (dec n)" "valid_utf8 (dec04 n)"
    using dec_digits dec04_digits by (auto intro!: ascii_utf8 simp: list_all_iff)
qed

lemma hex_encode_utf8 [simp]: "valid_utf8 (hex_encode b)"
proof (rule ascii_utf8)
  have "n < 16 \<Longrightarrow> char_in 0 127 (hex_digit n)" for n by (simp add: hex_digit_def char_in_def)
  then show "list_all (char_in 0 127) (hex_encode b)"
    by (induction b) (simp_all add: hex_encode_def Let_def div_less_iff_less_mult)
qed


section \<open>Values and their printed form\<close>

text \<open>A number is kept as its literal.\<close>

datatype json =
    JNull
  | JBool bool
  | JNum string
  | JStr string
  | JArr "json list"
  | JObj "(string \<times> json) list"

abbreviation quote_char :: char where "quote_char \<equiv> CHR 0x22"
abbreviation backslash :: char where "backslash \<equiv> CHR 0x5C"

definition u_escape :: "nat \<Rightarrow> string" where
  "u_escape n = [backslash, CHR ''u'', hex_digit (n div 4096), hex_digit (n div 256 mod 16),
     hex_digit (n div 16 mod 16), hex_digit (n mod 16)]"

definition escape_chunk :: "string \<Rightarrow> string" where
  "escape_chunk c =
     (if c = [quote_char] \<or> c = [backslash] then backslash # c
      else if c = [CHR 0x08] then [backslash, CHR ''b'']
      else if c = [CHR 0x0C] then [backslash, CHR ''f'']
      else if c = [CHR 0x0A] then [backslash, CHR ''n'']
      else if c = [CHR 0x0D] then [backslash, CHR ''r'']
      else if c = [CHR 0x09] then [backslash, CHR ''t'']
      else if (case c of [a] \<Rightarrow> char_in 0x00 0x1F a \<or> a = CHR ''<'' \<or> a = CHR ''>'' \<or> a = CHR ''&'' | _ \<Rightarrow> False)
        then u_escape (of_char (hd c))
      else if c = [CHR 0xE2, CHR 0x80, CHR 0xA8] then u_escape 0x2028
      else if c = [CHR 0xE2, CHR 0x80, CHR 0xA9] then u_escape 0x2029
      else c)"

function escape_string :: "string \<Rightarrow> string" where
  "escape_string [] = []"
| "escape_string (a # s) =
     (let k = utf8_len (a # s)
      in if k = 0 then u_escape 0xFFFD @ escape_string s
         else escape_chunk (a # take (k - 1) s) @ escape_string (drop (k - 1) s))"
  by pat_completeness auto
termination by (relation "measure length") auto

definition json_quote :: "string \<Rightarrow> string" where
  "json_quote s = quote_char # escape_string s @ [quote_char]"

fun json_print :: "json \<Rightarrow> string" where
  "json_print JNull = ''null''"
| "json_print (JBool b) = (if b then ''true'' else ''false'')"
| "json_print (JNum l) = l"
| "json_print (JStr s) = json_quote s"
| "json_print (JArr vs) = ''['' @ join_with (CHR '','') (map json_print vs) @ '']''"
| "json_print (JObj ms) = ''{'' @ join_with (CHR '','')
     (map (\<lambda>(k, v). json_quote k @ '':'' @ json_print v) ms) @ ''}''"

text \<open>Integers, and the object of a map, whose keys are printed in the order of their bytes.\<close>

definition dec_int :: "int \<Rightarrow> string" where
  "dec_int i = (if i < 0 then CHR ''-'' # dec (nat (- i)) else dec (nat i))"

definition json_int :: "int \<Rightarrow> json" where
  "json_int i = JNum (dec_int i)"

definition json_map :: "(string \<times> json) list \<Rightarrow> json" where
  "json_map ms = JObj (sort_key fst ms)"


section \<open>The parser\<close>

definition is_ws :: "char \<Rightarrow> bool" where
  "is_ws c \<longleftrightarrow> c = CHR 0x20 \<or> c = CHR 0x09 \<or> c = CHR 0x0D \<or> c = CHR 0x0A"

definition skip_ws :: "string \<Rightarrow> string" where
  "skip_ws s = dropWhile is_ws s"

definition hex_val :: "char \<Rightarrow> nat option" where
  "hex_val c =
     (if char_in 48 57 c then Some (of_char c - 48)
      else if char_in 97 102 c then Some (of_char c - 87)
      else if char_in 65 70 c then Some (of_char c - 55)
      else None)"

definition hex4 :: "string \<Rightarrow> nat option" where
  "hex4 s = (case s of a # b # c # d # _ \<Rightarrow>
       (case (hex_val a, hex_val b, hex_val c, hex_val d) of
          (Some x, Some y, Some z, Some w) \<Rightarrow> Some (x * 4096 + y * 256 + z * 16 + w)
        | _ \<Rightarrow> None)
     | _ \<Rightarrow> None)"

text \<open>
  The escape after a backslash: the bytes it stands for and its length. A surrogate pair is
  one code point; a lone surrogate becomes U+FFFD.
\<close>

definition read_escape :: "string \<Rightarrow> (string \<times> nat) option" where
  "read_escape s = (case s of [] \<Rightarrow> None | c # r \<Rightarrow>
     if c = quote_char \<or> c = backslash \<or> c = CHR ''/'' then Some ([c], 1)
     else if c = CHR ''b'' then Some ([CHR 0x08], 1)
     else if c = CHR ''f'' then Some ([CHR 0x0C], 1)
     else if c = CHR ''n'' then Some ([CHR 0x0A], 1)
     else if c = CHR ''r'' then Some ([CHR 0x0D], 1)
     else if c = CHR ''t'' then Some ([CHR 0x09], 1)
     else if c = CHR ''u'' then
       (case hex4 r of None \<Rightarrow> None | Some n \<Rightarrow>
          if 0xD800 \<le> n \<and> n < 0xE000 then
            (case drop 4 r of
               x # y # r' \<Rightarrow>
                 (case (if x = backslash \<and> y = CHR ''u'' then hex4 r' else None) of
                    Some m \<Rightarrow> if n < 0xDC00 \<and> 0xDC00 \<le> m \<and> m < 0xE000
                      then Some (utf8_encode ((n - 0xD800) * 1024 + (m - 0xDC00) + 0x10000), 11)
                      else Some (replacement, 5)
                  | None \<Rightarrow> Some (replacement, 5))
             | _ \<Rightarrow> Some (replacement, 5))
          else Some (utf8_encode n, 5))
     else None)"

text \<open>The characters of a string after its opening quote, and the input after the closing one.\<close>

function read_string :: "string \<Rightarrow> (string \<times> string) option" where
  "read_string [] = None"
| "read_string (a # s) =
     (if a = quote_char then Some ([], s)
      else if a = backslash then
        (case read_escape s of None \<Rightarrow> None | Some (out, k) \<Rightarrow>
           map_option (\<lambda>(t, r). (out @ t, r)) (read_string (drop k s)))
      else if char_in 0x00 0x1F a then None
      else let k = utf8_len (a # s)
        in if k = 0 then map_option (\<lambda>(t, r). (replacement @ t, r)) (read_string s)
           else map_option (\<lambda>(t, r). (a # take (k - 1) s @ t, r)) (read_string (drop (k - 1) s)))"
  by pat_completeness auto
termination by (relation "measure length") auto

definition read_digits :: "string \<Rightarrow> (string \<times> string) option" where
  "read_digits s = (let ds = takeWhile is_digit s in if ds = [] then None else Some (ds, dropWhile is_digit s))"

definition read_frac :: "string \<Rightarrow> (string \<times> string) option" where
  "read_frac s = (case s of c # r \<Rightarrow>
       if c = CHR ''.'' then map_option (\<lambda>(ds, r'). (c # ds, r')) (read_digits r) else Some ([], s)
     | [] \<Rightarrow> Some ([], []))"

definition read_exp :: "string \<Rightarrow> (string \<times> string) option" where
  "read_exp s = (case s of c # r \<Rightarrow>
       if c = CHR ''e'' \<or> c = CHR ''E'' then
         (case r of
            sg # r' \<Rightarrow> if sg = CHR ''+'' \<or> sg = CHR ''-''
              then map_option (\<lambda>(ds, q). (c # sg # ds, q)) (read_digits r')
              else map_option (\<lambda>(ds, q). (c # ds, q)) (read_digits r)
          | [] \<Rightarrow> None)
       else Some ([], s)
     | [] \<Rightarrow> Some ([], []))"

definition read_unsigned :: "string \<Rightarrow> (string \<times> string) option" where
  "read_unsigned s =
     (case (case s of c # r \<Rightarrow> if c = CHR ''0'' then Some ([c], r) else read_digits s | [] \<Rightarrow> None) of
        None \<Rightarrow> None
      | Some (i, r) \<Rightarrow>
          (case read_frac r of None \<Rightarrow> None | Some (f, r1) \<Rightarrow>
             (case read_exp r1 of None \<Rightarrow> None | Some (e, r2) \<Rightarrow> Some (i @ f @ e, r2))))"

definition read_number :: "string \<Rightarrow> (string \<times> string) option" where
  "read_number s = (case s of c # r \<Rightarrow>
       if c = CHR ''-'' then map_option (\<lambda>(l, r'). (c # l, r')) (read_unsigned r) else read_unsigned s
     | [] \<Rightarrow> None)"

text \<open>
  Values, array elements and object members. The first argument is fuel, the second the
  number of nesting levels still allowed.
\<close>

fun parse_value :: "nat \<Rightarrow> nat \<Rightarrow> string \<Rightarrow> (json \<times> string) option"
  and parse_elems :: "nat \<Rightarrow> nat \<Rightarrow> string \<Rightarrow> (json list \<times> string) option"
  and parse_members :: "nat \<Rightarrow> nat \<Rightarrow> string \<Rightarrow> ((string \<times> json) list \<times> string) option" where
  "parse_value 0 d s = None"
| "parse_value (Suc f) d s = (case skip_ws s of [] \<Rightarrow> None | a # r \<Rightarrow>
     if a = CHR ''{'' then
       (case d of 0 \<Rightarrow> None | Suc d' \<Rightarrow>
          (case skip_ws r of [] \<Rightarrow> None | b # r' \<Rightarrow>
             if b = CHR ''}'' then Some (JObj [], r')
             else map_option (\<lambda>(ms, q). (JObj ms, q)) (parse_members f d' r)))
     else if a = CHR ''['' then
       (case d of 0 \<Rightarrow> None | Suc d' \<Rightarrow>
          (case skip_ws r of [] \<Rightarrow> None | b # r' \<Rightarrow>
             if b = CHR '']'' then Some (JArr [], r')
             else map_option (\<lambda>(vs, q). (JArr vs, q)) (parse_elems f d' r)))
     else if a = quote_char then map_option (\<lambda>(t, q). (JStr t, q)) (read_string r)
     else if has_prefix (a # r) ''null'' then Some (JNull, drop 3 r)
     else if has_prefix (a # r) ''true'' then Some (JBool True, drop 3 r)
     else if has_prefix (a # r) ''false'' then Some (JBool False, drop 4 r)
     else map_option (\<lambda>(l, q). (JNum l, q)) (read_number (a # r)))"
| "parse_elems 0 d s = None"
| "parse_elems (Suc f) d s =
     (case parse_value f d s of None \<Rightarrow> None | Some (v, r) \<Rightarrow>
        (case skip_ws r of [] \<Rightarrow> None | b # r' \<Rightarrow>
           if b = CHR '','' then map_option (\<lambda>(vs, q). (v # vs, q)) (parse_elems f d r')
           else if b = CHR '']'' then Some ([v], r')
           else None))"
| "parse_members 0 d s = None"
| "parse_members (Suc f) d s = (case skip_ws s of [] \<Rightarrow> None | a # r \<Rightarrow>
     if a \<noteq> quote_char then None
     else case read_string r of None \<Rightarrow> None | Some (k, r1) \<Rightarrow>
       (case skip_ws r1 of [] \<Rightarrow> None | c # r2 \<Rightarrow>
          if c \<noteq> CHR '':'' then None
          else case parse_value f d r2 of None \<Rightarrow> None | Some (v, r3) \<Rightarrow>
            (case skip_ws r3 of [] \<Rightarrow> None | b # r4 \<Rightarrow>
               if b = CHR '','' then map_option (\<lambda>(ms, q). ((k, v) # ms, q)) (parse_members f d r4)
               else if b = CHR ''}'' then Some ([(k, v)], r4)
               else None)))"

definition maxNestingDepth :: nat where
  "maxNestingDepth = 10000"

definition syntax_error :: goerr where
  "syntax_error = LibErr ''json: syntax error''"

definition type_error :: goerr where
  "type_error = LibErr ''json: cannot unmarshal value''"

definition json_parse :: "string \<Rightarrow> json result" where
  "json_parse s =
     (case parse_value (2 * length s + 2) maxNestingDepth s of
        Some (v, r) \<Rightarrow> if skip_ws r = [] then Inr v else Inl syntax_error
      | None \<Rightarrow> Inl syntax_error)"


section \<open>Strings read back\<close>

lemma hex_val_digit: "n < 16 \<Longrightarrow> hex_val (hex_digit n) = Some n"
  by (simp add: hex_val_def hex_digit_def char_in_def)

lemma read_u_escape:
  assumes "n < 0xD800"
  shows "read_escape (tl (u_escape n) @ t) = Some (utf8_encode n, 5)"
proof -
  have digits: "x = 16 * y + r0 \<Longrightarrow> y = 16 * z + r1 \<Longrightarrow> z = 16 * q + r2 \<Longrightarrow>
      x = q * 4096 + r2 * 256 + r1 * 16 + r0" for x y z q r0 r1 r2 :: nat by simp
  have "n div 256 = n div 16 div 16" "n div 4096 = n div 256 div 16" by (simp_all flip: div_mult2_eq)
  then have "n = n div 4096 * 4096 + n div 256 mod 16 * 256 + n div 16 mod 16 * 16 + n mod 16"
    by (intro digits [of n "n div 16" _ "n div 256"]) simp_all
  moreover have "n div 4096 < 16" "n div 256 mod 16 < 16" "n div 16 mod 16 < 16" "n mod 16 < 16"
    using assms by simp_all
  ultimately have "hex4 (drop 2 (u_escape n) @ t) = Some n"
    by (simp add: hex4_def u_escape_def hex_val_digit)
  then show ?thesis using assms by (simp add: read_escape_def u_escape_def)
qed

lemma read_string_u_escape:
  "n < 0xD800 \<Longrightarrow> read_string (u_escape n @ t) = map_option (\<lambda>(u, r). (utf8_encode n @ u, r)) (read_string t)"
  using read_u_escape [of n t] by (simp add: u_escape_def)

text \<open>A chunk is the encoding of one code point.\<close>

definition chunk :: "string \<Rightarrow> bool" where
  "chunk c \<longleftrightarrow> c \<noteq> [] \<and> utf8_len c = length c"

lemma utf8_encode_ascii: "n < 128 \<Longrightarrow> utf8_encode n = [byte n]"
  by (simp add: utf8_encode_def)

lemma byte_of_char [simp]: "byte (of_char c) = c"
  by (simp add: byte_def)

lemma chunk_long:
  assumes "chunk (a # r)" and "r \<noteq> []"
  shows "\<not> char_in 0x00 0x7F a"
  using assms by (auto simp: chunk_def utf8_len_def lead_len_def Let_def split: if_splits)

lemma read_string_chunk:
  assumes "chunk c"
  shows "read_string (escape_chunk c @ t) = map_option (\<lambda>(u, r). (c @ u, r)) (read_string t)"
proof (cases "escape_chunk c = c")
  case True
  obtain a r where c: "c = a # r" using assms by (cases c) (auto simp: chunk_def)
  have "utf8_len (c @ t) = length c"
    using assms utf8_len_append [of c t] by (auto simp: chunk_def)
  moreover have "a \<noteq> quote_char \<and> a \<noteq> backslash \<and> \<not> char_in 0x00 0x1F a"
  proof (cases r)
    case Nil
    show ?thesis using True unfolding c Nil
      by (auto simp: escape_chunk_def u_escape_def split: if_splits)
  next
    case (Cons b r')
    then have "\<not> char_in 0x00 0x7F a" using assms c chunk_long by blast
    then show ?thesis by (auto simp: char_in_def)
  qed
  ultimately show ?thesis using True c by (simp add: Let_def)
next
  case False
  let ?u = "case c of [a] \<Rightarrow> char_in 0x00 0x1F a \<or> a = CHR ''<'' \<or> a = CHR ''>'' \<or> a = CHR ''&'' | _ \<Rightarrow> False"
  consider "c = [quote_char]" | "c = [backslash]" | "c = [CHR 0x08]" | "c = [CHR 0x0C]" | "c = [CHR 0x0A]"
    | "c = [CHR 0x0D]" | "c = [CHR 0x09]" | "c = [CHR 0xE2, CHR 0x80, CHR 0xA8]"
    | "c = [CHR 0xE2, CHR 0x80, CHR 0xA9]" | "escape_chunk c = (if ?u then u_escape (of_char (hd c)) else c)"
    by (simp only: escape_chunk_def if_False if_True simp_thms) argo
  then show ?thesis
  proof cases
    case 10
    then have ?u using False by (auto split: if_splits)
    then obtain a where a: "c = [a]" "of_char a < (128 :: nat)"
      by (auto simp: char_in_def split: list.splits)
    then show ?thesis using 10 \<open>?u\<close> by (simp add: read_string_u_escape utf8_encode_ascii)
  next
    case 8
    have "utf8_encode 0x2028 = [CHR 0xE2, CHR 0x80, CHR 0xA8]" by (simp add: utf8_encode_def byte_def char_of_def bit_Suc_0_iff)
    then show ?thesis by (simp add: 8 escape_chunk_def read_string_u_escape)
  next
    case 9
    have "utf8_encode 0x2029 = [CHR 0xE2, CHR 0x80, CHR 0xA9]" by (simp add: utf8_encode_def byte_def char_of_def bit_Suc_0_iff)
    then show ?thesis by (simp add: 9 escape_chunk_def read_string_u_escape)
  qed (simp_all add: escape_chunk_def read_escape_def)
qed

lemma read_string_escape:
  "valid_utf8 s \<Longrightarrow> read_string (escape_string s @ quote_char # rest) = Some (s, rest)"
proof (induction s rule: valid_utf8.induct)
  case (2 a s)
  let ?k = "utf8_len (a # s)"
  have k: "?k \<noteq> 0" "valid_utf8 (drop (?k - 1) s)" using "2.prems" by (auto split: if_splits)
  then obtain m where m: "?k = Suc m" by (cases ?k) auto
  have "length (take ?k (a # s)) = ?k" using utf8_len_le [of "a # s"] by simp
  then have "chunk (take ?k (a # s))" using utf8_len_take [of "a # s"] m by (simp add: chunk_def)
  then have "chunk (a # take m s)" using m by simp
  then show ?case
    using "2.IH" k m read_string_chunk [of "a # take m s" "escape_string (drop m s) @ quote_char # rest"]
    by (simp add: Let_def)
qed simp


section \<open>The parser inverts the printer\<close>

text \<open>Integer literals, the values whose strings are UTF-8 and whose numbers are integers, and their depth.\<close>

definition int_literal :: "string \<Rightarrow> bool" where
  "int_literal l \<longleftrightarrow> (let ds = (if l \<noteq> [] \<and> hd l = CHR ''-'' then tl l else l)
     in ds \<noteq> [] \<and> list_all is_digit ds \<and> (hd ds = CHR ''0'' \<longrightarrow> tl ds = []))"

fun json_ok :: "json \<Rightarrow> bool" where
  "json_ok JNull = True"
| "json_ok (JBool b) = True"
| "json_ok (JNum l) = int_literal l"
| "json_ok (JStr s) = valid_utf8 s"
| "json_ok (JArr vs) = list_all json_ok vs"
| "json_ok (JObj ms) = list_all (\<lambda>(k, v). valid_utf8 k \<and> json_ok v) ms"

fun json_depth :: "json \<Rightarrow> nat" where
  "json_depth (JArr vs) = Suc (foldr max (map json_depth vs) 0)"
| "json_depth (JObj ms) = Suc (foldr max (map (\<lambda>(k, v). json_depth v) ms) 0)"
| "json_depth _ = 0"

lemma foldr_max_le: "\<forall>x \<in> set xs. x \<le> n \<Longrightarrow> foldr max xs 0 \<le> (n :: nat)"
  by (induction xs) auto

lemma foldr_max_ge: "x \<in> set xs \<Longrightarrow> x \<le> foldr max xs (0 :: nat)"
  by (induction xs) auto

lemma not_digits [simp]:
  "\<not> is_digit (CHR '']'')" "\<not> is_digit (CHR ''['')" "\<not> is_digit (CHR ''{'')" "\<not> is_digit quote_char"
  "\<not> is_digit (CHR ''n'')" "\<not> is_digit (CHR ''t'')" "\<not> is_digit (CHR ''f'')" "\<not> is_digit (CHR ''-'')"
  "\<not> is_digit (CHR '','')" "\<not> is_digit (CHR ''}'')"
  by (simp_all add: is_digit_def)

lemma digit_not_ws: "is_digit c \<Longrightarrow> \<not> is_ws c"
  by (auto simp: is_digit_def is_ws_def)

definition value_end :: "string \<Rightarrow> bool" where
  "value_end r \<longleftrightarrow> r = [] \<or> hd r = CHR '','' \<or> hd r = CHR '']'' \<or> hd r = CHR ''}''"

lemma value_end_simps [simp]:
  "value_end []" "value_end (CHR '','' # r)" "value_end (CHR '']'' # r)" "value_end (CHR ''}'' # r)"
  by (simp_all add: value_end_def)

lemma value_end_frac_exp: "value_end r \<Longrightarrow> read_frac r = Some ([], r) \<and> read_exp r = Some ([], r)"
  by (cases r) (auto simp: value_end_def read_frac_def read_exp_def)

lemma value_end_digit: "value_end r \<Longrightarrow> takeWhile is_digit r = [] \<and> dropWhile is_digit r = r"
  by (cases r) (auto simp: value_end_def is_digit_def)

lemma read_unsigned_digits:
  assumes "ds \<noteq> []" "list_all is_digit ds" "hd ds = CHR ''0'' \<longrightarrow> tl ds = []" "value_end r"
  shows "read_unsigned (ds @ r) = Some (ds, r)"
proof -
  obtain d ds' where ds: "ds = d # ds'" using assms(1) by (cases ds) auto
  have "read_digits (ds @ r) = Some (ds, r)"
    using assms value_end_digit [OF assms(4)]
    by (simp add: read_digits_def Let_def list_all_iff takeWhile_append dropWhile_append)
  then show ?thesis
    using assms ds value_end_frac_exp [OF assms(4)] by (simp add: read_unsigned_def)
qed

lemma read_number_literal:
  assumes "int_literal l" and "value_end r"
  shows "read_number (l @ r) = Some (l, r)"
proof (cases "hd l = CHR ''-''")
  case True
  obtain ds where "l = CHR ''-'' # ds" using assms(1) True by (cases l) (auto simp: int_literal_def)
  then show ?thesis
    using assms read_unsigned_digits [of ds r] by (simp add: int_literal_def read_number_def)
next
  case False
  then obtain d ds where "l = d # ds" "d \<noteq> CHR ''-''" using assms(1) by (cases l) (auto simp: int_literal_def)
  then show ?thesis
    using assms read_unsigned_digits [of l r] by (simp add: int_literal_def read_number_def)
qed

lemma literal_head:
  assumes "int_literal l"
  obtains a s where "l = a # s" "a = CHR ''-'' \<or> is_digit a"
  using assms by (cases l) (auto simp: int_literal_def Let_def split: if_splits)

lemma json_print_head:
  assumes "json_ok j"
  shows "\<exists>a s. json_print j = a # s \<and> \<not> is_ws a \<and> a \<noteq> CHR '']''"
proof (cases j)
  case (JNum l)
  obtain a s where "l = a # s" "a = CHR ''-'' \<or> is_digit a"
    using assms JNum literal_head [of l] by auto
  moreover have "\<not> is_ws (CHR ''-'')" by (simp add: is_ws_def)
  ultimately have "\<not> is_ws a" "a \<noteq> CHR '']''" "l = a # s" using digit_not_ws not_digits(1) by fastforce+
  then show ?thesis using JNum by simp
qed (simp_all add: json_quote_def is_ws_def)

lemma skip_ws_head [simp]: "\<not> is_ws a \<Longrightarrow> skip_ws (a # s) = a # s"
  by (simp add: skip_ws_def)

lemma not_ws [simp]:
  "\<not> is_ws (CHR '','')" "\<not> is_ws (CHR '':'')" "\<not> is_ws (CHR '']'')" "\<not> is_ws (CHR ''}'')"
  "\<not> is_ws (CHR ''['')" "\<not> is_ws (CHR ''{'')" "\<not> is_ws quote_char" "\<not> is_ws (CHR ''n'')"
  "\<not> is_ws (CHR ''t'')" "\<not> is_ws (CHR ''f'')"
  by (simp_all add: is_ws_def)

lemma parse_elems_print:
  assumes "\<forall>v \<in> set vs. \<forall>f r. 2 * length (json_print v) \<le> f \<longrightarrow> value_end r \<longrightarrow>
      parse_value f d (json_print v @ r) = Some (v, r)"
    and "vs \<noteq> []" and "2 * length (join_with (CHR '','') (map json_print vs)) < f"
  shows "parse_elems f d (join_with (CHR '','') (map json_print vs) @ CHR '']'' # r) = Some (vs, r)"
  using assms
proof (induction vs arbitrary: f)
  case (Cons v vs)
  then obtain f' where f: "f = Suc f'" by (cases f) auto
  show ?case
  proof (cases vs)
    case Nil
    then show ?thesis using Cons.prems f by simp
  next
    case (Cons v' vs')
    let ?rest = "join_with (CHR '','') (map json_print vs)"
    have join: "join_with (CHR '','') (map json_print (v # vs)) = json_print v @ CHR '','' # ?rest"
      using Cons by simp
    have "parse_elems f' d (?rest @ CHR '']'' # r) = Some (vs, r)"
      using Cons.IH [of f'] Cons.prems Cons f unfolding join by simp
    moreover have "parse_value f' d (json_print v @ CHR '','' # ?rest @ CHR '']'' # r) =
        Some (v, CHR '','' # ?rest @ CHR '']'' # r)"
      using Cons.prems f unfolding join by simp
    ultimately show ?thesis unfolding join f by simp
  qed
qed simp

lemma parse_members_print:
  assumes "\<forall>(k, v) \<in> set ms. valid_utf8 k \<and> (\<forall>f r. 2 * length (json_print v) \<le> f \<longrightarrow> value_end r \<longrightarrow>
      parse_value f d (json_print v @ r) = Some (v, r))"
    and "ms \<noteq> []"
    and "2 * length (join_with (CHR '','') (map (\<lambda>(k, v). json_quote k @ '':'' @ json_print v) ms)) < f"
  shows "parse_members f d (join_with (CHR '','') (map (\<lambda>(k, v). json_quote k @ '':'' @ json_print v) ms)
    @ CHR ''}'' # r) = Some (ms, r)"
  using assms
proof (induction ms arbitrary: f)
  case (Cons m ms)
  let ?p = "map (\<lambda>(k, v). json_quote k @ '':'' @ json_print v)"
  obtain k v where m: "m = (k, v)" by (cases m)
  obtain f' where f: "f = Suc f'" using Cons.prems(3) by (cases f) auto
  have key: "read_string (escape_string k @ quote_char # t) = Some (k, t)" for t
    using Cons.prems(1) m by (intro read_string_escape) simp
  show ?case
  proof (cases ms)
    case Nil
    then show ?thesis using Cons.prems f key m by (simp add: json_quote_def)
  next
    case (Cons m' ms')
    let ?rest = "join_with (CHR '','') (?p ms)"
    have join: "join_with (CHR '','') (?p (m # ms)) = json_quote k @ '':'' @ json_print v @ CHR '','' # ?rest"
      using Cons m by simp
    have "parse_members f' d (?rest @ CHR ''}'' # r) = Some (ms, r)"
      using Cons.IH [of f'] Cons.prems Cons f unfolding join by simp
    moreover have "parse_value f' d (json_print v @ CHR '','' # ?rest @ CHR ''}'' # r) =
        Some (v, CHR '','' # ?rest @ CHR ''}'' # r)"
      using Cons.prems f m unfolding join by simp
    ultimately show ?thesis unfolding join f using key m by (simp add: json_quote_def)
  qed
qed simp


lemma parse_value_print:
  "json_ok j \<Longrightarrow> json_depth j \<le> d \<Longrightarrow> 2 * length (json_print j) \<le> f \<Longrightarrow> value_end r \<Longrightarrow>
   parse_value f d (json_print j @ r) = Some (j, r)"
proof (induction j arbitrary: d f r)
  case JNull
  then show ?case by (cases f) simp_all
next
  case (JBool b)
  then show ?case by (cases f; cases b) simp_all
next
  case (JNum l)
  obtain a s where l: "l = a # s" "a = CHR ''-'' \<or> is_digit a"
    using JNum.prems(1) literal_head [of l] by auto
  obtain f' where f: "f = Suc f'" using JNum.prems(3) l by (cases f) auto
  have "\<not> is_ws a" using json_print_head [OF JNum.prems(1)] l by simp
  moreover have "a \<noteq> CHR ''{''" "a \<noteq> CHR ''[''" "a \<noteq> quote_char" "a \<noteq> CHR ''n''" "a \<noteq> CHR ''t''" "a \<noteq> CHR ''f''"
    using l(2) not_digits by fastforce+
  ultimately show ?case
    using read_number_literal [of l r] JNum.prems f l by simp
next
  case (JStr s)
  then obtain f' where "f = Suc f'" by (cases f) (auto simp: json_quote_def)
  then show ?case using JStr.prems read_string_escape [of s r] by (simp add: json_quote_def)
next
  case (JArr vs)
  obtain f' d' where f: "f = Suc f'" and d: "d = Suc d'"
    using JArr.prems by (cases f; cases d) auto
  show ?case
  proof (cases vs)
    case Nil
    then show ?thesis using f d by simp
  next
    case (Cons v vs')
    let ?t = "join_with (CHR '','') (map json_print vs)"
    have ok: "\<forall>v \<in> set vs. json_ok v" using JArr.prems(1) by (simp add: list_all_iff)
    have "\<forall>v \<in> set vs. json_depth v \<le> d'"
      using JArr.prems(2) d foldr_max_ge [of _ "map json_depth vs"] by fastforce
    then have "parse_elems f' d' (?t @ CHR '']'' # r) = Some (vs, r)"
      using JArr.IH ok Cons JArr.prems(3) f by (intro parse_elems_print) auto
    moreover obtain a s where "?t = a # s" "\<not> is_ws a" "a \<noteq> CHR '']''"
      using json_print_head [of v] ok Cons by (cases vs') auto
    ultimately show ?thesis using f d by simp
  qed
next
  case (JObj ms)
  obtain f' d' where f: "f = Suc f'" and d: "d = Suc d'"
    using JObj.prems by (cases f; cases d) auto
  let ?p = "map (\<lambda>(k, v). json_quote k @ '':'' @ json_print v)"
  show ?case
  proof (cases ms)
    case Nil
    then show ?thesis using f d by simp
  next
    case (Cons m ms')
    let ?t = "join_with (CHR '','') (?p ms)"
    have ok: "\<forall>(k, v) \<in> set ms. valid_utf8 k \<and> json_ok v" using JObj.prems(1) by (simp add: list_all_iff)
    have "\<forall>(k, v) \<in> set ms. json_depth v \<le> d'"
      using JObj.prems(2) d foldr_max_ge [of _ "map (\<lambda>(k, v). json_depth v) ms"] by fastforce
    then have "parse_members f' d' (?t @ CHR ''}'' # r) = Some (ms, r)"
      using JObj.IH ok Cons JObj.prems(3) f by (intro parse_members_print) fastforce+
    moreover obtain s where "?t = quote_char # s"
      using Cons by (cases m; cases ms') (auto simp: json_quote_def)
    ultimately show ?thesis using f d by simp
  qed
qed

lemma json_parse_print:
  assumes "json_ok j" and "json_depth j \<le> maxNestingDepth"
  shows "json_parse (json_print j) = Inr j"
  using parse_value_print [OF assms, of "2 * length (json_print j) + 2" "[]"]
  by (simp add: json_parse_def skip_ws_def)

lemma dec_head: "n \<noteq> 0 \<Longrightarrow> hd (dec n) \<noteq> CHR ''0'' \<and> dec n \<noteq> []"
proof (induction n rule: dec.induct)
  case (1 n)
  have z: "digit_char k \<noteq> CHR ''0''" if "k \<noteq> 0" "k < 10" for k
    using that digit_char_val [of k] by (auto simp: digit_val_def)
  show ?case
  proof (cases "n < 10")
    case True
    then show ?thesis using "1.prems" z by (subst (1 2) dec.simps) simp
  next
    case False
    then have "n div 10 \<noteq> 0" by simp
    then show ?thesis using "1.IH" False by (subst (1 2) dec.simps) simp
  qed
qed

lemma dec_0: "dec 0 = ''0''"
  by (subst dec.simps) (simp add: digit_char_def byte_def char_of_def bit_Suc_0_iff)

lemma dec_int_literal: "int_literal (dec_int i)"
proof -
  have digits: "list_all is_digit (dec n)" for n using dec_digits by (simp add: list_all_iff)
  have hd: "dec n \<noteq> [] \<and> hd (dec n) \<noteq> CHR ''-''" for n
  proof -
    have "dec n \<noteq> []" by (subst dec.simps) simp
    moreover from this have "is_digit (hd (dec n))" using digits [of n] by (auto simp: list_all_iff)
    ultimately show ?thesis using not_digits by metis
  qed
  have zero: "hd (dec n) = CHR ''0'' \<longrightarrow> tl (dec n) = []" for n
    using dec_head [of n] by (cases "n = 0") (simp_all add: dec_0)
  show ?thesis using digits hd zero by (simp add: int_literal_def dec_int_def)
qed

lemma json_ok_int [simp]: "json_ok (json_int i)"
  by (simp add: json_int_def dec_int_literal)

lemma json_depth_int [simp]: "json_depth (json_int i) = 0"
  by (simp add: json_int_def)


section \<open>Printed values are UTF-8\<close>

lemma u_escape_utf8: "n < 65536 \<Longrightarrow> valid_utf8 (u_escape n)"
proof (rule ascii_utf8)
  have "m < 16 \<Longrightarrow> char_in 0 127 (hex_digit m)" for m by (simp add: hex_digit_def char_in_def)
  moreover have "char_in 0 127 backslash" "char_in 0 127 (CHR ''u'')" by (simp_all add: char_in_def)
  moreover assume "n < 65536"
  ultimately show "list_all (char_in 0 127) (u_escape n)" by (simp add: u_escape_def)
qed

lemma chunk_utf8: "chunk c \<Longrightarrow> valid_utf8 c"
  by (cases c) (simp_all add: chunk_def)

lemma of_char_bound: "of_char c < (256 :: nat)"
  using of_char_mod_256 [of c] by (metis mod_less_divisor zero_less_numeral)

lemma escape_chunk_utf8:
  assumes "chunk c"
  shows "valid_utf8 (escape_chunk c)"
proof -
  have "valid_utf8 (u_escape (of_char (hd c)))" "valid_utf8 (u_escape 0x2028)" "valid_utf8 (u_escape 0x2029)"
    using order_less_trans [OF of_char_bound [of "hd c"], of 65536] by (auto intro!: u_escape_utf8)
  moreover have "valid_utf8 (backslash # c)" "valid_utf8 [backslash, CHR ''b'']" "valid_utf8 [backslash, CHR ''f'']"
    "valid_utf8 [backslash, CHR ''n'']" "valid_utf8 [backslash, CHR ''r'']" "valid_utf8 [backslash, CHR ''t'']"
    using chunk_utf8 [OF assms] by simp_all
  ultimately show ?thesis
    using chunk_utf8 [OF assms] unfolding escape_chunk_def by (simp only: split: if_split) blast
qed

lemma utf8_induct [consumes 1, case_names Nil Chunk]:
  assumes "valid_utf8 s" and "P []"
    and "\<And>c s. chunk c \<Longrightarrow> valid_utf8 s \<Longrightarrow> P s \<Longrightarrow> P (c @ s)"
  shows "P s"
  using assms(1)
proof (induction s rule: valid_utf8.induct)
  case (2 a s)
  let ?k = "utf8_len (a # s)"
  have k: "?k \<noteq> 0" "valid_utf8 (drop (?k - 1) s)" using "2.prems" by (auto split: if_splits)
  then have "chunk (take ?k (a # s))"
    using utf8_len_take [of "a # s"] utf8_len_le [of "a # s"] by (auto simp: chunk_def)
  moreover have "drop ?k (a # s) = drop (?k - 1) s" using k(1) by (cases ?k) auto
  moreover have "take ?k (a # s) @ drop (?k - 1) s = a # s" using calculation(2) by (metis append_take_drop_id)
  ultimately show ?case
    using assms(3) [of "take ?k (a # s)" "drop (?k - 1) s"] "2.IH" k by simp
qed (rule assms(2))

lemma escape_string_chunk:
  assumes "chunk c"
  shows "escape_string (c @ s) = escape_chunk c @ escape_string s"
proof -
  obtain a r where c: "c = a # r" using assms by (cases c) (auto simp: chunk_def)
  have "utf8_len (c @ s) = length c" "length c \<noteq> 0"
    using assms utf8_len_append [of c s] by (auto simp: chunk_def)
  then show ?thesis using c by (simp add: Let_def)
qed

lemma json_quote_utf8: "valid_utf8 s \<Longrightarrow> valid_utf8 (json_quote s)"
proof -
  assume "valid_utf8 s"
  then have "valid_utf8 (escape_string s)"
    by (induction rule: utf8_induct) (simp_all add: escape_string_chunk escape_chunk_utf8 valid_utf8_append)
  then have "valid_utf8 (escape_string s @ [quote_char])" by (rule valid_utf8_append) simp
  then show ?thesis by (simp add: json_quote_def)
qed

lemma join_utf8: "\<forall>w \<in> set ws. valid_utf8 w \<Longrightarrow> valid_utf8 (join_with (CHR '','') ws)"
proof (induction "CHR '',''" ws rule: join_with.induct)
  case (3 w v ws)
  then have "valid_utf8 (CHR '','' # join_with (CHR '','') (v # ws))" by simp
  then show ?case using 3 by (simp add: valid_utf8_append del: valid_utf8.simps(2))
qed simp_all

lemma int_literal_utf8: "int_literal l \<Longrightarrow> valid_utf8 l"
proof (rule ascii_utf8)
  have "is_digit c \<Longrightarrow> char_in 0 127 c" for c by (simp add: is_digit_def char_in_def Let_def)
  moreover have "char_in 0 127 (CHR ''-'')" by (simp add: char_in_def)
  moreover assume "int_literal l"
  ultimately show "list_all (char_in 0 127) l"
    by (cases l) (auto simp: int_literal_def Let_def list_all_iff split: if_splits)
qed

lemma json_print_utf8: "json_ok j \<Longrightarrow> valid_utf8 (json_print j)"
proof (induction j)
  case (JArr vs)
  then have "valid_utf8 (join_with (CHR '','') (map json_print vs))"
    by (intro join_utf8) (auto simp: list_all_iff)
  then have "valid_utf8 (join_with (CHR '','') (map json_print vs) @ '']'')" by (rule valid_utf8_append) simp
  then show ?case by simp
next
  case (JObj ms)
  let ?p = "map (\<lambda>(k, v). json_quote k @ '':'' @ json_print v) ms"
  have "valid_utf8 (json_quote k @ '':'' @ json_print v)" if "(k, v) \<in> set ms" for k v
  proof -
    have "valid_utf8 (json_quote k)" "valid_utf8 (json_print v)"
      using JObj that by (fastforce simp: list_all_iff json_quote_utf8)+
    then show ?thesis by (intro valid_utf8_append) simp_all
  qed
  then have "valid_utf8 (join_with (CHR '','') ?p)" by (intro join_utf8) auto
  then have "valid_utf8 (join_with (CHR '','') ?p @ ''}'')" by (rule valid_utf8_append) simp
  then show ?case by simp
qed (simp_all add: json_quote_utf8 int_literal_utf8)


section \<open>The fuel is enough\<close>

lemma skip_ws_le: "length (skip_ws s) \<le> length s"
  by (simp add: skip_ws_def length_dropWhile_le)

lemma skip_ws_Cons: "skip_ws s = a # r \<Longrightarrow> length r < length s"
  using skip_ws_le [of s] by simp

lemma read_string_shorter: "read_string s = Some (t, r) \<Longrightarrow> length r < length s"
proof (induction s arbitrary: t rule: read_string.induct)
  case (2 a s)
  consider "a = quote_char" | out k where "a \<noteq> quote_char" "a = backslash" "read_escape s = Some (out, k)"
    | "a \<noteq> quote_char" "a \<noteq> backslash" "\<not> char_in 0x00 0x1F a"
    using "2.prems" by (auto split: if_splits option.splits)
  then show ?case
  proof cases
    case 2
    then obtain t' where "read_string (drop k s) = Some (t', r)" using "2.prems" by auto
    then have "length r < length (drop k s)" using "2.IH"(1) 2 by simp
    then show ?thesis by simp
  next
    case 3
    show ?thesis
    proof (cases "utf8_len (a # s) = 0")
      case True
      then obtain t' where "read_string s = Some (t', r)" using "2.prems" 3 by (auto simp: Let_def)
      then have "length r < length s" using "2.IH"(2) 3 True by simp
      then show ?thesis by simp
    next
      case False
      then obtain t' where "read_string (drop (utf8_len (a # s) - 1) s) = Some (t', r)"
        using "2.prems" 3 by (auto simp: Let_def)
      then have "length r < length (drop (utf8_len (a # s) - 1) s)" using "2.IH"(3) 3 False by simp
      then show ?thesis by simp
    qed
  qed (use "2.prems" in simp)
qed simp

lemma read_digits_shorter: "read_digits s = Some (t, r) \<Longrightarrow> length r < length s"
proof -
  assume "read_digits s = Some (t, r)"
  then have "t \<noteq> []" "s = t @ r"
    by (auto simp: read_digits_def Let_def split: if_splits)
  then show ?thesis by simp
qed

lemma read_frac_le: "read_frac s = Some (t, r) \<Longrightarrow> length r \<le> length s"
  by (auto simp: read_frac_def dest!: read_digits_shorter split: list.splits if_splits)

lemma read_exp_le: "read_exp s = Some (t, r) \<Longrightarrow> length r \<le> length s"
  by (auto simp: read_exp_def dest!: read_digits_shorter split: list.splits if_splits)

lemma read_unsigned_shorter:
  assumes "read_unsigned s = Some (t, r)"
  shows "length r < length s"
proof -
  obtain i r0 f r1 e where "(case s of c # r \<Rightarrow> if c = CHR ''0'' then Some ([c], r) else read_digits s | [] \<Rightarrow> None) = Some (i, r0)"
    "read_frac r0 = Some (f, r1)" "read_exp r1 = Some (e, r)"
    using assms by (auto simp: read_unsigned_def split: option.splits prod.splits)
  moreover from this have "length r0 < length s"
    by (auto dest: read_digits_shorter split: list.splits if_splits)
  ultimately show ?thesis using read_frac_le read_exp_le by fastforce
qed

lemma read_number_shorter: "read_number s = Some (t, r) \<Longrightarrow> length r < length s"
  by (auto simp: read_number_def dest: read_unsigned_shorter split: list.splits if_splits)

lemma parse_value_SucD:
  assumes "parse_value (Suc f) d s = Some (v, r)"
  obtains a q where "skip_ws s = a # q"
    "(\<exists>d' ms. parse_members f d' q = Some (ms, r)) \<or> (\<exists>d' vs. parse_elems f d' q = Some (vs, r)) \<or>
     (\<exists>b. skip_ws q = b # r) \<or> (\<exists>t. read_string q = Some (t, r)) \<or> (\<exists>n. r = drop n q) \<or>
     (\<exists>l. read_number (a # q) = Some (l, r))"
proof -
  obtain a q where s: "skip_ws s = a # q" using assms by (auto split: list.splits)
  show ?thesis
    using assms s by (intro that [OF s]) (auto split: if_splits nat.splits list.splits)
qed

lemma parse_elems_SucD:
  assumes "parse_elems (Suc f) d s = Some (vs, r)"
  obtains v q b q' where "parse_value f d s = Some (v, q)" "skip_ws q = b # q'"
    "q' = r \<or> (\<exists>vs'. parse_elems f d q' = Some (vs', r))"
  using assms by (auto split: if_splits option.splits list.splits)

lemma parse_members_SucD:
  assumes "parse_members (Suc f) d s = Some (ms, r)"
  obtains a s1 k r1 c r2 v q b q' where "skip_ws s = a # s1" "read_string s1 = Some (k, r1)"
    "skip_ws r1 = c # r2" "parse_value f d r2 = Some (v, q)" "skip_ws q = b # q'"
    "q' = r \<or> (\<exists>ms'. parse_members f d q' = Some (ms', r))"
  using assms by (auto split: if_splits option.splits list.splits)

lemma parse_shorter:
  "(\<forall>d s v r. parse_value f d s = Some (v, r) \<longrightarrow> length r < length s) \<and>
   (\<forall>d s vs r. parse_elems f d s = Some (vs, r) \<longrightarrow> length r < length s) \<and>
   (\<forall>d s ms r. parse_members f d s = Some (ms, r) \<longrightarrow> length r < length s)"
proof (induction f)
  case (Suc f)
  have V: "parse_value f d s = Some (v, r) \<Longrightarrow> length r < length s" for d s v r using Suc by blast
  have E: "parse_elems f d s = Some (vs, r) \<Longrightarrow> length r < length s" for d s vs r using Suc by blast
  have M: "parse_members f d s = Some (ms, r) \<Longrightarrow> length r < length s" for d s ms r using Suc by blast
  show ?case
  proof (intro conjI allI impI)
    fix d s v r assume "parse_value (Suc f) d s = Some (v, r)"
    then obtain a q where q: "skip_ws s = a # q"
      "(\<exists>d' ms. parse_members f d' q = Some (ms, r)) \<or> (\<exists>d' vs. parse_elems f d' q = Some (vs, r)) \<or>
       (\<exists>b. skip_ws q = b # r) \<or> (\<exists>t. read_string q = Some (t, r)) \<or> (\<exists>n. r = drop n q) \<or>
       (\<exists>l. read_number (a # q) = Some (l, r))" by (rule parse_value_SucD)
    have "length r \<le> length q"
      using q(2) M E skip_ws_Cons read_string_shorter read_number_shorter
      by (elim disjE exE) (fastforce simp: less_imp_le)+
    then show "length r < length s" using skip_ws_Cons [OF q(1)] by simp
  next
    fix d s vs r assume "parse_elems (Suc f) d s = Some (vs, r)"
    then show "length r < length s" using V E skip_ws_Cons by (elim parse_elems_SucD) fastforce
  next
    fix d s ms r assume "parse_members (Suc f) d s = Some (ms, r)"
    then show "length r < length s"
    proof (rule parse_members_SucD)
      fix a s1 k r1 c r2 v q b q'
      assume "skip_ws s = a # s1" "read_string s1 = Some (k, r1)" "skip_ws r1 = c # r2"
        "parse_value f d r2 = Some (v, q)" "skip_ws q = b # q'"
      then have "length q' < length s"
        using V skip_ws_Cons read_string_shorter by (meson order.strict_trans)
      moreover assume "q' = r \<or> (\<exists>ms'. parse_members f d q' = Some (ms', r))"
      ultimately show ?thesis using M by fastforce
    qed
  qed
qed simp

lemma parse_fuel:
  "(\<forall>d s. 2 * length s < f \<longrightarrow> parse_value (Suc f) d s = parse_value f d s) \<and>
   (\<forall>d s. 2 * length s + 1 < f \<longrightarrow> parse_elems (Suc f) d s = parse_elems f d s) \<and>
   (\<forall>d s. 2 * length s < f \<longrightarrow> parse_members (Suc f) d s = parse_members f d s)"
proof (induction f)
  case (Suc f)
  have V: "2 * length s < f \<Longrightarrow> parse_value (Suc f) d s = parse_value f d s" for d s using Suc by blast
  have E: "2 * length s + 1 < f \<Longrightarrow> parse_elems (Suc f) d s = parse_elems f d s" for d s using Suc by blast
  have M: "2 * length s < f \<Longrightarrow> parse_members (Suc f) d s = parse_members f d s" for d s using Suc by blast
  show ?case
  proof (intro conjI allI impI)
    fix d and s :: string assume f: "2 * length s < Suc f"
    show "parse_value (Suc (Suc f)) d s = parse_value (Suc f) d s"
    proof (cases "skip_ws s")
      case (Cons a q)
      then have "2 * length q + 1 < f" "2 * length q < f" using skip_ws_Cons [OF Cons] f by simp_all
      then show ?thesis using Cons M E
        by (simp only: parse_value.simps list.case)
    qed simp
  next
    fix d and s :: string assume f: "2 * length s + 1 < Suc f"
    then have v: "parse_value (Suc f) d s = parse_value f d s" using V by simp
    have "parse_elems (Suc f) d q' = parse_elems f d q'"
      if "parse_value f d s = Some (v, q)" "skip_ws q = b # q'" for v q b q'
      using that parse_shorter skip_ws_Cons f by (intro E) fastforce
    then show "parse_elems (Suc (Suc f)) d s = parse_elems (Suc f) d s"
      by (simp only: parse_elems.simps v) (auto split: option.split list.split)
  next
    fix d and s :: string assume f: "2 * length s < Suc f"
    have v: "parse_value (Suc f) d r2 = parse_value f d r2"
      if "skip_ws s = a # s1" "read_string s1 = Some (k, r1)" "skip_ws r1 = c # r2" for a s1 k r1 c r2
    proof -
      have "length r2 < length s"
        using that skip_ws_Cons read_string_shorter by (meson order.strict_trans)
      then show ?thesis using f by (intro V) simp
    qed
    have "parse_members (Suc f) d q' = parse_members f d q'"
      if "skip_ws s = a # s1" "read_string s1 = Some (k, r1)" "skip_ws r1 = c # r2"
        "parse_value f d r2 = Some (v, q)" "skip_ws q = b # q'" for a s1 k r1 c r2 v q b q'
    proof -
      have "length q' < length s"
        using that parse_shorter skip_ws_Cons read_string_shorter by (meson order.strict_trans)
      then show ?thesis using f by (intro M) simp
    qed
    with v show "parse_members (Suc (Suc f)) d s = parse_members (Suc f) d s"
      by (simp only: parse_members.simps) (auto split: option.split list.split)
  qed
qed simp

lemma parse_value_fuel:
  "2 * length s < f \<Longrightarrow> parse_value (f + n) d s = parse_value f d s"
  by (induction n) (use parse_fuel in auto)


section \<open>Decoding\<close>

text \<open>
  A decoder takes a value and the current content of its target, and returns the new content
  and the first type error. \<open>null\<close> leaves scalars and structs alone. A target slice is taken
  to be fresh: the bytes of an object that repeats the key of a slice are not modelled beyond
  the last occurrence replacing the slice.
\<close>

type_synonym 'a decoder = "json \<Rightarrow> 'a \<Rightarrow> 'a \<times> goerr option"

definition int_of_literal :: "string \<Rightarrow> int option" where
  "int_of_literal l =
     (let neg = (l \<noteq> [] \<and> hd l = CHR ''-''); ds = (if neg then tl l else l)
      in if ds \<noteq> [] \<and> list_all is_digit ds
         then Some (if neg then - int (dec_val ds) else int (dec_val ds)) else None)"

fun dec_string :: "string decoder" where
  "dec_string (JStr s) old = (s, None)"
| "dec_string JNull old = (old, None)"
| "dec_string _ old = (old, Some type_error)"

fun dec_bool :: "bool decoder" where
  "dec_bool (JBool b) old = (b, None)"
| "dec_bool JNull old = (old, None)"
| "dec_bool _ old = (old, Some type_error)"

fun dec_integer :: "(int \<Rightarrow> bool) \<Rightarrow> int decoder" where
  "dec_integer ok (JNum l) old = (case int_of_literal l of
     Some i \<Rightarrow> if ok i then (i, None) else (old, Some type_error)
   | None \<Rightarrow> (old, Some type_error))"
| "dec_integer ok JNull old = (old, None)"
| "dec_integer ok _ old = (old, Some type_error)"

definition in_uint32 :: "int \<Rightarrow> bool" where
  "in_uint32 i \<longleftrightarrow> 0 \<le> i \<and> i < 2 ^ 32"

text \<open>\<open>strconv.ParseUint\<close> rejects a sign, so the literal \<open>-0\<close> is no unsigned number.\<close>

fun dec_uint32 :: "u32 decoder" where
  "dec_uint32 (JNum l) old =
     (if l \<noteq> [] \<and> list_all is_digit l \<and> int (dec_val l) < 2 ^ 32 then (of_nat (dec_val l), None)
      else (old, Some type_error))"
| "dec_uint32 JNull old = (old, None)"
| "dec_uint32 _ old = (old, Some type_error)"

definition first_error :: "goerr option \<Rightarrow> goerr option \<Rightarrow> goerr option" where
  "first_error e e' = (case e of None \<Rightarrow> e' | Some _ \<Rightarrow> e)"

fun dec_elems :: "'a decoder \<Rightarrow> 'a \<Rightarrow> json list \<Rightarrow> 'a list \<times> goerr option" where
  "dec_elems d zero [] = ([], None)"
| "dec_elems d zero (j # js) =
     (case d j zero of (v, e) \<Rightarrow> case dec_elems d zero js of (vs, e') \<Rightarrow> (v # vs, first_error e e'))"

fun dec_slice :: "'a decoder \<Rightarrow> 'a \<Rightarrow> 'a list decoder" where
  "dec_slice d zero (JArr js) old = dec_elems d zero js"
| "dec_slice d zero JNull old = ([], None)"
| "dec_slice d zero _ old = (old, Some type_error)"

text \<open>A pointer to a string: absent, or set.\<close>

fun dec_string_ptr :: "string option decoder" where
  "dec_string_ptr (JStr s) old = (Some s, None)"
| "dec_string_ptr JNull old = (None, None)"
| "dec_string_ptr _ old = (old, Some type_error)"

text \<open>
  Field names match exactly or after folding: ASCII letters, and the two code points beyond
  ASCII (the Kelvin sign and the long s) that fold to ASCII letters.
\<close>

definition ascii_upper :: "char \<Rightarrow> char" where
  "ascii_upper c = (if char_in 97 122 c then byte (of_char c - 32) else c)"

fun fold_name :: "string \<Rightarrow> string" where
  "fold_name [] = []"
| "fold_name (a # s) =
     (if has_prefix (a # s) [CHR 0xE2, CHR 0x84, CHR 0xAA] then CHR ''K'' # fold_name (drop 2 s)
      else if has_prefix (a # s) [CHR 0xC5, CHR 0xBF] then CHR ''S'' # fold_name (drop 1 s)
      else ascii_upper a # fold_name s)"

type_synonym 'r field = "string \<times> 'r decoder"

definition find_field :: "'r field list \<Rightarrow> string \<Rightarrow> 'r decoder option" where
  "find_field fs k = (case map_of fs k of
     Some d \<Rightarrow> Some d
   | None \<Rightarrow> map_option snd (find (\<lambda>(n, d). fold_name n = fold_name k) fs))"

text \<open>A field: its name, how to read and to write it in the record, and how to decode it.\<close>

definition field :: "string \<Rightarrow> ('r \<Rightarrow> 'a) \<Rightarrow> ('a \<Rightarrow> 'r \<Rightarrow> 'r) \<Rightarrow> 'a decoder \<Rightarrow> 'r field" where
  "field n get put d = (n, \<lambda>j r. case d j (get r) of (v, e) \<Rightarrow> (put v r, e))"

definition dec_member :: "'r field list \<Rightarrow> 'r \<times> goerr option \<Rightarrow> string \<times> json \<Rightarrow> 'r \<times> goerr option" where
  "dec_member fs st m = (case st of (r, e) \<Rightarrow> case m of (k, j) \<Rightarrow>
     (case find_field fs k of None \<Rightarrow> (r, e)
      | Some d \<Rightarrow> (case d j r of (r', e') \<Rightarrow> (r', first_error e e'))))"

fun dec_struct :: "'r field list \<Rightarrow> 'r decoder" where
  "dec_struct fs (JObj ms) old = foldl (dec_member fs) (old, None) ms"
| "dec_struct fs JNull old = (old, None)"
| "dec_struct fs _ old = (old, Some type_error)"

text \<open>\<open>json.Unmarshal\<close>: nothing is decoded from malformed input.\<close>

definition json_unmarshal :: "'a decoder \<Rightarrow> string \<Rightarrow> 'a \<Rightarrow> 'a \<times> goerr option" where
  "json_unmarshal d s old = (case json_parse s of Inl e \<Rightarrow> (old, Some e) | Inr j \<Rightarrow> d j old)"

lemma json_unmarshal_print:
  "json_ok j \<Longrightarrow> json_depth j \<le> maxNestingDepth \<Longrightarrow> json_unmarshal d (json_print j) old = d j old"
  by (simp add: json_unmarshal_def json_parse_print)

lemma int_of_dec_int [simp]: "int_of_literal (dec_int i) = Some i"
proof -
  have "list_all is_digit (dec n)" "dec n \<noteq> []" "hd (dec n) \<noteq> CHR ''-''" for n
  proof -
    show "list_all is_digit (dec n)" using dec_digits by (simp add: list_all_iff)
    moreover show "dec n \<noteq> []" by (subst dec.simps) simp
    ultimately show "hd (dec n) \<noteq> CHR ''-''" using not_digits by (metis hd_in_set list_all_iff)
  qed
  then show ?thesis by (simp add: int_of_literal_def dec_int_def Let_def)
qed

lemma dec_integer_int [simp]: "ok i \<Longrightarrow> dec_integer ok (json_int i) old = (i, None)"
  by (simp add: json_int_def)

lemma first_error_None [simp]: "first_error None e = e" "first_error e None = e"
  by (cases e; simp add: first_error_def)+

lemma dec_elems_image:
  "\<forall>x \<in> set xs. d (enc x) zero = (f x, None) \<Longrightarrow> dec_elems d zero (map enc xs) = (map f xs, None)"
  by (induction xs) simp_all

lemma dec_elems_map:
  "\<forall>x \<in> set xs. d (enc x) zero = (x, None) \<Longrightarrow> dec_elems d zero (map enc xs) = (xs, None)"
  by (induction xs) simp_all

lemma dec_member_field:
  assumes "map_of fs k = Some (snd (field k get put d))"
  shows "dec_member fs (r, e) (k, j) =
    (case d j (get r) of (v, e') \<Rightarrow> (put v r, first_error e e'))"
  using assms by (simp add: dec_member_def find_field_def field_def split: prod.splits)



section \<open>Map objects\<close>

lemma sort_key_map: "sort_key f (map g xs) = map g (sort_key (\<lambda>x. f (g x)) xs)"
proof -
  have "insort_key f (g x) (map g ys) = map g (insort_key (\<lambda>x. f (g x)) x ys)" for x ys
    by (induction ys) auto
  then show ?thesis by (induction xs) simp_all
qed

lemma map_of_sort_key: "distinct (map fst ms) \<Longrightarrow> map_of (sort_key fst ms) = map_of ms"
proof -
  assume d: "distinct (map fst ms)"
  have "mset (map fst (sort_key fst ms)) = mset (map fst ms)" by simp
  then have "distinct (map fst (sort_key fst ms))" using d by (metis mset_eq_imp_distinct_iff)
  then show ?thesis using d by (metis map_of_inject_set set_sort)
qed

lemma json_ok_map [simp]: "json_ok (json_map ms) \<longleftrightarrow> list_all (\<lambda>(k, v). valid_utf8 k \<and> json_ok v) ms"
  by (simp add: json_map_def list_all_iff)

lemma json_depth_map_le:
  assumes "\<forall>(k, v) \<in> set ms. json_depth v \<le> n"
  shows "json_depth (json_map ms) \<le> Suc n"
  using assms foldr_max_le [of "map (\<lambda>(k, v). json_depth v) (sort_key fst ms)" n]
  by (simp add: json_map_def case_prod_unfold)


section \<open>Maps\<close>

text \<open>
  Decoding an object into a Go map: every member is decoded from the zero value and stored,
  a later member replacing an earlier one of the same name. \<open>None\<close> is the nil map, which is
  what \<open>null\<close> decodes to.
\<close>

fun dec_entries :: "'a decoder \<Rightarrow> 'a \<Rightarrow> (string \<times> json) list \<Rightarrow> (string \<times> 'a) list \<Rightarrow>
    (string \<times> 'a) list \<times> goerr option" where
  "dec_entries d zero [] m = (m, None)"
| "dec_entries d zero ((k, j) # ms) m =
     (case d j zero of (v, e) \<Rightarrow> case dec_entries d zero ms (kv_set k v m) of (m', e') \<Rightarrow> (m', first_error e e'))"

fun dec_map :: "'a decoder \<Rightarrow> 'a \<Rightarrow> (string \<times> 'a) list option decoder" where
  "dec_map d zero (JObj ms) old =
     (case dec_entries d zero ms (case old of None \<Rightarrow> [] | Some m \<Rightarrow> m) of (m, e) \<Rightarrow> (Some m, e))"
| "dec_map d zero JNull old = (None, None)"
| "dec_map d zero _ old = (old, Some type_error)"

lemma dec_entries_image:
  "\<forall>x \<in> set xs. d (enc (snd x)) zero = (snd x, None) \<Longrightarrow> distinct (map fst xs) \<Longrightarrow>
   \<exists>m'. dec_entries d zero (map (\<lambda>(k, v). (k, enc v)) xs) m = (m', None) \<and> map_of m' = map_of m ++ map_of xs"
proof (induction xs arbitrary: m)
  case (Cons x xs)
  obtain k v where x: "x = (k, v)" by fastforce
  obtain m' where m': "dec_entries d zero (map (\<lambda>(k, v). (k, enc v)) xs) (kv_set k v m) = (m', None)"
    "map_of m' = map_of (kv_set k v m) ++ map_of xs"
    using Cons by fastforce
  have "map_of xs k = None" using Cons.prems(2) x by (simp add: map_of_eq_None_iff)
  then have 1: "map_of m' = map_of m ++ map_of (x # xs)"
    unfolding m'(2) x by (intro ext) (simp add: map_add_def split: option.split)
  have "dec_entries d zero (map (\<lambda>(k, v). (k, enc v)) (x # xs)) m = (m', None)"
    using m'(1) Cons.prems(1) x by simp
  then show ?case using 1 by blast
qed simp

end
