(* ===== verification/Peat_Client.thy ===== *)
theory Peat_Client
  imports Peat_Types Go_Json Go_Paths
begin

text \<open>
  The peat client (\<open>src/src/internal/peat/connect.go\<close>): unary JSON calls over HTTP, the
  messages of each method, the record of the distributions of every bundle sent, and the
  polling loop of \<open>WaitBundle\<close>. The HTTP transport and the passing of time are parameters;
  the JSON bytes on the wire are modelled as they are.
\<close>


section \<open>Transport and client state\<close>

text \<open>
  \<open>ht_NewRequest\<close> checks a URL, \<open>ht_Do\<close> posts a body and returns the status code with the
  bytes of the response. \<open>ht_Wait\<close> is the wait for the next tick of the poll interval: the
  error of the context if it ended instead.
\<close>

record 'w Http =
  ht_NewRequest :: "string \<Rightarrow> goerr option"
  ht_Do :: "string \<Rightarrow> bytes \<Rightarrow> ('w, int \<times> bytes) effect"
  ht_Wait :: "int \<Rightarrow> 'w \<Rightarrow> goerr option \<times> 'w"

definition svcPath :: string where
  "svcPath = ''/peat.sidecar.v1.PeatSidecar/''"

text \<open>Durations are nanoseconds.\<close>

definition second :: int where
  "second = 1000000000"

definition defaultPollInterval :: int where
  "defaultPollInterval = 2 * second"

record connectClient =
  cc_baseURL :: string
  cc_pollInterval :: int
  cc_bundles :: "(string \<times> string list) list"

definition NewClient :: "string \<Rightarrow> connectClient result" where
  "NewClient address =
     (let base = (if \<not> has_prefix address ''http://'' \<and> \<not> has_prefix address ''https://''
                  then ''http://'' @ address else address)
      in Inr \<lparr>cc_baseURL = trim_right base ''/'', cc_pollInterval = defaultPollInterval, cc_bundles = []\<rparr>)"

text \<open>The Connect error envelope; a decoding error leaves what was decoded.\<close>

record connectError =
  ce_Code :: string
  ce_Message :: string

definition connectErrorFields :: "connectError field list" where
  "connectErrorFields = [
     field ''code'' ce_Code (\<lambda>v. ce_Code_update (\<lambda>_. v)) dec_string,
     field ''message'' ce_Message (\<lambda>v. ce_Message_update (\<lambda>_. v)) dec_string]"

text \<open>
  \<open>call\<close>: the requests are built from strings, numbers and booleans, so marshalling them does
  not fail. A response decoder is given when the caller passes a response to fill.
\<close>

definition call :: "'w Http \<Rightarrow> connectClient \<Rightarrow> string \<Rightarrow> json \<Rightarrow> 'r decoder option \<Rightarrow> 'r \<Rightarrow> ('w, 'r) effect" where
  "call http c meth req resp r0 w =
     (let url = cc_baseURL c @ svcPath @ meth
      in case ht_NewRequest http url of
           Some e \<Rightarrow> (Inl e, w)
         | None \<Rightarrow>
             (case ht_Do http url (json_print req) w of
                (Inl e, w1) \<Rightarrow> (Inl (Wrapf ''peat'' [meth] e), w1)
              | (Inr (status, rb), w1) \<Rightarrow>
                  if status div 100 \<noteq> 2 then
                    (let cerr = fst (json_unmarshal (dec_struct connectErrorFields) rb
                           \<lparr>ce_Code = '''', ce_Message = ''''\<rparr>)
                     in if ce_Code cerr \<noteq> '''' \<or> ce_Message cerr \<noteq> ''''
                        then (Inl (Errorf ''peat'' [meth, ce_Code cerr, ce_Message cerr]), w1)
                        else (Inl (Errorf ''peat: http'' [meth, dec_int status, rb]), w1))
                  else case resp of
                      None \<Rightarrow> (Inr r0, w1)
                    | Some d \<Rightarrow>
                        (case json_unmarshal d rb r0 of
                           (r, Some e) \<Rightarrow> (Inl (Wrapf ''peat: unmarshal'' [meth] e), w1)
                         | (r, None) \<Rightarrow> (Inr r, w1))))"

definition call_unit :: "'w Http \<Rightarrow> connectClient \<Rightarrow> string \<Rightarrow> json \<Rightarrow> ('w, unit) effect" where
  "call_unit http c meth req = call http c meth req None ()"


section \<open>Status and peers\<close>

definition nodeStatusFields :: "NodeStatus field list" where
  "nodeStatusFields = [
     field ''nodeId'' ns_NodeID (\<lambda>v. ns_NodeID_update (\<lambda>_. v)) dec_string,
     field ''endpointAddr'' ns_EndpointAddr (\<lambda>v. ns_EndpointAddr_update (\<lambda>_. v)) dec_string,
     field ''syncActive'' ns_SyncActive (\<lambda>v. ns_SyncActive_update (\<lambda>_. v)) dec_bool,
     field ''connectedPeers'' ns_ConnectedPeers (\<lambda>v. ns_ConnectedPeers_update (\<lambda>_. v)) dec_uint32,
     field ''phase'' ns_Phase (\<lambda>v. ns_Phase_update (\<lambda>_. v)) dec_string]"

definition zeroNodeStatus :: NodeStatus where
  "zeroNodeStatus = \<lparr>ns_NodeID = '''', ns_EndpointAddr = '''', ns_SyncActive = False,
     ns_ConnectedPeers = 0, ns_Phase = ''''\<rparr>"

definition Status_peat :: "'w Http \<Rightarrow> connectClient \<Rightarrow> ('w, NodeStatus) effect" where
  "Status_peat http c = call http c ''GetStatus'' (JObj []) (Some (dec_struct nodeStatusFields)) zeroNodeStatus"

definition EnsurePeer :: "'w Http \<Rightarrow> connectClient \<Rightarrow> string \<Rightarrow> string list \<Rightarrow> string \<Rightarrow> ('w, unit) effect" where
  "EnsurePeer http c endpointID addresses relayURL =
     call_unit http c ''ConnectPeer'' (json_map (
       [(''endpointId'', JStr endpointID)] @
       (if addresses \<noteq> [] then [(''addresses'', JArr (map JStr addresses))] else []) @
       (if relayURL \<noteq> '''' then [(''relayUrl'', JStr relayURL)] else [])))"


section \<open>Sending attachments\<close>

fun protoPriority :: "Priority \<Rightarrow> string" where
  "protoPriority PriorityLow = ''ATTACHMENT_PRIORITY_LOW''"
| "protoPriority PriorityRoutine = ''ATTACHMENT_PRIORITY_ROUTINE''"
| "protoPriority PriorityPriority = ''ATTACHMENT_PRIORITY_PRIORITY''"
| "protoPriority PriorityCritical = ''ATTACHMENT_PRIORITY_CRITICAL''"
| "protoPriority PriorityBulk = ''ATTACHMENT_PRIORITY_BULK''"

text \<open>\<open>base64.StdEncoding\<close>.\<close>

definition base64_char :: "nat \<Rightarrow> char" where
  "base64_char n =
     (if n < 26 then byte (65 + n) else if n < 52 then byte (71 + n) else if n < 62 then byte (n - 4)
      else if n = 62 then CHR ''+'' else CHR ''/'')"

fun base64 :: "bytes \<Rightarrow> string" where
  "base64 [] = []"
| "base64 [a] = (let n = of_char a * 16
     in [base64_char (n div 64), base64_char (n mod 64), CHR ''='', CHR ''=''])"
| "base64 [a, b] = (let n = (of_char a * 256 + of_char b) * 4
     in [base64_char (n div 4096), base64_char (n div 64 mod 64), base64_char (n mod 64), CHR ''=''])"
| "base64 (a # b # c # r) = (let n = (of_char a * 256 + of_char b) * 256 + of_char c
     in [base64_char (n div 262144), base64_char (n div 4096 mod 64), base64_char (n div 64 mod 64),
         base64_char (n mod 64)] @ base64 r)"

definition scopeJSON :: "Scope \<Rightarrow> json option" where
  "scopeJSON scope =
     (if sc_AllNodes scope then Some (json_map [(''allNodes'', json_map [])])
      else if sc_NodeIDs scope \<noteq> []
        then Some (json_map [(''nodeList'', json_map [(''nodeIds'', JArr (map JStr (sc_NodeIDs scope)))])])
      else None)"

definition fileJSON :: "FileSpec \<Rightarrow> json" where
  "fileJSON f = json_map (
     [(''rootName'', JStr (fs_RootName f)),
      (''relativePath'', JStr (fs_RelativePath f)),
      (''sizeBytes'', JStr (dec (unat (fs_Size f)))),
      (''sha256'', JStr (base64 (fs_SHA256 f)))] @
     (if fs_ContentType f \<noteq> '''' then [(''contentType'', JStr (fs_ContentType f))] else []) @
     (if fs_DisplayName f \<noteq> '''' then [(''displayName'', JStr (fs_DisplayName f))] else []))"

definition sendRequest :: "string \<Rightarrow> FileSpec list \<Rightarrow> json \<Rightarrow> Priority \<Rightarrow> json" where
  "sendRequest bundleID files scope priority = json_map (
     [(''files'', JArr (map fileJSON files)),
      (''scope'', scope),
      (''priority'', JStr (protoPriority priority))] @
     (if bundleID \<noteq> '''' then [(''bundleId'', JStr bundleID)] else []))"

definition zeroHandle :: AttachmentHandle where
  "zeroHandle = \<lparr>ah_FileIndex = 0, ah_BlobToken = '''', ah_DistributionID = ''''\<rparr>"

definition handleFields :: "AttachmentHandle field list" where
  "handleFields = [
     field ''fileIndex'' ah_FileIndex (\<lambda>v. ah_FileIndex_update (\<lambda>_. v)) dec_uint32,
     field ''blobToken'' ah_BlobToken (\<lambda>v. ah_BlobToken_update (\<lambda>_. v)) dec_string,
     field ''distributionId'' ah_DistributionID (\<lambda>v. ah_DistributionID_update (\<lambda>_. v)) dec_string]"

definition sendResultFields :: "SendResult field list" where
  "sendResultFields = [
     field ''bundleId'' sr_BundleID (\<lambda>v. sr_BundleID_update (\<lambda>_. v)) dec_string,
     field ''handles'' sr_Handles (\<lambda>v. sr_Handles_update (\<lambda>_. v)) (dec_slice (dec_struct handleFields) zeroHandle)]"

definition SendAttachments :: "'w Http \<Rightarrow> connectClient \<Rightarrow> string \<Rightarrow> FileSpec list \<Rightarrow> Scope \<Rightarrow> Priority \<Rightarrow> 'w \<Rightarrow>
    SendResult result \<times> connectClient \<times> 'w" where
  "SendAttachments http c bundleID files scope priority w =
     (case scopeJSON scope of
        None \<Rightarrow> (Inl (Errorf ''peat: SendAttachments requires a scope (AllNodes or NodeIDs)'' []), c, w)
      | Some sj \<Rightarrow>
          (case call http c ''SendAttachments'' (sendRequest bundleID files sj priority)
                  (Some (dec_struct sendResultFields)) \<lparr>sr_BundleID = '''', sr_Handles = []\<rparr> w of
             (Inl e, w1) \<Rightarrow> (Inl e, c, w1)
           | (Inr r, w1) \<Rightarrow>
               (Inr r, c\<lparr>cc_bundles := kv_set (sr_BundleID r) (map ah_DistributionID (sr_Handles r)) (cc_bundles c)\<rparr>, w1)))"


section \<open>Following distributions\<close>

definition fromProtoStatus :: "string \<Rightarrow> DistributionStatus" where
  "fromProtoStatus s =
     (if s = ''DISTRIBUTION_STATUS_IN_PROGRESS'' then StatusInProgress
      else if s = ''DISTRIBUTION_STATUS_COMPLETED'' then StatusCompleted
      else if s = ''DISTRIBUTION_STATUS_FAILED'' then StatusFailed
      else if s = ''DISTRIBUTION_STATUS_CANCELLED'' then StatusCancelled
      else StatusPending)"

text \<open>
  \<open>strconv.ParseUint(s, 10, 64)\<close> with its error ignored: a character that is no digit gives
  zero, an overflow the largest number, whichever comes first.
\<close>

fun parseDigits :: "nat \<Rightarrow> string \<Rightarrow> nat" where
  "parseDigits n [] = n"
| "parseDigits n (c # s) =
     (if \<not> is_digit c then 0
      else if 2 ^ 64 \<le> 10 * n + digit_val c then 2 ^ 64 - 1
      else parseDigits (10 * n + digit_val c) s)"

definition parseU64 :: "string \<Rightarrow> u64" where
  "parseU64 s = of_nat (parseDigits 0 s)"

record distributionResp =
  dr_Status :: string
  dr_BytesTransferred :: string
  dr_BytesTotal :: string
  dr_Error :: string

definition distributionFields :: "distributionResp field list" where
  "distributionFields = [
     field ''status'' dr_Status (\<lambda>v. dr_Status_update (\<lambda>_. v)) dec_string,
     field ''bytesTransferred'' dr_BytesTransferred (\<lambda>v. dr_BytesTransferred_update (\<lambda>_. v)) dec_string,
     field ''bytesTotal'' dr_BytesTotal (\<lambda>v. dr_BytesTotal_update (\<lambda>_. v)) dec_string,
     field ''error'' dr_Error (\<lambda>v. dr_Error_update (\<lambda>_. v)) dec_string]"

definition GetDistribution :: "'w Http \<Rightarrow> connectClient \<Rightarrow> string \<Rightarrow> ('w, Progress) effect" where
  "GetDistribution http c distributionID w =
     (case call http c ''GetAttachmentDistribution'' (json_map [(''distributionId'', JStr distributionID)])
             (Some (dec_struct distributionFields))
             \<lparr>dr_Status = '''', dr_BytesTransferred = '''', dr_BytesTotal = '''', dr_Error = ''''\<rparr> w of
        (Inl e, w1) \<Rightarrow> (Inl e, w1)
      | (Inr r, w1) \<Rightarrow> (Inr \<lparr>pr_DistributionID = distributionID, pr_Status = fromProtoStatus (dr_Status r),
           pr_BytesTransferred = parseU64 (dr_BytesTransferred r), pr_BytesTotal = parseU64 (dr_BytesTotal r),
           pr_Err = dr_Error r\<rparr>, w1))"

text \<open>One round of polling: the reports of all distributions, in order, or the first error.\<close>

fun pollAll :: "'w Http \<Rightarrow> connectClient \<Rightarrow> string list \<Rightarrow> ('w, Progress list) effect" where
  "pollAll http c [] w = (Inr [], w)"
| "pollAll http c (d # ds) w =
     (case GetDistribution http c d w of
        (Inl e, w1) \<Rightarrow> (Inl e, w1)
      | (Inr p, w1) \<Rightarrow>
          (case pollAll http c ds w1 of
             (Inl e, w2) \<Rightarrow> (Inl e, w2)
           | (Inr ps, w2) \<Rightarrow> (Inr (p # ps), w2)))"

text \<open>
  A round of the loop ends it with the reports and an error, or continues in a later state.
\<close>

definition waitRound :: "'w Http \<Rightarrow> connectClient \<Rightarrow> string list \<Rightarrow> 'w \<Rightarrow>
    ((Progress list \<times> goerr option) \<times> 'w) + 'w" where
  "waitRound http c dists w =
     (case pollAll http c dists w of
        (Inl e, w1) \<Rightarrow> Inl (([], Some e), w1)
      | (Inr progs, w1) \<Rightarrow>
          if list_all (\<lambda>p. Terminal (pr_Status p)) progs then Inl ((progs, None), w1)
          else case ht_Wait http (cc_pollInterval c) w1 of
              (Some e, w2) \<Rightarrow> Inl ((progs, Some e), w2)
            | (None, w2) \<Rightarrow> Inr w2)"

partial_function (option) waitLoop :: "'w Http \<Rightarrow> connectClient \<Rightarrow> string list \<Rightarrow> 'w \<Rightarrow>
    ((Progress list \<times> goerr option) \<times> 'w) option" where
  "waitLoop http c dists w =
     (case waitRound http c dists w of
        Inl res \<Rightarrow> Some res
      | Inr w' \<Rightarrow> waitLoop http c dists w')"

declare waitLoop.simps [code]

definition bundleDistributions :: "connectClient \<Rightarrow> string \<Rightarrow> string list" where
  "bundleDistributions c bundleID = (case map_of (cc_bundles c) bundleID of None \<Rightarrow> [] | Some ds \<Rightarrow> ds)"

text \<open>\<open>None\<close>: the call does not return.\<close>

definition WaitBundle :: "'w Http \<Rightarrow> connectClient \<Rightarrow> string \<Rightarrow> 'w \<Rightarrow>
    ((Progress list \<times> goerr option) \<times> 'w) option" where
  "WaitBundle http c bundleID w =
     (let dists = bundleDistributions c bundleID
      in if dists = []
         then Some (([], Some (Errorf ''peat: no known distributions for bundle (re-send to repopulate)'' [bundleID])), w)
         else waitLoop http c dists w)"


section \<open>Documents\<close>

definition PutDocument :: "'w Http \<Rightarrow> connectClient \<Rightarrow> string \<Rightarrow> string \<Rightarrow> bytes \<Rightarrow> ('w, unit) effect" where
  "PutDocument http c collection docID jsonData =
     call_unit http c ''PutDocument'' (json_map
       [(''collection'', JStr collection), (''docId'', JStr docID), (''jsonData'', JStr jsonData)])"

text \<open>The document, or nothing: the flag of the Go result is \<open>False\<close> exactly when it is \<open>None\<close>.\<close>

definition GetDocument :: "'w Http \<Rightarrow> connectClient \<Rightarrow> string \<Rightarrow> string \<Rightarrow> ('w, bytes option) effect" where
  "GetDocument http c collection docID =
     call http c ''GetDocument'' (json_map [(''collection'', JStr collection), (''docId'', JStr docID)])
       (Some (dec_struct [field ''jsonData'' id (\<lambda>v _. v) dec_string_ptr])) None"

definition ListDocuments :: "'w Http \<Rightarrow> connectClient \<Rightarrow> string \<Rightarrow> ('w, string list) effect" where
  "ListDocuments http c collection =
     call http c ''ListDocuments'' (json_map [(''collection'', JStr collection)])
       (Some (dec_struct [field ''docIds'' id (\<lambda>v _. v) (dec_slice dec_string '''')])) []"


section \<open>Waiting\<close>

text \<open>
  The two kinds of rounds, in terms of the reports: a round is undecided when a poll of all
  distributions succeeds, some of them has not come to an end, and the wait until the next poll
  is not interrupted; it is decisive when the poll fails, when all distributions have come to an
  end, or when the context ends during the wait.
\<close>

definition hasEnded :: "Progress \<Rightarrow> bool" where
  "hasEnded p \<longleftrightarrow> pr_Status p \<in> {StatusCompleted, StatusFailed, StatusCancelled}"

definition undecided :: "'w Http \<Rightarrow> connectClient \<Rightarrow> string list \<Rightarrow> 'w \<Rightarrow> 'w \<Rightarrow> bool" where
  "undecided http c dists w w' \<longleftrightarrow>
     (\<exists>progs w1. pollAll http c dists w = (Inr progs, w1) \<and> (\<exists>p \<in> set progs. \<not> hasEnded p) \<and>
        ht_Wait http (cc_pollInterval c) w1 = (None, w'))"

definition decisive :: "'w Http \<Rightarrow> connectClient \<Rightarrow> string list \<Rightarrow> 'w \<Rightarrow> Progress list \<times> goerr option \<Rightarrow> 'w \<Rightarrow> bool" where
  "decisive http c dists w res w' \<longleftrightarrow>
     (\<exists>e. pollAll http c dists w = (Inl e, w') \<and> res = ([], Some e)) \<or>
     (\<exists>progs. pollAll http c dists w = (Inr progs, w') \<and> (\<forall>p \<in> set progs. hasEnded p) \<and> res = (progs, None)) \<or>
     (\<exists>progs w1 e. pollAll http c dists w = (Inr progs, w1) \<and> (\<exists>p \<in> set progs. \<not> hasEnded p) \<and>
        ht_Wait http (cc_pollInterval c) w1 = (Some e, w') \<and> res = (progs, Some e))"

lemma Terminal_hasEnded: "list_all (\<lambda>p. Terminal (pr_Status p)) progs \<longleftrightarrow> (\<forall>p \<in> set progs. hasEnded p)"
proof -
  have "Terminal s \<longleftrightarrow> s \<in> {StatusCompleted, StatusFailed, StatusCancelled}" for s by (cases s) simp_all
  then show ?thesis by (simp add: list_all_iff hasEnded_def)
qed

lemma waitRound_undecided: "waitRound http c dists w = Inr w' \<longleftrightarrow> undecided http c dists w w'"
  by (auto simp: waitRound_def undecided_def Terminal_hasEnded split: prod.splits sum.splits option.splits if_splits)

lemma waitRound_decisive: "waitRound http c dists w = Inl (res, w') \<longleftrightarrow> decisive http c dists w res w'"
  by (auto simp: waitRound_def decisive_def Terminal_hasEnded split: prod.splits sum.splits option.splits if_splits)

lemma waitLoop_decided:
  assumes ret: "waitLoop http c dists w = Some (res, w')"
  shows "\<exists>v. (undecided http c dists)\<^sup>*\<^sup>* w v \<and> decisive http c dists v res w'"
proof -
  have "\<exists>v. (undecided http c dists)\<^sup>*\<^sup>* w v \<and> decisive http c dists v (fst r) (snd r)"
    if "waitLoop http c dists w = Some r" for r
  proof (rule waitLoop.raw_induct [where P = "\<lambda>http c dists w r. \<exists>v. (undecided http c dists)\<^sup>*\<^sup>* w v \<and>
      decisive http c dists v (fst r) (snd r)", OF _ that])
    fix loop and http :: "'w Http" and c dists w r
    assume IH: "\<And>http c dists w r. loop http c dists w = Some r \<Longrightarrow>
        \<exists>v. (undecided http c dists)\<^sup>*\<^sup>* w v \<and> decisive http c dists v (fst r) (snd r)"
      and eq: "(case waitRound http c dists w of Inl res \<Rightarrow> Some res | Inr w' \<Rightarrow> loop http c dists w') = Some r"
    show "\<exists>v. (undecided http c dists)\<^sup>*\<^sup>* w v \<and> decisive http c dists v (fst r) (snd r)"
    proof (cases "waitRound http c dists w")
      case (Inl r')
      then have "waitRound http c dists w = Inl (fst r, snd r)" using eq by simp
      then show ?thesis unfolding waitRound_decisive by blast
    next
      case (Inr w1)
      then show ?thesis
        using IH [of http c dists w1 r] eq waitRound_undecided [of http c dists w w1]
        by (auto intro: converse_rtranclp_into_rtranclp)
    qed
  qed
  from this [OF ret] show ?thesis by simp
qed

lemma waitLoop_step: "undecided http c dists w v \<Longrightarrow> waitLoop http c dists w = waitLoop http c dists v"
  unfolding waitRound_undecided [symmetric] by (subst waitLoop.simps) simp

lemma waitLoop_returns:
  assumes "(undecided http c dists)\<^sup>*\<^sup>* w v" and "decisive http c dists v res w'"
  shows "waitLoop http c dists w = Some (res, w')"
  using assms(1)
proof (induction rule: converse_rtranclp_induct)
  case base
  show ?case using assms(2) unfolding waitRound_decisive [symmetric] by (subst waitLoop.simps) simp
qed (simp add: waitLoop_step)

text \<open>A loop that does not return polls for ever.\<close>

lemma waitLoop_diverges:
  "waitLoop http c dists w = None \<longleftrightarrow> (\<exists>f. f 0 = w \<and> (\<forall>i. undecided http c dists (f i) (f (Suc i))))"
proof
  assume none: "waitLoop http c dists w = None"
  have "\<exists>v'. undecided http c dists v v' \<and> waitLoop http c dists v' = None" if "waitLoop http c dists v = None" for v
  proof (cases "waitRound http c dists v")
    case (Inr v')
    then have "undecided http c dists v v'" by (simp add: waitRound_undecided)
    then show ?thesis using that waitLoop_step by metis
  qed (use that in \<open>subst (asm) waitLoop.simps, simp\<close>)
  with none show "\<exists>f. f 0 = w \<and> (\<forall>i. undecided http c dists (f i) (f (Suc i)))"
    using dependent_nat_choice [of "\<lambda>n v. waitLoop http c dists v = None \<and> (n = 0 \<longrightarrow> v = w)"
        "\<lambda>n. undecided http c dists"] by (metis nat.distinct(1))
next
  assume "\<exists>f. f 0 = w \<and> (\<forall>i. undecided http c dists (f i) (f (Suc i)))"
  then obtain f where f: "f 0 = w" "\<And>i. undecided http c dists (f i) (f (Suc i))" by blast
  have "\<exists>i. u = f i" if "(undecided http c dists)\<^sup>*\<^sup>* w u" for u
    using that
  proof (induction rule: rtranclp_induct)
    case (step u v)
    then obtain i where "u = f i" by blast
    then have "v = f (Suc i)" using step.hyps(2) f(2) [of i] unfolding waitRound_undecided [symmetric] by simp
    then show ?case ..
  qed (use f(1) in metis)
  then have "\<not> decisive http c dists u res w'" if "(undecided http c dists)\<^sup>*\<^sup>* w u" for u res w'
    using that f(2) unfolding waitRound_undecided [symmetric] waitRound_decisive [symmetric] by (metis Inl_Inr_False)
  then show "waitLoop http c dists w = None"
    using waitLoop_decided by (metis not_None_eq prod.collapse)
qed

lemma pollAll_ids: "pollAll http c ds w = (Inr ps, w') \<Longrightarrow> map pr_DistributionID ps = ds"
  by (induction ds arbitrary: w ps w')
    (auto simp: GetDistribution_def split: sum.splits prod.splits)

lemma decisive_ok:
  "decisive http c dists w (progs, None) w' \<Longrightarrow>
   map pr_DistributionID progs = dists \<and> list_all (\<lambda>p. Terminal (pr_Status p)) progs"
  by (auto simp: decisive_def Terminal_hasEnded dest: pollAll_ids)

lemma kv_get_bundles:
  "bundleDistributions (c\<lparr>cc_bundles := kv_set b ds (cc_bundles c)\<rparr>) b' =
     (if b' = b then ds else bundleDistributions c b')"
  by (simp add: bundleDistributions_def)


lemma sent_then_waited:
  assumes "SendAttachments http c bundleID files scope prio w = (Inr r, c', w1)"
    and "WaitBundle http c' (sr_BundleID r) v = Some ((progs, None), v')"
  shows "map pr_DistributionID progs = map ah_DistributionID (sr_Handles r) \<and> sr_Handles r \<noteq> [] \<and>
    list_all (\<lambda>p. Terminal (pr_Status p)) progs"
proof -
  have "bundleDistributions c' (sr_BundleID r) = map ah_DistributionID (sr_Handles r)"
    using assms(1) by (auto simp: SendAttachments_def kv_get_bundles split: option.splits sum.splits prod.splits)
  then show ?thesis
    using assms(2) waitLoop_decided [of http c' _ v "(progs, None)" v'] decisive_ok
    by (fastforce simp: WaitBundle_def Let_def split: if_splits)
qed


section \<open>Numbers on the wire\<close>

lemma foldl_digits_ge: "n \<le> foldl (\<lambda>n c. 10 * n + digit_val c) n s"
proof (induction s arbitrary: n)
  case (Cons c s)
  show ?case using Cons [of "10 * n + digit_val c"] by simp
qed simp

lemma parseDigits_min:
  "list_all is_digit s \<Longrightarrow> n < 2 ^ 64 \<Longrightarrow>
   parseDigits n s = min (foldl (\<lambda>n c. 10 * n + digit_val c) n s) (2 ^ 64 - 1)"
proof (induction s arbitrary: n)
  case (Cons c s)
  show ?case
  proof (cases "2 ^ 64 \<le> 10 * n + digit_val c")
    case True
    then show ?thesis using Cons.prems foldl_digits_ge [of "10 * n + digit_val c" s] by simp
  qed (use Cons in simp)
qed simp

lemma unat_parseU64: "list_all is_digit s \<Longrightarrow> unat (parseU64 s) = min (dec_val s) (2 ^ 64 - 1)"
proof -
  assume "list_all is_digit s"
  then have "parseDigits 0 s = min (dec_val s) (2 ^ 64 - 1)" by (simp add: parseDigits_min dec_val_def)
  then show ?thesis by (simp add: parseU64_def unat_of_nat)
qed


section \<open>What the requests carry\<close>

lemma base64_char_ascii: "char_in 0 127 (base64_char n)"
  by (auto simp: base64_char_def char_in_def)

lemma base64_ascii: "list_all (char_in 0 127) (base64 b)"
proof (induction b rule: base64.induct)
  have "char_in 0 127 (CHR ''='')" by (simp add: char_in_def)
  then show "list_all (char_in 0 127) (base64 [a])" "list_all (char_in 0 127) (base64 [a, b])" for a b
    by (simp_all add: base64_char_ascii Let_def)
qed (simp_all add: base64_char_ascii Let_def)

lemma base64_utf8 [simp]: "valid_utf8 (base64 b)"
  using base64_ascii by (rule ascii_utf8)

definition fileSpecOk :: "FileSpec \<Rightarrow> bool" where
  "fileSpecOk f \<longleftrightarrow> valid_utf8 (fs_RootName f) \<and> valid_utf8 (fs_RelativePath f) \<and>
     valid_utf8 (fs_ContentType f) \<and> valid_utf8 (fs_DisplayName f)"

lemma fileJSON_ok: "fileSpecOk f \<Longrightarrow> json_ok (fileJSON f)"
  by (simp add: fileJSON_def fileSpecOk_def)

lemma fileJSON_depth: "json_depth (fileJSON f) \<le> 1"
  unfolding fileJSON_def by (rule order_trans [OF json_depth_map_le [of _ 0]]) auto

lemma sendRequest_ok:
  "valid_utf8 b \<Longrightarrow> list_all fileSpecOk files \<Longrightarrow> json_ok sj \<Longrightarrow> json_ok (sendRequest b files sj p)"
  by (cases p) (auto simp: sendRequest_def list_all_iff fileJSON_ok)

lemma sendRequest_depth: "json_depth (sendRequest b files sj p) \<le> Suc (max 2 (json_depth sj))"
proof -
  have "foldr max (map json_depth (map fileJSON files)) 0 \<le> 1"
    using fileJSON_depth by (induction files) auto
  then show ?thesis unfolding sendRequest_def by (intro json_depth_map_le) auto
qed


section \<open>Properties\<close>

text \<open>
  C30: when and how \<open>WaitBundle\<close> returns, for a bundle with recorded distributions. It returns a
  result exactly when polling reaches, after finitely many undecided rounds (every report
  arrived, some distribution is not completed, failed or cancelled, and the pause was not
  interrupted), a decisive round with that result: the first failed poll gives its error, a
  poll in which all distributions have come to an end gives the reports and no error, and a
  context that ends in the pause gives the last reports and the error of the context. It never
  returns exactly when undecided rounds follow each other for ever. A return without an error
  reports every recorded distribution, in order, each one completed, failed or cancelled.
\<close>

theorem wait_bundle_returns_iff_decisive:
  assumes "bundleDistributions c b \<noteq> []"
  shows "(WaitBundle http c b w = Some (res, w') \<longleftrightarrow>
      (\<exists>v. (undecided http c (bundleDistributions c b))\<^sup>*\<^sup>* w v \<and> decisive http c (bundleDistributions c b) v res w')) \<and>
    (WaitBundle http c b w = None \<longleftrightarrow>
      (\<exists>f. f 0 = w \<and> (\<forall>i. undecided http c (bundleDistributions c b) (f i) (f (Suc i))))) \<and>
    (WaitBundle http c b w = Some ((progs, None), w') \<longrightarrow>
      map pr_DistributionID progs = bundleDistributions c b \<and>
      (\<forall>p \<in> set progs. pr_Status p \<in> {StatusCompleted, StatusFailed, StatusCancelled}))"
proof -
  have run: "WaitBundle http c b w = waitLoop http c (bundleDistributions c b) w"
    using assms by (simp add: WaitBundle_def Let_def)
  show ?thesis
    unfolding run waitLoop_diverges
    using waitLoop_decided waitLoop_returns decisive_ok unfolding Terminal_hasEnded hasEnded_def by metis
qed

text \<open>A sidecar that answers every poll without a status, so that the wait goes on for ever.\<close>

definition exStalled :: "nat Http" where
  "exStalled = \<lparr>ht_NewRequest = (\<lambda>url. None), ht_Do = (\<lambda>url body n. (Inr (200, ''{}''), n)),
     ht_Wait = (\<lambda>d n. (None, Suc n))\<rparr>"

definition exWaiting :: connectClient where
  "exWaiting = \<lparr>cc_baseURL = ''http://peat'', cc_pollInterval = 0, cc_bundles = [(''b'', [''d''])]\<rparr>"

theorem wait_bundle_returns_iff_decisive_witness:
  "WaitBundle exStalled exWaiting ''b'' 0 = None"
proof -
  have dists: "bundleDistributions exWaiting ''b'' = [''d'']" by (simp add: exWaiting_def bundleDistributions_def)
  have "json_parse ''{}'' = Inr (JObj [])" by code_simp
  then have "json_unmarshal (dec_struct distributionFields) ''{}'' r = (r, None)" for r
    by (simp add: json_unmarshal_def)
  then have "undecided exStalled exWaiting [''d''] n (Suc n)" for n
    by (simp add: undecided_def hasEnded_def GetDistribution_def call_def exStalled_def Let_def fromProtoStatus_def)
  then have "\<exists>f. f 0 = 0 \<and> (\<forall>i. undecided exStalled exWaiting [''d''] (f i) (f (Suc i)))"
    by (intro exI [of _ id]) simp
  then show ?thesis
    using wait_bundle_returns_iff_decisive [of exWaiting "''b''" exStalled 0] unfolding dists by simp
qed

text \<open>
  Byte counts survive the JSON wire, where 64-bit numbers are decimal strings: reading a
  string of digits gives its value, capped at the largest 64-bit number, and reading what
  \<open>FormatUint\<close> wrote gives the number back.
\<close>

theorem wire_uint64:
  "(list_all is_digit s \<longrightarrow> unat (parseU64 s) = min (dec_val s) (2 ^ 64 - 1)) \<and> parseU64 (dec (unat n)) = n"
proof -
  have "list_all is_digit (dec (unat n))" using dec_digits by (simp add: list_all_iff)
  then have "unat (parseU64 (dec (unat n))) = unat n"
    using unsigned_less [of n, where ?'a = nat] by (simp add: unat_parseU64)
  then have "parseU64 (dec (unat n)) = n" by (rule unsigned_word_eqI)
  then show ?thesis using unat_parseU64 by simp
qed

theorem wire_uint64_witness: "unat (parseU64 ''18446744073709551616'') = 18446744073709551615"
  using wire_uint64 [of "''18446744073709551616''"]
  by (simp add: is_digit_def dec_val_def digit_val_def)

end
