(* ===== verification/Manifest.thy ===== *)
theory Manifest
  imports Go_Json Go_Paths
begin

text \<open>
  The replication manifest (\<open>src/src/internal/manifest/manifest.go\<close>): its data types, its
  document id and its JSON form, with the theorem that parsing inverts serialising.
\<close>


section \<open>Model\<close>

definition Collection :: string where
  "Collection = ''snapback_replications''"

definition SchemaVersion :: int where
  "SchemaVersion = 1"

record FileEntry =
  fe_Key :: string
  fe_Basename :: string
  fe_SHA256 :: string
  fe_Size :: int
  fe_DistributionID :: string
  fe_BlobToken :: string

record Manifest =
  mn_SchemaVersion :: int
  mn_BackupName :: string
  mn_StorageLocation :: string
  mn_BSLPrefix :: string
  mn_ObjectCount :: int
  mn_TotalBytes :: int
  mn_CompletedAt :: string
  mn_Complete :: bool
  mn_Files :: "FileEntry list"

definition DocID :: "string \<Rightarrow> string \<Rightarrow> string" where
  "DocID storageLocation backupName = storageLocation @ ''/'' @ backupName"

text \<open>
  The JSON form follows the field tags: fields in the order of the struct, \<open>omitempty\<close> fields
  left out when empty. A manifest's \<open>Files\<close> is taken to be a slice that was made, as in
  \<open>emitManifest\<close>; a nil slice would print as \<open>null\<close>.
\<close>

definition omitEmpty :: "string \<Rightarrow> string \<Rightarrow> (string \<times> json) list" where
  "omitEmpty name s = (if s = '''' then [] else [(name, JStr s)])"

definition encFileEntry :: "FileEntry \<Rightarrow> json" where
  "encFileEntry e = JObj ([
     (''key'', JStr (fe_Key e)),
     (''basename'', JStr (fe_Basename e)),
     (''sha256'', JStr (fe_SHA256 e)),
     (''size'', json_int (fe_Size e)),
     (''distributionId'', JStr (fe_DistributionID e))] @
     omitEmpty ''blobToken'' (fe_BlobToken e))"

definition encManifest :: "Manifest \<Rightarrow> json" where
  "encManifest m = JObj ([
     (''schemaVersion'', json_int (mn_SchemaVersion m)),
     (''backupName'', JStr (mn_BackupName m)),
     (''storageLocation'', JStr (mn_StorageLocation m))] @
     omitEmpty ''bslPrefix'' (mn_BSLPrefix m) @
     [(''objectCount'', json_int (mn_ObjectCount m)),
      (''totalBytes'', json_int (mn_TotalBytes m))] @
     omitEmpty ''completedAt'' (mn_CompletedAt m) @
     [(''complete'', JBool (mn_Complete m)),
      (''files'', JArr (map encFileEntry (mn_Files m)))])"

definition fileEntryFields :: "FileEntry field list" where
  "fileEntryFields = [
     field ''key'' fe_Key (\<lambda>v. fe_Key_update (\<lambda>_. v)) dec_string,
     field ''basename'' fe_Basename (\<lambda>v. fe_Basename_update (\<lambda>_. v)) dec_string,
     field ''sha256'' fe_SHA256 (\<lambda>v. fe_SHA256_update (\<lambda>_. v)) dec_string,
     field ''size'' fe_Size (\<lambda>v. fe_Size_update (\<lambda>_. v)) (dec_integer in_int64),
     field ''distributionId'' fe_DistributionID (\<lambda>v. fe_DistributionID_update (\<lambda>_. v)) dec_string,
     field ''blobToken'' fe_BlobToken (\<lambda>v. fe_BlobToken_update (\<lambda>_. v)) dec_string]"

definition zeroFileEntry :: FileEntry where
  "zeroFileEntry = \<lparr>fe_Key = [], fe_Basename = [], fe_SHA256 = [], fe_Size = 0,
     fe_DistributionID = [], fe_BlobToken = []\<rparr>"

definition manifestFields :: "Manifest field list" where
  "manifestFields = [
     field ''schemaVersion'' mn_SchemaVersion (\<lambda>v. mn_SchemaVersion_update (\<lambda>_. v)) (dec_integer in_int64),
     field ''backupName'' mn_BackupName (\<lambda>v. mn_BackupName_update (\<lambda>_. v)) dec_string,
     field ''storageLocation'' mn_StorageLocation (\<lambda>v. mn_StorageLocation_update (\<lambda>_. v)) dec_string,
     field ''bslPrefix'' mn_BSLPrefix (\<lambda>v. mn_BSLPrefix_update (\<lambda>_. v)) dec_string,
     field ''objectCount'' mn_ObjectCount (\<lambda>v. mn_ObjectCount_update (\<lambda>_. v)) (dec_integer in_int64),
     field ''totalBytes'' mn_TotalBytes (\<lambda>v. mn_TotalBytes_update (\<lambda>_. v)) (dec_integer in_int64),
     field ''completedAt'' mn_CompletedAt (\<lambda>v. mn_CompletedAt_update (\<lambda>_. v)) dec_string,
     field ''complete'' mn_Complete (\<lambda>v. mn_Complete_update (\<lambda>_. v)) dec_bool,
     field ''files'' mn_Files (\<lambda>v. mn_Files_update (\<lambda>_. v))
       (dec_slice (dec_struct fileEntryFields) zeroFileEntry)]"

definition zeroManifest :: Manifest where
  "zeroManifest = \<lparr>mn_SchemaVersion = 0, mn_BackupName = [], mn_StorageLocation = [],
     mn_BSLPrefix = [], mn_ObjectCount = 0, mn_TotalBytes = 0, mn_CompletedAt = [],
     mn_Complete = False, mn_Files = []\<rparr>"

definition Marshal :: "Manifest \<Rightarrow> bytes result" where
  "Marshal m = Inr (json_print (encManifest m))"

definition Parse :: "bytes \<Rightarrow> Manifest result" where
  "Parse data =
     (case json_unmarshal (dec_struct manifestFields) data zeroManifest of
        (m, Some e) \<Rightarrow> Inl (Wrapf ''manifest: parse'' [] e)
      | (m, None) \<Rightarrow>
          if mn_SchemaVersion m \<noteq> SchemaVersion
          then Inl (Errorf ''manifest: unsupported schemaVersion'' [dec_int (mn_SchemaVersion m), dec_int SchemaVersion])
          else Inr m)"


section \<open>Serialising and parsing\<close>

text \<open>Manifests that JSON can carry: UTF-8 strings and 64-bit integers.\<close>

definition fileEntryOk :: "FileEntry \<Rightarrow> bool" where
  "fileEntryOk e \<longleftrightarrow> valid_utf8 (fe_Key e) \<and> valid_utf8 (fe_Basename e) \<and> valid_utf8 (fe_SHA256 e) \<and>
     in_int64 (fe_Size e) \<and> valid_utf8 (fe_DistributionID e) \<and> valid_utf8 (fe_BlobToken e)"

definition manifestOk :: "Manifest \<Rightarrow> bool" where
  "manifestOk m \<longleftrightarrow> in_int64 (mn_SchemaVersion m) \<and> valid_utf8 (mn_BackupName m) \<and>
     valid_utf8 (mn_StorageLocation m) \<and> valid_utf8 (mn_BSLPrefix m) \<and> in_int64 (mn_ObjectCount m) \<and>
     in_int64 (mn_TotalBytes m) \<and> valid_utf8 (mn_CompletedAt m) \<and> list_all fileEntryOk (mn_Files m)"

lemma encFileEntry_ok: "fileEntryOk e \<Longrightarrow> json_ok (encFileEntry e)"
  by (simp add: encFileEntry_def omitEmpty_def fileEntryOk_def)

lemma encFileEntry_depth: "json_depth (encFileEntry e) = 1"
  by (simp add: encFileEntry_def omitEmpty_def)

lemma encManifest_ok: "manifestOk m \<Longrightarrow> json_ok (encManifest m)"
  using encFileEntry_ok
  by (simp add: encManifest_def omitEmpty_def manifestOk_def list_all_iff)

lemma encManifest_depth: "json_depth (encManifest m) \<le> 3"
proof -
  have "foldr max (map json_depth (map encFileEntry es)) 0 \<le> 1" for es
    by (induction es) (simp_all add: encFileEntry_depth)
  then show ?thesis by (simp add: encManifest_def omitEmpty_def)
qed


lemma dec_encFileEntry:
  assumes "fileEntryOk e"
  shows "dec_struct fileEntryFields (encFileEntry e) zeroFileEntry = (e, None)"
proof -
  have "dec_struct fileEntryFields (encFileEntry e) zeroFileEntry = (\<lparr>fe_Key = fe_Key e,
      fe_Basename = fe_Basename e, fe_SHA256 = fe_SHA256 e, fe_Size = fe_Size e,
      fe_DistributionID = fe_DistributionID e, fe_BlobToken = fe_BlobToken e\<rparr>, None)"
    using assms
    by (simp add: encFileEntry_def omitEmpty_def fileEntryOk_def fileEntryFields_def zeroFileEntry_def
        dec_member_def find_field_def field_def)
  then show ?thesis by simp
qed

lemma dec_encManifest:
  assumes "manifestOk m"
  shows "dec_struct manifestFields (encManifest m) zeroManifest = (m, None)"
proof -
  have "dec_elems (dec_struct fileEntryFields) zeroFileEntry (map encFileEntry (mn_Files m)) = (mn_Files m, None)"
    using assms dec_encFileEntry by (intro dec_elems_map) (simp add: manifestOk_def list_all_iff)
  then have "dec_struct manifestFields (encManifest m) zeroManifest = (\<lparr>mn_SchemaVersion = mn_SchemaVersion m,
      mn_BackupName = mn_BackupName m, mn_StorageLocation = mn_StorageLocation m,
      mn_BSLPrefix = mn_BSLPrefix m, mn_ObjectCount = mn_ObjectCount m, mn_TotalBytes = mn_TotalBytes m,
      mn_CompletedAt = mn_CompletedAt m, mn_Complete = mn_Complete m, mn_Files = mn_Files m\<rparr>, None)"
    using assms
    by (simp add: encManifest_def omitEmpty_def manifestOk_def manifestFields_def zeroManifest_def
        dec_member_def find_field_def field_def)
  then show ?thesis by simp
qed

lemma unmarshal_manifest:
  "manifestOk m \<Longrightarrow> json_unmarshal (dec_struct manifestFields) (json_print (encManifest m)) zeroManifest = (m, None)"
  using encManifest_depth [of m]
  by (simp add: json_unmarshal_print encManifest_ok dec_encManifest maxNestingDepth_def
      del: json_print.simps dec_struct.simps)


section \<open>Properties\<close>

text \<open>
  C37: what \<open>Marshal\<close> writes, \<open>Parse\<close> reads back: for a manifest of UTF-8 strings and 64-bit
  integers the result is the manifest itself when its schema version is the supported one, and
  the error naming both versions otherwise. The bytes are those of the JSON encoding with its
  escapes, and they pass through the whole parser.
\<close>

theorem manifest_round_trip:
  assumes "manifestOk m" and "Marshal m = Inr data"
  shows "Parse data =
    (if mn_SchemaVersion m = SchemaVersion then Inr m
     else Inl (Errorf ''manifest: unsupported schemaVersion'' [dec_int (mn_SchemaVersion m), dec_int SchemaVersion]))"
  using assms by (auto simp: Marshal_def Parse_def unmarshal_manifest)

definition exampleManifest :: Manifest where
  "exampleManifest = zeroManifest\<lparr>mn_SchemaVersion := 1, mn_BackupName := ''daily'',
     mn_StorageLocation := ''default'', mn_ObjectCount := 1, mn_TotalBytes := 3, mn_Complete := True,
     mn_Files := [zeroFileEntry\<lparr>fe_Key := ''kopia/<p0>'', fe_Basename := ''<p0>'', fe_Size := 3\<rparr>]\<rparr>"

theorem manifest_round_trip_witness:
  "Parse (projr (Marshal exampleManifest)) = Inr exampleManifest"
proof -
  have "manifestOk exampleManifest"
    by (simp add: exampleManifest_def zeroManifest_def zeroFileEntry_def manifestOk_def fileEntryOk_def in_int64_def)
  then show ?thesis
    using manifest_round_trip [of exampleManifest "projr (Marshal exampleManifest)"]
    by (simp add: Marshal_def exampleManifest_def SchemaVersion_def)
qed

text \<open>
  Document ids keep the backups of different storage locations apart: for storage locations
  without a slash, as the names of Kubernetes objects are, two ids are equal only when both the
  location and the backup are the same.
\<close>

theorem doc_ids_distinct:
  assumes "slash \<notin> set loc" and "slash \<notin> set loc'"
  shows "DocID loc backup = DocID loc' backup' \<longleftrightarrow> loc = loc' \<and> backup = backup'"
  using append_sep_inject [of loc slash backup loc' backup'] assms by (auto simp: DocID_def)

theorem doc_ids_distinct_witness:
  "DocID ''default'' ''daily'' \<noteq> DocID ''default-daily'' ''''"
  using doc_ids_distinct [of "''default''" "''default-daily''" "''daily''" "''''"] by simp

end
