(* ===== verification/Peat_Node.thy ===== *)
theory Peat_Node
  imports Peat_Client Minio_Store Manifest
begin

text \<open>
  What Snapback relies on of the peat sidecar, which is not part of the repository: the
  document plane as its proto3-JSON interface describes it, as the locale \<open>peat_documents\<close>.
  An in-memory node interprets it. The node also delivers attachments at once, from an outbox
  directory to an inbox directory of one world, so that whole passes can be evaluated.
\<close>


section \<open>The document plane\<close>

locale peat_documents =
  fixes http :: "'w Http" and base :: string and docs :: "'w \<Rightarrow> string \<times> string \<rightharpoonup> string"
  assumes put_doc: "ht_Do http (base @ svcPath @ ''PutDocument'') body w = (Inr (st, rb), w') \<Longrightarrow>
        json_parse body = Inr (JObj ms) \<Longrightarrow> map_of ms ''collection'' = Some (JStr col) \<Longrightarrow>
        map_of ms ''docId'' = Some (JStr d) \<Longrightarrow> map_of ms ''jsonData'' = Some (JStr s) \<Longrightarrow>
        st div 100 = 2 \<Longrightarrow> docs w' = (docs w)((col, d) \<mapsto> s)"
    and get_doc: "ht_Do http (base @ svcPath @ ''GetDocument'') body w = (Inr (st, rb), w') \<Longrightarrow>
        json_parse body = Inr (JObj ms) \<Longrightarrow> map_of ms ''collection'' = Some (JStr col) \<Longrightarrow>
        map_of ms ''docId'' = Some (JStr d) \<Longrightarrow> st div 100 = 2 \<Longrightarrow>
        json_parse rb = Inr (JObj (case docs w (col, d) of None \<Rightarrow> [] | Some s \<Rightarrow> [(''jsonData'', JStr s)]))"
    and list_docs: "ht_Do http (base @ svcPath @ ''ListDocuments'') body w = (Inr (st, rb), w') \<Longrightarrow>
        json_parse body = Inr (JObj ms) \<Longrightarrow> map_of ms ''collection'' = Some (JStr col) \<Longrightarrow> st div 100 = 2 \<Longrightarrow>
        \<exists>ds. json_parse rb = Inr (JObj (if ds = [] then [] else [(''docIds'', JArr (map JStr ds))])) \<and>
          set ds = {d. docs w (col, d) \<noteq> None}"
    and read_frame: "meth \<in> {''ConnectPeer'', ''GetDocument'', ''ListDocuments''} \<Longrightarrow>
        ht_Do http (base @ svcPath @ meth) body w = (hr, w') \<Longrightarrow> docs w' = docs w"

begin

lemma json_parse_map:
  assumes "list_all (\<lambda>(k, v). valid_utf8 k \<and> json_ok v) ms" and "\<forall>(k, v) \<in> set ms. json_depth v \<le> 1"
  shows "json_parse (json_print (json_map ms)) = Inr (JObj (sort_key fst ms))"
  using json_parse_print [of "json_map ms"] json_depth_map_le [of ms 1] assms
  by (simp add: maxNestingDepth_def) (simp add: json_map_def)

lemma call_unit_ok:
  "call_unit http c meth req w = (Inr (), w') \<Longrightarrow>
   \<exists>st rb. ht_Do http (cc_baseURL c @ svcPath @ meth) (json_print req) w = (Inr (st, rb), w') \<and> st div 100 = 2"
  by (auto simp: call_unit_def call_def Let_def split: option.splits sum.splits prod.splits if_splits)

lemma PutDocument_ok:
  assumes "PutDocument http c col d s w = (Inr (), w')" and "cc_baseURL c = base"
    and "valid_utf8 col" "valid_utf8 d" "valid_utf8 s"
  shows "docs w' = (docs w)((col, d) \<mapsto> s)"
proof -
  let ?ms = "[(''collection'', JStr col), (''docId'', JStr d), (''jsonData'', JStr s)]"
  obtain st rb where "ht_Do http (base @ svcPath @ ''PutDocument'') (json_print (json_map ?ms)) w = (Inr (st, rb), w')"
    "st div 100 = 2"
    using call_unit_ok assms(1,2) unfolding PutDocument_def by blast
  moreover have "json_parse (json_print (json_map ?ms)) = Inr (JObj (sort_key fst ?ms))"
    by (rule json_parse_map) (use assms in simp_all)
  moreover have "map_of (sort_key fst ?ms) ''collection'' = Some (JStr col)"
    "map_of (sort_key fst ?ms) ''docId'' = Some (JStr d)" "map_of (sort_key fst ?ms) ''jsonData'' = Some (JStr s)"
    by (subst map_of_sort_key; simp)+
  ultimately show ?thesis using put_doc by blast
qed

lemma GetDocument_ok:
  assumes "GetDocument http c col d w = (Inr r, w')" and "cc_baseURL c = base"
    and "valid_utf8 col" "valid_utf8 d"
  shows "r = docs w (col, d) \<and> docs w' = docs w"
proof -
  let ?ms = "[(''collection'', JStr col), (''docId'', JStr d)]"
  let ?dec = "dec_struct [field ''jsonData'' id (\<lambda>v _. v) dec_string_ptr]"
  obtain st rb where "ht_Do http (base @ svcPath @ ''GetDocument'') (json_print (json_map ?ms)) w = (Inr (st, rb), w')"
    "st div 100 = 2" "json_unmarshal ?dec rb None = (r, None)"
    using assms(1,2)
    by (auto simp: GetDocument_def call_def Let_def split: option.splits sum.splits prod.splits if_splits)
  moreover have "json_parse (json_print (json_map ?ms)) = Inr (JObj (sort_key fst ?ms))"
    by (rule json_parse_map) (use assms in simp_all)
  moreover have "map_of (sort_key fst ?ms) ''collection'' = Some (JStr col)"
    "map_of (sort_key fst ?ms) ''docId'' = Some (JStr d)"
    by (subst map_of_sort_key; simp)+
  ultimately have "json_parse rb = Inr (JObj (case docs w (col, d) of None \<Rightarrow> [] | Some s \<Rightarrow> [(''jsonData'', JStr s)]))"
    "docs w' = docs w"
    using get_doc read_frame by blast+
  then show ?thesis
    using \<open>json_unmarshal ?dec rb None = (r, None)\<close>
    by (auto simp: json_unmarshal_def dec_member_def find_field_def field_def split: option.splits)
qed

lemma call_frame:
  assumes "call http c meth req d r0 w = (r, w')" and "cc_baseURL c = base"
    and "meth \<in> {''ConnectPeer'', ''GetDocument'', ''ListDocuments''}"
  shows "docs w' = docs w"
proof -
  obtain hr w1 where do: "ht_Do http (base @ svcPath @ meth) (json_print req) w = (hr, w1)" by fastforce
  then have "w' = w \<or> w' = w1"
    using assms(1,2) by (auto simp: call_def Let_def split: option.splits sum.splits prod.splits if_splits)
  then show ?thesis using read_frame [OF assms(3) do] by auto
qed

lemma reads_docs:
  assumes "cc_baseURL c = base"
  shows "GetDocument http c col d w = (r, w') \<Longrightarrow> docs w' = docs w"
    and "ListDocuments http c col w = (rl, w') \<Longrightarrow> docs w' = docs w"
    and "EnsurePeer http c ep as url w = (re, w') \<Longrightarrow> docs w' = docs w"
proof -
  show "docs w' = docs w" if "GetDocument http c col d w = (r, w')"
    by (rule call_frame [OF that [unfolded GetDocument_def] assms]) simp
  show "docs w' = docs w" if "ListDocuments http c col w = (rl, w')"
    by (rule call_frame [OF that [unfolded ListDocuments_def] assms]) simp
  show "docs w' = docs w" if "EnsurePeer http c ep as url w = (re, w')"
    by (rule call_frame [OF that [unfolded EnsurePeer_def call_unit_def] assms]) simp
qed

lemma ListDocuments_ok:
  assumes "ListDocuments http c col w = (Inr ids, w')" and "cc_baseURL c = base" and "valid_utf8 col"
  shows "set ids = {d. docs w (col, d) \<noteq> None}"
proof -
  let ?ms = "[(''collection'', JStr col)]"
  let ?dec = "dec_struct [field ''docIds'' id (\<lambda>v _. v) (dec_slice dec_string '''')]"
  obtain st rb where "ht_Do http (base @ svcPath @ ''ListDocuments'') (json_print (json_map ?ms)) w = (Inr (st, rb), w')"
    "st div 100 = 2" "json_unmarshal ?dec rb [] = (ids, None)"
    using assms(1,2)
    by (auto simp: ListDocuments_def call_def Let_def split: option.splits sum.splits prod.splits if_splits)
  moreover have "json_parse (json_print (json_map ?ms)) = Inr (JObj (sort_key fst ?ms))"
    by (rule json_parse_map) (use assms in simp_all)
  moreover have "map_of (sort_key fst ?ms) ''collection'' = Some (JStr col)"
    by (subst map_of_sort_key; simp)
  ultimately obtain ds where "json_parse rb = Inr (JObj (if ds = [] then [] else [(''docIds'', JArr (map JStr ds))]))"
    "set ds = {d. docs w (col, d) \<noteq> None}"
    using list_docs by blast
  moreover have "dec_elems dec_string '''' (map JStr ds) = (ds, None)" by (rule dec_elems_map) simp
  ultimately show ?thesis
    using \<open>json_unmarshal ?dec rb [] = (ids, None)\<close>
    by (auto simp: json_unmarshal_def dec_member_def find_field_def field_def split: if_splits)
qed

end


section \<open>An in-memory node\<close>

text \<open>
  The node reads outgoing files below \<open>pn_outbox\<close> and lands them at
  \<open>inbox/<distribution>/<basename>\<close>, one distribution for each file.
\<close>

record peatworld = memworld +
  pn_outbox :: string
  pn_inbox :: string
  pn_docs :: "((string \<times> string) \<times> string) list"
  pn_dists :: "string list"

definition json_member :: "json \<Rightarrow> string \<Rightarrow> json" where
  "json_member j k = (case j of JObj ms \<Rightarrow> (case map_of ms k of None \<Rightarrow> JNull | Some v \<Rightarrow> v) | _ \<Rightarrow> JNull)"

definition json_str :: "json \<Rightarrow> string" where
  "json_str j = (case j of JStr s \<Rightarrow> s | _ \<Rightarrow> '''')"

definition json_list :: "json \<Rightarrow> json list" where
  "json_list j = (case j of JArr vs \<Rightarrow> vs | _ \<Rightarrow> [])"

fun node_deliver :: "string \<Rightarrow> nat \<Rightarrow> json list \<Rightarrow> 'a peatworld_scheme \<Rightarrow> json list \<times> 'a peatworld_scheme" where
  "node_deliver bundle i [] w = ([], w)"
| "node_deliver bundle i (f # fs) w =
     (let rel = json_str (json_member f ''relativePath'');
          dist = bundle @ ''-d'' @ dec i;
          src = pn_outbox w @ ''/'' @ rel;
          body = (case map_of (mf_files w) src of None \<Rightarrow> '''' | Some b \<Rightarrow> b);
          w1 = w\<lparr>mf_files := memfs_set (pn_inbox w @ ''/'' @ dist @ ''/'' @ path_base rel) body (mf_files w),
                 pn_dists := pn_dists w @ [dist]\<rparr>
      in case node_deliver bundle (Suc i) fs w1 of (hs, w2) \<Rightarrow>
           (JObj [(''fileIndex'', json_int (int i)), (''distributionId'', JStr dist)] # hs, w2))"

definition node_call :: "string \<Rightarrow> json \<Rightarrow> 'a peatworld_scheme \<Rightarrow> json \<times> 'a peatworld_scheme" where
  "node_call meth req w =
     (let arg = (\<lambda>k. json_str (json_member req k)) in
      if meth = ''PutDocument'' then
        (JObj [], w\<lparr>pn_docs := AList.update (arg ''collection'', arg ''docId'') (arg ''jsonData'') (pn_docs w)\<rparr>)
      else if meth = ''GetDocument'' then
        (JObj (case map_of (pn_docs w) (arg ''collection'', arg ''docId'') of
           None \<Rightarrow> [] | Some s \<Rightarrow> [(''jsonData'', JStr s)]), w)
      else if meth = ''ListDocuments'' then
        (let ds = map (\<lambda>((c, d), s). d) (filter (\<lambda>((c, d), s). c = arg ''collection'') (pn_docs w))
         in (JObj (if ds = [] then [] else [(''docIds'', JArr (map JStr ds))]), w))
      else if meth = ''SendAttachments'' then
        (case node_deliver (arg ''bundleId'') 0 (json_list (json_member req ''files'')) w of
           (hs, w') \<Rightarrow> (JObj [(''bundleId'', JStr (arg ''bundleId'')), (''handles'', JArr hs)], w'))
      else if meth = ''GetAttachmentDistribution'' then
        (JObj [(''status'', JStr (if arg ''distributionId'' \<in> set (pn_dists w)
           then ''DISTRIBUTION_STATUS_COMPLETED'' else ''DISTRIBUTION_STATUS_PENDING''))], w)
      else (JObj [], w))"

text \<open>Documents that are not UTF-8 cannot be carried by the node: it answers with a server error.\<close>

definition mem_http :: "'a peatworld_scheme Http" where
  "mem_http = \<lparr>
     ht_NewRequest = (\<lambda>url. None),
     ht_Do = (\<lambda>url body w.
       case json_parse body of
         Inl e \<Rightarrow> (Inr (400, json_print (JObj [(''code'', JStr ''invalid_argument'')])), w)
       | Inr req \<Rightarrow>
           (case node_call (path_base url) req w of
              (resp, w') \<Rightarrow> if json_ok resp \<and> json_depth resp \<le> maxNestingDepth
                then (Inr (200, json_print resp), w') else (Inr (500, ''''), w))),
     ht_Wait = (\<lambda>d w. (None, w))\<rparr>"

definition mem_docs :: "'a peatworld_scheme \<Rightarrow> string \<times> string \<rightharpoonup> string" where
  "mem_docs w = map_of (pn_docs w)"

lemma method_url: "meth \<noteq> '''' \<and> slash \<notin> set meth \<Longrightarrow> path_base (base @ svcPath @ meth) = meth"
  using path_base_append [of meth "base @ ''/peat.sidecar.v1.PeatSidecar''"] by (simp add: svcPath_def)

interpretation mem_peat: peat_documents mem_http base mem_docs
  for base
proof (unfold_locales, goal_cases)
  case (3 body w st rb w' ms col)
  let ?ds = "map (\<lambda>((c, d), s). d) (filter (\<lambda>((c, d), s). c = col) (pn_docs w))"
  have "json_parse rb = Inr (JObj (if ?ds = [] then [] else [(''docIds'', JArr (map JStr ?ds))]))"
    using 3 by (auto simp: mem_http_def method_url node_call_def json_member_def json_str_def json_parse_print Let_def
      simp del: json_print.simps json_ok.simps json_depth.simps split: sum.splits prod.splits if_splits)
  moreover have "set ?ds = {d. mem_docs w (col, d) \<noteq> None}"
    by (force simp: mem_docs_def map_of_eq_None_iff)
  ultimately show ?case by blast
next
  case (4 meth body w hr w')
  then show ?case
    by (auto simp: mem_http_def method_url node_call_def mem_docs_def Let_def split: sum.splits prod.splits if_splits)
qed (auto simp: mem_http_def method_url mem_docs_def node_call_def json_member_def json_str_def update_conv' json_parse_print
      simp del: json_print.simps json_ok.simps json_depth.simps split: sum.splits prod.splits if_splits)


lemma json_member_map:
  "distinct (map fst ms) \<Longrightarrow>
   json_member (json_map ms) k = (case map_of ms k of None \<Rightarrow> JNull | Some v \<Rightarrow> v)"
  by (simp add: json_member_def json_map_def map_of_sort_key)

text \<open>A call to the node whose messages JSON can carry skips the wire.\<close>

lemma call_mem_http:
  assumes "meth \<noteq> '''' \<and> slash \<notin> set meth" and "json_ok req" and "json_depth req \<le> maxNestingDepth"
    and "node_call meth req w = (resp, w')" and "json_ok resp" and "json_depth resp \<le> maxNestingDepth"
  shows "call mem_http c meth req (Some d) r0 w =
    (case d resp r0 of (r, None) \<Rightarrow> (Inr r, w')
     | (r, Some e) \<Rightarrow> (Inl (Wrapf ''peat: unmarshal'' [meth] e), w'))"
  using assms
  by (simp add: call_def mem_http_def method_url json_parse_print json_unmarshal_print Let_def)

lemma call_unit_mem_http:
  assumes "meth \<noteq> '''' \<and> slash \<notin> set meth" and "json_ok req" and "json_depth req \<le> maxNestingDepth"
    and "node_call meth req w = (resp, w')" and "json_ok resp" and "json_depth resp \<le> maxNestingDepth"
  shows "call_unit mem_http c meth req w = (Inr (), w')"
  using assms by (simp add: call_unit_def call_def mem_http_def method_url json_parse_print Let_def)

lemma PutDocument_mem_http:
  assumes "valid_utf8 col" "valid_utf8 d" "valid_utf8 s"
  shows "PutDocument mem_http c col d s w =
    (Inr (), w\<lparr>pn_docs := AList.update (col, d) s (pn_docs w)\<rparr>)"
  unfolding PutDocument_def
proof (rule call_unit_mem_http)
  show "json_depth (json_map [(''collection'', JStr col), (''docId'', JStr d), (''jsonData'', JStr s)]) \<le> maxNestingDepth"
    by (rule order_trans [OF json_depth_map_le [of _ 0]]) (simp_all add: maxNestingDepth_def)
  show "node_call ''PutDocument'' (json_map [(''collection'', JStr col), (''docId'', JStr d), (''jsonData'', JStr s)]) w =
      (JObj [], w\<lparr>pn_docs := AList.update (col, d) s (pn_docs w)\<rparr>)"
    by (simp add: node_call_def json_member_map json_str_def Let_def)
qed (use assms in \<open>simp_all add: maxNestingDepth_def\<close>)

lemma GetDocument_mem_http:
  assumes "valid_utf8 col" "valid_utf8 d"
    and "pred_option valid_utf8 (map_of (pn_docs w) (col, d))"
  shows "GetDocument mem_http c col d w = (Inr (map_of (pn_docs w) (col, d)), w)"
proof -
  let ?req = "json_map [(''collection'', JStr col), (''docId'', JStr d)]"
  let ?resp = "JObj (case map_of (pn_docs w) (col, d) of None \<Rightarrow> [] | Some s \<Rightarrow> [(''jsonData'', JStr s)])"
  have "GetDocument mem_http c col d w =
    (case dec_struct [field ''jsonData'' id (\<lambda>v _. v) dec_string_ptr] ?resp None of (r, None) \<Rightarrow> (Inr r, w)
     | (r, Some e) \<Rightarrow> (Inl (Wrapf ''peat: unmarshal'' [''GetDocument''] e), w))"
    unfolding GetDocument_def
  proof (rule call_mem_http)
    show "json_depth ?req \<le> maxNestingDepth"
      by (rule order_trans [OF json_depth_map_le [of _ 0]]) (simp_all add: maxNestingDepth_def)
    show "node_call ''GetDocument'' ?req w = (?resp, w)"
      by (simp add: node_call_def json_member_map json_str_def Let_def)
  qed (use assms in \<open>simp_all add: maxNestingDepth_def option.pred_set split: option.split\<close>)
  then show ?thesis
    by (auto simp: dec_member_def find_field_def field_def split: option.split)
qed

lemma GetDistribution_mem_http:
  assumes "valid_utf8 d" and "d \<in> set (pn_dists w)"
  shows "GetDistribution mem_http c d w = (Inr \<lparr>pr_DistributionID = d, pr_Status = StatusCompleted,
    pr_BytesTransferred = 0, pr_BytesTotal = 0, pr_Err = ''''\<rparr>, w)"
proof -
  let ?req = "json_map [(''distributionId'', JStr d)]"
  let ?resp = "JObj [(''status'', JStr ''DISTRIBUTION_STATUS_COMPLETED'')]"
  let ?zero = "\<lparr>dr_Status = '''', dr_BytesTransferred = '''', dr_BytesTotal = '''', dr_Error = ''''\<rparr>"
  have "call mem_http c ''GetAttachmentDistribution'' ?req (Some (dec_struct distributionFields)) ?zero w =
    (case dec_struct distributionFields ?resp ?zero of (r, None) \<Rightarrow> (Inr r, w)
     | (r, Some e) \<Rightarrow> (Inl (Wrapf ''peat: unmarshal'' [''GetAttachmentDistribution''] e), w))"
  proof (rule call_mem_http)
    show "json_depth ?req \<le> maxNestingDepth"
      by (rule order_trans [OF json_depth_map_le [of _ 0]]) (simp_all add: maxNestingDepth_def)
    show "node_call ''GetAttachmentDistribution'' ?req w = (?resp, w)"
      using assms(2) by (simp add: node_call_def json_member_map json_str_def Let_def)
  qed (use assms in \<open>simp_all add: maxNestingDepth_def\<close>)
  moreover have "dec_struct distributionFields ?resp ?zero = (?zero\<lparr>dr_Status := ''DISTRIBUTION_STATUS_COMPLETED''\<rparr>, None)"
    by (simp add: distributionFields_def dec_member_def find_field_def field_def)
  ultimately show ?thesis by (simp add: GetDistribution_def fromProtoStatus_def parseU64_def)
qed

lemma handle_decoded:
  "i < 2 ^ 32 \<Longrightarrow>
   dec_struct handleFields (JObj [(''fileIndex'', json_int (int i)), (''distributionId'', JStr d)]) zeroHandle =
   (\<lparr>ah_FileIndex = of_nat i, ah_BlobToken = '''', ah_DistributionID = d\<rparr>, None)"
proof -
  assume "i < 2 ^ 32"
  moreover have "list_all is_digit (dec i)" "dec i \<noteq> ''''"
    using dec_digits by (auto simp: list_all_iff) (subst (asm) dec.simps, simp split: if_splits)
  ultimately have "dec_uint32 (json_int (int i)) 0 = (of_nat i, None)"
    by (simp add: json_int_def dec_int_def)
  then show ?thesis
    by (simp add: handleFields_def dec_member_def find_field_def field_def zeroHandle_def)
qed

definition node_dist :: "string \<Rightarrow> nat \<Rightarrow> string" where
  "node_dist bundle i = bundle @ ''-d'' @ dec i"

lemma node_deliver_handles:
  "node_deliver b i fs w = (hs, w') \<Longrightarrow>
   hs = map (\<lambda>k. JObj [(''fileIndex'', json_int (int k)), (''distributionId'', JStr (node_dist b k))])
     [i ..< i + length fs] \<and>
   pn_dists w' = pn_dists w @ map (node_dist b) [i ..< i + length fs]"
proof (induction fs arbitrary: i w hs)
  case (Cons f fs)
  have "[i ..< i + length (f # fs)] = i # [Suc i ..< Suc i + length fs]" by (simp add: upt_rec)
  then show ?case using Cons by (fastforce simp: Let_def node_dist_def split: prod.splits)
qed simp

lemma SendAttachments_mem_http:
  assumes "b \<noteq> ''''" and "valid_utf8 b" and "list_all fileSpecOk files"
    and "length files < 2 ^ 32" and "sc_AllNodes scope"
    and "node_deliver b 0 (map fileJSON files) w = (hs, w')"
  shows "SendAttachments mem_http c b files scope prio w =
    (Inr \<lparr>sr_BundleID = b, sr_Handles = map (\<lambda>k. \<lparr>ah_FileIndex = of_nat k, ah_BlobToken = '''',
        ah_DistributionID = node_dist b k\<rparr>) [0 ..< length files]\<rparr>,
     c\<lparr>cc_bundles := kv_set b (map (node_dist b) [0 ..< length files]) (cc_bundles c)\<rparr>, w')"
proof -
  let ?sj = "json_map [(''allNodes'', json_map [])]"
  let ?req = "sendRequest b files ?sj prio"
  let ?resp = "JObj [(''bundleId'', JStr b), (''handles'', JArr hs)]"
  let ?zero = "\<lparr>sr_BundleID = '''', sr_Handles = []\<rparr>"
  let ?r = "\<lparr>sr_BundleID = b, sr_Handles = map (\<lambda>k. \<lparr>ah_FileIndex = of_nat k, ah_BlobToken = '''',
        ah_DistributionID = node_dist b k\<rparr>) [0 ..< length files]\<rparr>"
  have hs: "hs = map (\<lambda>k. JObj [(''fileIndex'', json_int (int k)), (''distributionId'', JStr (node_dist b k))])
      [0 ..< length files]"
    using node_deliver_handles [OF assms(6)] by simp
  have dist_ok: "valid_utf8 (node_dist b k)" for k
    using assms(2) by (simp add: node_dist_def valid_utf8_append)
  have "call mem_http c ''SendAttachments'' ?req (Some (dec_struct sendResultFields)) ?zero w =
    (case dec_struct sendResultFields ?resp ?zero of (r, None) \<Rightarrow> (Inr r, w')
     | (r, Some e) \<Rightarrow> (Inl (Wrapf ''peat: unmarshal'' [''SendAttachments''] e), w'))"
  proof (rule call_mem_http)
    show "json_ok ?req" using sendRequest_ok assms(2,3) by simp
    have "json_depth ?sj \<le> 2" using json_depth_map_le [of "[(''allNodes'', json_map [])]" 1] by (simp add: json_map_def)
    then show "json_depth ?req \<le> maxNestingDepth"
      using sendRequest_depth [of b files ?sj prio] by (simp add: maxNestingDepth_def)
    show "node_call ''SendAttachments'' ?req w = (?resp, w')"
      using assms(1,6) by (simp add: node_call_def sendRequest_def json_member_map json_str_def json_list_def Let_def)
    show "json_ok ?resp" using hs dist_ok assms(2) by (simp add: list_all_iff)
    have "foldr max (map json_depth hs) 0 \<le> 1" by (rule foldr_max_le) (auto simp: hs)
    then show "json_depth ?resp \<le> maxNestingDepth" by (simp add: maxNestingDepth_def)
  qed simp
  moreover have "dec_elems (dec_struct handleFields) zeroHandle hs = (sr_Handles ?r, None)"
    unfolding hs SendResult.simps using assms(4)
    by (intro dec_elems_image) (simp add: handle_decoded del: dec_struct.simps)
  then have "dec_struct sendResultFields ?resp ?zero = (?r, None)"
    by (simp add: sendResultFields_def dec_member_def find_field_def field_def del: dec_elems.simps)
  ultimately show ?thesis
    using assms(5) by (simp add: SendAttachments_def scopeJSON_def comp_def)
qed


text \<open>
  Attachments: the sidecar answers a send to all nodes with one handle for each file, in the
  order of the request.
\<close>

locale peat_attachments =
  fixes http :: "'w Http"
  assumes one_handle_per_file: "b \<noteq> '''' \<Longrightarrow> valid_utf8 b \<Longrightarrow> list_all fileSpecOk files \<Longrightarrow> length files < 2 ^ 32 \<Longrightarrow>
      SendAttachments http c b files \<lparr>sc_AllNodes = True, sc_NodeIDs = []\<rparr> prio w = (Inr res, c', w') \<Longrightarrow>
      map ah_FileIndex (sr_Handles res) = map of_nat [0 ..< length files]"

begin

lemma handle_count:
  assumes "b \<noteq> ''''" and "valid_utf8 b" and "list_all fileSpecOk files" and "length files < 2 ^ 32"
    and "SendAttachments http c b files \<lparr>sc_AllNodes = True, sc_NodeIDs = []\<rparr> prio w = (Inr res, c', w')"
  shows "length (sr_Handles res) = length files"
  using arg_cong [OF one_handle_per_file [OF assms], of length] by simp

lemma handle_index:
  assumes "b \<noteq> ''''" and "valid_utf8 b" and "list_all fileSpecOk files" and "length files < 2 ^ 32"
    and "SendAttachments http c b files \<lparr>sc_AllNodes = True, sc_NodeIDs = []\<rparr> prio w = (Inr res, c', w')"
    and "i < length files"
  shows "unat (ah_FileIndex (sr_Handles res ! i)) = i"
proof -
  have "ah_FileIndex (sr_Handles res ! i) = of_nat i"
    using arg_cong [OF one_handle_per_file [OF assms(1-5)], of "\<lambda>xs. xs ! i"] handle_count [OF assms(1-5)] assms(6)
    by simp
  then show ?thesis using assms(4,6) by (simp add: unat_of_nat)
qed

end

interpretation mem_attachments: peat_attachments "mem_http :: 'a peatworld_scheme Http"
proof
  fix b files c prio res c' and w w' :: "'a peatworld_scheme"
  assume ok: "b \<noteq> ''''" "valid_utf8 b" "list_all fileSpecOk files" "length files < 2 ^ 32"
    and send: "SendAttachments mem_http c b files \<lparr>sc_AllNodes = True, sc_NodeIDs = []\<rparr> prio w = (Inr res, c', w')"
  obtain hs w1 where "node_deliver b 0 (map fileJSON files) w = (hs, w1)" by fastforce
  from SendAttachments_mem_http [OF ok _ this, of "\<lparr>sc_AllNodes = True, sc_NodeIDs = []\<rparr>" c prio] send
  show "map ah_FileIndex (sr_Handles res) = map of_nat [0 ..< length files]" by (auto simp: comp_def)
qed


section \<open>Properties\<close>

text \<open>
  C29: a bundle is reported finished only when all its distributions are: after a successful
  \<open>SendAttachments\<close>, when \<open>WaitBundle\<close> returns without error for the bundle of the response,
  its reports are one terminal report for each handle of the response, in order, and there is
  at least one.
\<close>

theorem wait_bundle_reports_every_handle:
  assumes "SendAttachments http c bundleID files scope prio w = (Inr r, c', w1)"
    and "WaitBundle http c' (sr_BundleID r) v = Some ((progs, None), v')"
  shows "map pr_DistributionID progs = map ah_DistributionID (sr_Handles r) \<and> sr_Handles r \<noteq> [] \<and>
    list_all (\<lambda>p. Terminal (pr_Status p)) progs"
  using assms by (rule sent_then_waited)

definition exNode :: peatworld where
  "exNode = \<lparr>mf_files = [(''/outbox/kopia/p0'', ''abc'')], mw_objs = [], mw_ver = 1, mw_puts = [],
     pn_outbox = ''/outbox'', pn_inbox = ''/inbox'', pn_docs = [], pn_dists = []\<rparr>"

definition exClient :: connectClient where
  "exClient = \<lparr>cc_baseURL = ''http://peat:50051'', cc_pollInterval = defaultPollInterval, cc_bundles = []\<rparr>"

definition exFileSpec :: FileSpec where
  "exFileSpec = \<lparr>fs_RootName = ''outbox'', fs_RelativePath = ''kopia/p0'', fs_Size = 3,
     fs_SHA256 = ''sum'', fs_ContentType = '''', fs_DisplayName = ''p0''\<rparr>"

definition exHttp :: "peatworld Http" where
  "exHttp = mem_http"

lemma exFileSpec_ok: "fileSpecOk exFileSpec"
  by (simp add: fileSpecOk_def exFileSpec_def)

definition exSentNode :: peatworld where
  "exSentNode = snd (node_deliver ''daily-0000'' 0 [fileJSON exFileSpec] exNode)"

definition exSentClient :: connectClient where
  "exSentClient = exClient\<lparr>cc_bundles := [(''daily-0000'', [''daily-0000-d0''])]\<rparr>"

definition exSendResult :: SendResult where
  "exSendResult = \<lparr>sr_BundleID = ''daily-0000'',
     sr_Handles = [\<lparr>ah_FileIndex = 0, ah_BlobToken = '''', ah_DistributionID = ''daily-0000-d0''\<rparr>]\<rparr>"

lemma node_dist_0: "node_dist b 0 = b @ ''-d0''"
  by (simp add: node_dist_def dec_0)

lemma exDelivered:
  "node_deliver ''daily-0000'' 0 (map fileJSON [exFileSpec]) exNode =
     (fst (node_deliver ''daily-0000'' 0 [fileJSON exFileSpec] exNode), exSentNode)"
  by (simp add: exSentNode_def del: node_deliver.simps)

lemma exSent:
  "SendAttachments exHttp exClient ''daily-0000'' [exFileSpec] \<lparr>sc_AllNodes = True, sc_NodeIDs = []\<rparr>
     PriorityBulk exNode = (Inr exSendResult, exSentClient, exSentNode)"
proof -
  have "SendAttachments exHttp exClient ''daily-0000'' [exFileSpec] \<lparr>sc_AllNodes = True, sc_NodeIDs = []\<rparr>
      PriorityBulk exNode =
    (Inr \<lparr>sr_BundleID = ''daily-0000'', sr_Handles = map (\<lambda>k. \<lparr>ah_FileIndex = of_nat k, ah_BlobToken = '''',
        ah_DistributionID = node_dist ''daily-0000'' k\<rparr>) [0 ..< length [exFileSpec]]\<rparr>,
     exClient\<lparr>cc_bundles := kv_set ''daily-0000'' (map (node_dist ''daily-0000'') [0 ..< length [exFileSpec]])
       (cc_bundles exClient)\<rparr>, exSentNode)"
    unfolding exHttp_def
    by (rule SendAttachments_mem_http [OF _ _ _ _ _ exDelivered])
      (simp_all add: exClient_def exFileSpec_ok)
  then show ?thesis by (simp add: exSendResult_def exSentClient_def node_dist_0 exClient_def)
qed

lemma exWaited:
  "WaitBundle exHttp exSentClient ''daily-0000'' exSentNode =
     Some (([\<lparr>pr_DistributionID = ''daily-0000-d0'', pr_Status = StatusCompleted, pr_BytesTransferred = 0,
        pr_BytesTotal = 0, pr_Err = ''''\<rparr>], None), exSentNode)"
proof -
  have "''daily-0000-d0'' \<in> set (pn_dists exSentNode)"
    using node_deliver_handles [OF exDelivered] by (simp add: node_dist_0)
  then have "GetDistribution exHttp exSentClient ''daily-0000-d0'' exSentNode =
      (Inr \<lparr>pr_DistributionID = ''daily-0000-d0'', pr_Status = StatusCompleted, pr_BytesTransferred = 0,
        pr_BytesTotal = 0, pr_Err = ''''\<rparr>, exSentNode)"
    unfolding exHttp_def by (intro GetDistribution_mem_http) (simp_all add: exSentClient_def exClient_def)
  then show ?thesis
    by (simp add: WaitBundle_def bundleDistributions_def exSentClient_def waitLoop.simps waitRound_def)
qed

theorem wait_bundle_reports_every_handle_witness:
  "map ah_DistributionID (sr_Handles exSendResult) = [''daily-0000-d0'']"
  using wait_bundle_reports_every_handle [OF exSent, of exSentNode] exWaited
  by (simp add: exSendResult_def)

text \<open>
  C19: a manifest reaches the destination unchanged: when the source has put the serialised
  manifest into the document plane and the destination reads a document with the same id
  while it still holds that content, what it reads parses to the very manifest that was
  serialised. Both JSON layers, the manifest and the RPC that carries it as a string, are
  included.
\<close>

theorem manifest_reaches_destination:
  assumes "peat_documents http (cc_baseURL c) docs"
    and "manifestOk m" and "mn_SchemaVersion m = SchemaVersion" and "Marshal m = Inr data"
    and "PutDocument http c Collection docID data w = (Inr (), w1)"
    and "docs v (Collection, docID) = docs w1 (Collection, docID)"
    and "GetDocument http c Collection docID v = (Inr r, v')"
    and "valid_utf8 docID"
  shows "\<exists>body. r = Some body \<and> Parse body = Inr m"
proof -
  have data: "data = json_print (encManifest m)" using assms(4) by (simp add: Marshal_def)
  have "valid_utf8 data" unfolding data by (rule json_print_utf8) (rule encManifest_ok [OF assms(2)])
  moreover have "valid_utf8 Collection" by (simp add: Collection_def)
  ultimately have "docs w1 (Collection, docID) = Some data"
    using peat_documents.PutDocument_ok [OF assms(1,5)] assms(8) by simp
  then have "r = Some data"
    using peat_documents.GetDocument_ok [OF assms(1,7)] assms(6,8) \<open>valid_utf8 Collection\<close> by simp
  then show ?thesis
    using unmarshal_manifest [OF assms(2)] assms(3) by (simp add: Parse_def data)
qed

lemma exampleManifest_ok: "manifestOk exampleManifest" "mn_SchemaVersion exampleManifest = SchemaVersion"
  by (simp_all add: exampleManifest_def zeroManifest_def zeroFileEntry_def manifestOk_def fileEntryOk_def
      in_int64_def SchemaVersion_def)

theorem manifest_reaches_destination_witness:
  "\<exists>body. fst (GetDocument exHttp exClient Collection ''default/daily''
      (snd (PutDocument exHttp exClient Collection ''default/daily'' (projr (Marshal exampleManifest)) exNode))) =
     Inr (Some body) \<and> Parse body = Inr exampleManifest"
proof -
  let ?data = "json_print (encManifest exampleManifest)"
  have c: "valid_utf8 Collection" "valid_utf8 ''default/daily''" by (simp_all add: Collection_def)
  have d: "valid_utf8 ?data" by (rule json_print_utf8) (rule encManifest_ok [OF exampleManifest_ok(1)])
  let ?w1 = "exNode\<lparr>pn_docs := AList.update (Collection, ''default/daily'') ?data (pn_docs exNode)\<rparr>"
  have put: "PutDocument exHttp exClient Collection ''default/daily'' ?data exNode = (Inr (), ?w1)"
    unfolding exHttp_def by (rule PutDocument_mem_http) (simp_all add: exClient_def c d)
  obtain r where get: "GetDocument exHttp exClient Collection ''default/daily'' ?w1 = (Inr r, ?w1)"
    using GetDocument_mem_http [of Collection "''default/daily''" ?w1] c d
    by (auto simp: exHttp_def exClient_def update_conv' exNode_def)
  have peat: "peat_documents exHttp (cc_baseURL exClient) mem_docs"
    unfolding exHttp_def exClient_def by (simp add: mem_peat.peat_documents_axioms)
  show ?thesis
    using manifest_reaches_destination [OF peat exampleManifest_ok _ put refl get c(2)]
    by (simp add: Marshal_def put get)
qed

end
