(* ===== verification/Staging.thy ===== *)
theory Staging
  imports Minio_Store Peat_Types
begin

text \<open>
  The stager (\<open>src/src/internal/staging/outbox.go\<close>): it copies an object of the source store
  into the outbox volume through a temporary file, hashing it on the way, and removes it again
  once its bundle has been delivered. The environment of the stager, a file system and an
  object store that do not interfere, is the locale \<open>staging_env\<close>; the in-memory file system
  and the minio-backed store interpret it.
\<close>


section \<open>Model\<close>

record Stager =
  sg_RootName :: string
  sg_RootPath :: string

definition NewStager :: "string \<Rightarrow> string \<Rightarrow> Stager" where
  "NewStager rootName rootPath = \<lparr>sg_RootName = rootName, sg_RootPath = rootPath\<rparr>"

definition safeRelPath :: "string \<Rightarrow> string result" where
  "safeRelPath key =
     (if key = '''' then Inl (Errorf ''staging: empty object key'' [])
      else if has_prefix key ''/'' then Inl (Errorf ''staging: key must be relative'' [key])
      else let clean = path_clean key
           in if clean = ''.'' \<or> clean = ''..'' \<or> has_prefix clean ''../''
              then Inl (Errorf ''staging: key escapes root'' [key])
              else Inr clean)"

text \<open>The Go copy of a digest into an array of 32 bytes.\<close>

definition sum32 :: "bytes \<Rightarrow> bytes" where
  "sum32 h = take 32 (h @ replicate 32 (CHR 0x00))"

text \<open>
  The part of \<open>StageObject\<close> that runs while the deferred removal of the temporary file is
  pending: copy, close, rename.
\<close>

definition stageTemp :: "(bytes \<Rightarrow> bytes) \<Rightarrow> 'w OS \<Rightarrow> Stager \<Rightarrow> string \<Rightarrow> string \<Rightarrow> string \<Rightarrow> string \<Rightarrow>
    'w Reader \<Rightarrow> ('w, FileSpec) effect" where
  "stageTemp sha256 os s key rel dst tmpName rc w =
     (case io_copy os tmpName rc w of
        (Inl e, w1) \<Rightarrow> (Inl (Wrapf ''staging: copy'' [key] e), snd (os_Close os tmpName w1))
      | (Inr b, w1) \<Rightarrow>
          (case os_Close os tmpName w1 of
             (Inl e, w2) \<Rightarrow> (Inl (Wrapf ''staging: close'' [key] e), w2)
           | (Inr _, w2) \<Rightarrow>
               (case os_Rename os tmpName dst w2 of
                  (Inl e, w3) \<Rightarrow> (Inl (Wrapf ''staging: rename'' [key] e), w3)
                | (Inr _, w3) \<Rightarrow>
                    (Inr \<lparr>fs_RootName = sg_RootName s, fs_RelativePath = rel,
                       fs_Size = u64_of_int64 (int (length b)), fs_SHA256 = sum32 (sha256 b),
                       fs_ContentType = '''', fs_DisplayName = path_base rel\<rparr>, w3))))"

definition StageObject :: "(bytes \<Rightarrow> bytes) \<Rightarrow> 'w OS \<Rightarrow> Stager \<Rightarrow> 'w Store \<Rightarrow> string \<Rightarrow> ('w, FileSpec) effect" where
  "StageObject sha256 os s store key w =
     (case safeRelPath key of
        Inl e \<Rightarrow> (Inl e, w)
      | Inr rel \<Rightarrow>
          (let dst = filepath_join [sg_RootPath s, rel]
           in case os_MkdirAll os (path_dir dst) w of
                (Inl e, w1) \<Rightarrow> (Inl (Wrapf ''staging: mkdir'' [key] e), w1)
              | (Inr _, w1) \<Rightarrow>
                  (case st_Open store key w1 of
                     (Inl e, w2) \<Rightarrow> (Inl (Wrapf ''staging: open'' [key] e), w2)
                   | (Inr rc, w2) \<Rightarrow>
                       (case os_CreateTemp os (path_dir dst) ''.staging-*'' w2 of
                          (Inl e, w3) \<Rightarrow> (Inl (Wrapf ''staging: temp'' [key] e), w3)
                        | (Inr tmpName, w3) \<Rightarrow>
                            (case stageTemp sha256 os s key rel dst tmpName rc w3 of
                               (r, w4) \<Rightarrow> (r, snd (os_Remove os tmpName w4)))))))"

definition Release :: "'w OS \<Rightarrow> Stager \<Rightarrow> string \<Rightarrow> ('w, unit) effect" where
  "Release os s relPath w =
     (case safeRelPath relPath of
        Inl e \<Rightarrow> (Inl e, w)
      | Inr rel \<Rightarrow> os_Remove os (filepath_join [sg_RootPath s, rel]) w)"


section \<open>Safe relative paths\<close>

lemma join_dotdot:
  assumes "cs \<noteq> []" and "\<forall>c \<in> set cs. slash \<notin> set c"
  shows "hd cs = ''..'' \<longleftrightarrow> join_with slash cs = ''..'' \<or> has_prefix (join_with slash cs) ''../''"
proof -
  obtain c ds where cs: "cs = c # ds" using assms(1) by (cases cs) auto
  show ?thesis
  proof (cases ds)
    case Nil
    have "\<not> has_prefix c ''../''" using assms(2) cs by (auto simp: has_prefix_iff)
    then show ?thesis using cs Nil by simp
  next
    case (Cons d es)
    have join: "join_with slash cs = c @ slash # join_with slash ds" using cs Cons by simp
    have "c @ slash # s \<noteq> ''..''" for s by (auto simp: append_eq_Cons_conv)
    moreover have "has_prefix (c @ slash # s) ''../'' \<longleftrightarrow> c = ''..''" for s
      using append_sep_inject [of c slash s "''..''"] assms(2) cs
      by (auto simp: has_prefix_iff)
    ultimately show ?thesis unfolding join using cs by simp
  qed
qed

lemma join_neq_dot:
  assumes "cs \<noteq> []" and "list_all normal_comp cs"
  shows "join_with slash cs \<noteq> ''.''"
proof -
  have "split_on slash (join_with slash cs) = cs"
    using assms by (intro split_join) (auto simp: list_all_iff normal_comp_def)
  moreover have "split_on slash ''.'' = [''.'']" by simp
  ultimately show ?thesis using assms(2) by (auto simp: normal_comp_def)
qed

lemma safeRelPath_iff:
  "safeRelPath key = Inr rel \<longleftrightarrow> \<not> has_prefix key ''/'' \<and>
     (\<exists>pos. walk [] (split_on slash key) = Some pos \<and> pos \<noteq> [] \<and> rel = join_with slash (rev pos))"
proof (cases "key = '''' \<or> has_prefix key ''/''")
  case True
  then show ?thesis by (auto simp: safeRelPath_def)
next
  case False
  show ?thesis
  proof (cases "walk [] (split_on slash key)")
    case None
    then have cc: "clean_comps key \<noteq> []" "hd (clean_comps key) = ''..''"
      using clean_comps_rel [of key] False by auto
    then have "path_clean key = join_with slash (clean_comps key)" 
      using False by (simp add: path_clean_def)
    then show ?thesis
      using join_dotdot [OF cc(1)] clean_comps_slash_free [of key] cc(2) False None
      by (auto simp: safeRelPath_def Let_def)
  next
    case (Some pos)
    then have cc: "clean_comps key = rev pos" "list_all normal_comp pos"
      using clean_comps_rel [of key] False by auto
    show ?thesis
    proof (cases "pos = []")
      case True
      then show ?thesis using False Some cc by (auto simp: safeRelPath_def path_clean_def)
    next
      case pos: False
      have normal: "list_all normal_comp (rev pos)" using cc(2) by (simp add: list_all_iff)
      moreover have "hd (rev pos) \<noteq> ''..''"
        using cc(2) pos by (simp add: list_all_iff hd_rev normal_comp_def)
      moreover have "path_clean key = join_with slash (rev pos)"
        using False cc pos by (simp add: path_clean_def)
      ultimately have "safeRelPath key = Inr (join_with slash (rev pos))"
        using False pos join_dotdot [of "rev pos"] join_neq_dot [of "rev pos"]
        by (auto simp: safeRelPath_def Let_def list_all_iff normal_comp_def)
      then show ?thesis using Some pos False by auto
    qed
  qed
qed

lemma safeRelPath_safe:
  assumes "safeRelPath key = Inr rel"
  shows "safe_path rel"
proof -
  obtain pos where "walk [] (split_on slash key) = Some pos" "pos \<noteq> []" "rel = join_with slash (rev pos)"
    "\<not> has_prefix key ''/''"
    using assms unfolding safeRelPath_iff by blast
  moreover from this have "list_all normal_comp (rev pos)"
    using clean_comps_rel [of key] by (simp add: list_all_iff)
  ultimately show ?thesis by (simp add: safe_path_join)
qed

lemma safeRelPath_fixed: "safe_path rel \<Longrightarrow> safeRelPath rel = Inr rel"
  unfolding safeRelPath_iff using safe_path_not_rooted [of rel]
  by (simp add: walk_normal safe_path_def join_split)


section \<open>The environment\<close>

text \<open>
  A file system and an object store that do not interfere: reading objects leaves the files
  alone, and preparing the temporary file leaves the objects alone.
\<close>

locale staging_env = posix_fs os files + object_store S canon objs
  for os :: "'w OS" and files :: "'w \<Rightarrow> string \<rightharpoonup> bytes" and S :: "'w Store"
    and canon :: "string \<Rightarrow> string" and objs :: "'w \<Rightarrow> string \<rightharpoonup> bytes" +
  assumes open_files: "st_Open S k w = (opr, w') \<Longrightarrow> files w' = files w"
    and read_files: "st_Open S k w = (Inr rd, w1) \<Longrightarrow> rd w2 = (rr, w3) \<Longrightarrow> files w3 = files w2"
    and mkdir_objs: "os_MkdirAll os d w = (mr, w') \<Longrightarrow> objs w' = objs w"
    and temp_objs: "os_CreateTemp os d pat w = (tr, w') \<Longrightarrow> objs w' = objs w"

begin

text \<open>
  Copying an open object into a fresh temporary file: on success the file holds the object,
  and in no case does another file change.
\<close>

lemma copy_object:
  assumes "st_Open S key w0 = (Inr rc, w0')" and "files w t = Some []"
    and "io_copy os t rc w = (r, w')"
  shows "(\<forall>b. r = Inr b \<longrightarrow> objs w key = Some b \<and> files w' = (files w)(t \<mapsto> b)) \<and>
    (\<forall>p. p \<noteq> t \<longrightarrow> files w' p = files w p)"
proof -
  obtain b rerr w1 where rc: "rc w = ((b, rerr), w1)" by (metis surj_pair)
  have files1: "files w1 = files w" using read_files [OF assms(1) rc] .
  obtain wr w2 where wr: "os_Write os t b w1 = (wr, w2)" by fastforce
  show ?thesis
  proof (cases wr)
    case (Inl e)
    then have "r = Inl e" "w' = w2" using assms(3) rc wr by (simp_all add: io_copy_def)
    moreover have "files w2 p = files w p" if "p \<noteq> t" for p
      using write_err [OF wr [unfolded Inl] that] files1 by simp
    ultimately show ?thesis by simp
  next
    case (Inr u)
    have "files w2 = (files w)(t \<mapsto> b)"
      using write_ok [OF wr [unfolded Inr], of "[]"] assms(2) files1 by simp
    then show ?thesis
      using assms(3) rc wr Inr open_read [OF assms(1), of w b w1]
      by (cases rerr) (auto simp: io_copy_def)
  qed
qed

lemma stageTemp_files:
  assumes "st_Open S key w0 = (Inr rc, w0')" and "files w t = Some []"
    and "stageTemp sha256 os s key rel dst t rc w = (r, w')"
  shows "case r of
      Inl e \<Rightarrow> \<forall>p. p \<noteq> t \<longrightarrow> files w' p = files w p
    | Inr spec \<Rightarrow> \<exists>b. objs w key = Some b \<and> files w' = (files w)(t := None, dst \<mapsto> b) \<and>
        spec = \<lparr>fs_RootName = sg_RootName s, fs_RelativePath = rel,
          fs_Size = u64_of_int64 (int (length b)), fs_SHA256 = sum32 (sha256 b),
          fs_ContentType = '''', fs_DisplayName = path_base rel\<rparr>"
proof -
  obtain cr w1 where cp: "io_copy os t rc w = (cr, w1)" by fastforce
  note copied = copy_object [OF assms(1,2) cp]
  obtain clr w2 where cl: "os_Close os t w1 = (clr, w2)" by fastforce
  have closed: "files w2 = files w1" using close_frame [OF cl] .
  show ?thesis
  proof (cases "\<exists>b u. cr = Inr b \<and> clr = Inr u")
    case False
    then have "(\<exists>e. r = Inl e) \<and> w' = w2"
      using assms(3) cp cl by (cases cr; cases clr) (auto simp: stageTemp_def)
    then show ?thesis using copied closed by auto
  next
    case True
    then obtain b u where b: "cr = Inr b" "clr = Inr u" by blast
    have at: "objs w key = Some b" "files w2 = (files w)(t \<mapsto> b)" using copied closed b by auto
    obtain rr w3 where rn: "os_Rename os t dst w2 = (rr, w3)" by fastforce
    show ?thesis
    proof (cases rr)
      case (Inl e)
      then have "files w3 = files w2" using rename_err rn by simp
      then show ?thesis using assms(3) cp cl b rn Inl at by (auto simp: stageTemp_def)
    next
      case (Inr u')
      have "files w3 = (files w2)(t := None, dst \<mapsto> b)"
        using rename_ok [OF rn [unfolded Inr], of b] at by simp
      then show ?thesis using assms(3) cp cl b rn Inr at by (auto simp: stageTemp_def)
    qed
  qed
qed

text \<open>The outcomes of staging an object.\<close>

lemma StageObject_cases:
  assumes "StageObject sha256 os s S key w = (r, w')"
  obtains (error) e where "r = Inl e"
      "\<forall>p. \<not> has_prefix (path_base p) ''.staging-'' \<longrightarrow> files w' p = files w p"
    | (staged) rel b t where "safeRelPath key = Inr rel" "objs w key = Some b"
      "r = Inr \<lparr>fs_RootName = sg_RootName s, fs_RelativePath = rel,
         fs_Size = u64_of_int64 (int (length b)), fs_SHA256 = sum32 (sha256 b),
         fs_ContentType = '''', fs_DisplayName = path_base rel\<rparr>"
      "has_prefix (path_base t) ''.staging-''"
      "t \<noteq> filepath_join [sg_RootPath s, rel] \<Longrightarrow>
         files w' = (files w)(filepath_join [sg_RootPath s, rel] \<mapsto> b)"
proof (cases "safeRelPath key")
  case (Inl e)
  then show ?thesis using assms by (auto simp: StageObject_def intro!: error)
next
  case (Inr rel)
  let ?dst = "filepath_join [sg_RootPath s, rel]"
  obtain mr w1 where mk: "os_MkdirAll os (path_dir ?dst) w = (mr, w1)" by fastforce
  obtain opr w2 where op: "st_Open S key w1 = (opr, w2)" by fastforce
  obtain tr w3 where te: "os_CreateTemp os (path_dir ?dst) ''.staging-*'' w2 = (tr, w3)" by fastforce
  have same: "files w1 = files w" "files w2 = files w" "objs w1 = objs w"
    using mkdir_frame [OF mk] open_files [OF op] mkdir_objs [OF mk] by simp_all
  show ?thesis
  proof (cases "\<exists>u rc t. mr = Inr u \<and> opr = Inr rc \<and> tr = Inr t")
    case False
    then consider e where "mr = Inl e" | u e where "mr = Inr u" "opr = Inl e"
      | u rc e where "mr = Inr u" "opr = Inr rc" "tr = Inl e"
      by (cases mr; cases opr; cases tr) blast+
    then have "(\<exists>e. r = Inl e) \<and> files w' = files w"
    proof cases
      case 1
      then show ?thesis using assms Inr mk same by (auto simp: StageObject_def Let_def)
    next
      case 2
      then show ?thesis using assms Inr mk op same by (auto simp: StageObject_def Let_def)
    next
      case 3
      then have "StageObject sha256 os s S key w = (Inl (Wrapf ''staging: temp'' [key] e), w3)"
        by (simp add: StageObject_def Inr mk op te Let_def)
      then have "r = Inl (Wrapf ''staging: temp'' [key] e)" "w' = w3" using assms by simp_all
      moreover have "files w3 = files w2" using te unfolding 3(3) by (rule temp_err)
      ultimately show ?thesis using same(2) by simp
    qed
    then obtain e where "r = Inl e" and "files w' = files w" by blast
    then show ?thesis by (intro error) simp_all
  next
    case True
    then obtain u rc t where ok: "mr = Inr u" "opr = Inr rc" "tr = Inr t" by blast
    have fresh: "files w t = None" "has_prefix (path_base t) ''.staging-''" "files w3 = (files w)(t \<mapsto> [])"
      using temp_fresh [OF te [unfolded ok]] same(2) by auto
    have objs3: "objs w3 = objs w"
      using temp_objs [OF te] open_frame [OF op [unfolded ok]] same by simp
    obtain sr w4 where st: "stageTemp sha256 os s key rel ?dst t rc w3 = (sr, w4)" by fastforce
    have out: "r = sr" "w' = snd (os_Remove os t w4)"
      using assms Inr mk op te ok st by (auto simp: StageObject_def Let_def)
    note tmp = stageTemp_files [OF op [unfolded ok] _ st]
    show ?thesis
    proof (cases sr)
      case (Inl e)
      have "files w' p = files w p" if "\<not> has_prefix (path_base p) ''.staging-''" for p
        using tmp Inl fresh that remove_other [of p t w4] out by fastforce
      then show ?thesis using error out Inl by blast
    next
      case spec: (Inr spec)
      then obtain b where b: "objs w key = Some b" "files w4 = (files w3)(t := None, ?dst \<mapsto> b)"
        "spec = \<lparr>fs_RootName = sg_RootName s, fs_RelativePath = rel,
           fs_Size = u64_of_int64 (int (length b)), fs_SHA256 = sum32 (sha256 b),
           fs_ContentType = '''', fs_DisplayName = path_base rel\<rparr>"
        using tmp fresh objs3 by auto
      have "files w' = (files w)(?dst \<mapsto> b)" if "t \<noteq> ?dst"
        using remove_absent [of w4 t] that b(2) fresh out(2) by (auto simp: fun_eq_iff)
      then show ?thesis using staged [OF Inr b(1) _ fresh(2)] out spec b(3) by blast
    qed
  qed
qed

lemma StageObject_outcome:
  assumes "StageObject sha256 os s S key w = (r, w')" and "abs_root (sg_RootPath s)"
    and "\<not> has_prefix (path_base (path_clean key)) ''.staging-''"
  shows "case r of
      Inl e \<Rightarrow> \<forall>p. \<not> has_prefix (path_base p) ''.staging-'' \<longrightarrow> files w' p = files w p
    | Inr spec \<Rightarrow> \<exists>b. objs w key = Some b \<and> safeRelPath key = Inr (fs_RelativePath spec) \<and>
        files w' = (files w)(sg_RootPath s @ slash # fs_RelativePath spec \<mapsto> b) \<and>
        fs_RootName spec = sg_RootName s \<and> fs_Size spec = u64_of_int64 (int (length b)) \<and>
        fs_SHA256 spec = sum32 (sha256 b)"
  using assms(1)
proof (cases rule: StageObject_cases)
  case (staged rel b t)
  have safe: "safe_path rel" using safeRelPath_safe staged(1) .
  have dst: "filepath_join [sg_RootPath s, rel] = sg_RootPath s @ slash # rel"
    using assms(2) safe by (rule join_below_root)
  have "path_base (sg_RootPath s @ slash # rel) = path_base (path_clean key)"
    using staged(1) path_base_below [OF safe] by (auto simp: safeRelPath_def Let_def split: if_splits)
  then have "t \<noteq> sg_RootPath s @ slash # rel" using staged(4) assms(3) by metis
  then have "files w' = (files w)(sg_RootPath s @ slash # rel \<mapsto> b)" using staged(5) dst by simp
  then show ?thesis using staged(1-3) by auto
qed simp

text \<open>Releasing a path removes at most the staged file.\<close>

lemma Release_files:
  assumes "Release os s rel w = (r, w')" and "safe_path rel"
  shows "(\<forall>u. r = Inr u \<longrightarrow> files w' = (files w)(filepath_join [sg_RootPath s, rel] := None)) \<and>
    (\<forall>e. r = Inl e \<longrightarrow> files w' = files w)"
  using assms safeRelPath_fixed [OF assms(2)] by (auto simp: Release_def dest: remove_ok remove_err)

end

interpretation mem_staging: staging_env mem_os "\<lambda>w. map_of (mf_files w)"
    "minio_Store \<lparr>ms_client = mem_client bkt :: 'a memworld_scheme MinioClient, ms_bucket = bkt, ms_prefix = pfx\<rparr>"
    "fullKey pfx" "\<lambda>w k. mem_store w (fullKey pfx k)"
  for bkt pfx
proof (intro staging_env.intro staging_env_axioms.intro)
  show "posix_fs (mem_os :: 'a memworld_scheme OS) (\<lambda>w. map_of (mf_files w))"
    by unfold_locales
next
  fix k and w1 w2 w3 w4 :: "'a memworld_scheme" and rd rr
  assume "st_Open (minio_Store \<lparr>ms_client = mem_client bkt, ms_bucket = bkt, ms_prefix = pfx\<rparr>) k w1 = (Inr rd, w2)"
  then have "rd = mem_read bkt bkt (fullKey pfx k)"
    by (simp add: minio_Store_def Open_minio_def mem_client_def)
  moreover assume "rd w3 = (rr, w4)"
  ultimately show "map_of (mf_files w4) = map_of (mf_files w3)"
    by (auto simp: mem_read_def split: option.splits)
qed (rule mem_s3.data_store,
  auto simp: mem_os_def minio_Store_def Open_minio_def mem_client_def mem_store_def Let_def)


section \<open>Properties\<close>

lemma example_staging_env:
  "staging_env (mem_os :: memworld OS) (\<lambda>w. map_of (mf_files w)) (minio_Store exampleStore)
     (fullKey ''backups'') (\<lambda>w k. mem_store w (fullKey ''backups'' k))"
  unfolding exampleStore_def by (rule mem_staging.staging_env_axioms)

definition exOutbox :: memworld where
  "exOutbox = exampleWorld\<lparr>mf_files := [(''/outbox/old'', ''x'')]\<rparr>"

definition exStager :: Stager where
  "exStager = NewStager ''outbox'' ''/outbox''"

abbreviation exSum :: "bytes \<Rightarrow> bytes" where
  "exSum b \<equiv> replicate 32 (CHR ''s'')"

abbreviation exStaged :: memworld where
  "exStaged \<equiv> snd (StageObject exSum mem_os exStager (minio_Store exampleStore) ''kopia/p0'' exOutbox)"

definition exSpec :: FileSpec where
  "exSpec = \<lparr>fs_RootName = ''outbox'', fs_RelativePath = ''kopia/p0'', fs_Size = u64_of_int64 3,
     fs_SHA256 = replicate 32 (CHR ''s''), fs_ContentType = '''', fs_DisplayName = ''p0''\<rparr>"

lemma exStage_run:
  "StageObject exSum mem_os exStager (minio_Store exampleStore) ''kopia/p0'' exOutbox = (Inr exSpec, exStaged)"
proof -
  have "fst (StageObject exSum mem_os exStager (minio_Store exampleStore) ''kopia/p0'' exOutbox) = Inr exSpec"
    by code_simp
  then show ?thesis by (simp only: prod_eq_iff fst_conv snd_conv)
qed

lemma exStager_root: "abs_root (sg_RootPath exStager)"
  by code_simp

lemma exStager_path: "sg_RootPath exStager = ''/outbox''"
  by code_simp

lemma exSpec_path: "fs_RelativePath exSpec = ''kopia/p0''"
  by (simp add: exSpec_def)

lemma exKey_base: "\<not> has_prefix (path_base (path_clean ''kopia/p0'')) ''.staging-''"
  by code_simp

lemma exObject: "mem_store exOutbox (fullKey ''backups'' ''kopia/p0'') = Some ''abc''"
  by code_simp

text \<open>
  C35: an object key is accepted exactly when it is a relative path that, followed element by
  element from the root, never leaves the root and does not end at the root itself. The
  accepted path is the position reached, a sequence of ordinary names joined by slashes, and
  accepting it again returns it unchanged, so \<open>Release\<close> finds what \<open>StageObject\<close> wrote.
\<close>

theorem safe_paths_stay_inside_root:
  "(safeRelPath key = Inr rel \<longleftrightarrow> \<not> has_prefix key ''/'' \<and>
     (\<exists>pos. walk [] (split_on slash key) = Some pos \<and> pos \<noteq> [] \<and> rel = join_with slash (rev pos))) \<and>
   (safeRelPath key = Inr rel \<longrightarrow> safe_path rel \<and> safeRelPath rel = Inr rel)"
  using safeRelPath_iff safeRelPath_safe safeRelPath_fixed by blast

theorem safe_paths_stay_inside_root_witness:
  "safeRelPath ''kopia/../backups/./b1'' = Inr ''backups/b1'' \<and> safe_path ''backups/b1'' \<and>
   safeRelPath ''backups/b1'' = Inr ''backups/b1''"
proof -
  have "safeRelPath ''kopia/../backups/./b1'' = Inr ''backups/b1''" by code_simp
  then show ?thesis
    using safe_paths_stay_inside_root [of "''kopia/../backups/./b1''" "''backups/b1''"] by blast
qed

text \<open>
  C17: staging publishes whole objects only. When \<open>StageObject\<close> succeeds, the file below the
  clean absolute root at the safe relative path holds exactly the bytes of the object in the
  source store, no other file has changed (the temporary file is gone), and the description
  carries the root, that path and the size and SHA-256 of these bytes. When it fails, at
  whatever step, no file other than a temporary one has changed. Keys whose last element
  begins like a temporary name are excluded.
\<close>

theorem staging_publishes_whole_objects:
  assumes "staging_env os files S canon objs"
    and "StageObject sha256 os s S key w = (r, w')"
    and "abs_root (sg_RootPath s)"
    and "\<not> has_prefix (path_base (path_clean key)) ''.staging-''"
  shows "case r of
      Inl e \<Rightarrow> \<forall>p. \<not> has_prefix (path_base p) ''.staging-'' \<longrightarrow> files w' p = files w p
    | Inr spec \<Rightarrow> \<exists>b. objs w key = Some b \<and> safeRelPath key = Inr (fs_RelativePath spec) \<and>
        files w' = (files w)(sg_RootPath s @ slash # fs_RelativePath spec \<mapsto> b) \<and>
        fs_RootName spec = sg_RootName s \<and> fs_Size spec = u64_of_int64 (int (length b)) \<and>
        fs_SHA256 spec = sum32 (sha256 b)"
  using assms by (rule staging_env.StageObject_outcome)

theorem staging_publishes_whole_objects_witness:
  "map_of (mf_files exStaged) ''/outbox/kopia/p0'' = Some ''abc''"
  using staging_publishes_whole_objects [OF example_staging_env exStage_run exStager_root exKey_base]
    exObject by (simp add: exSpec_path exStager_path)

text \<open>
  Releasing a staged file undoes the staging: when \<open>Release\<close> is called with the path that
  \<open>StageObject\<close> returned and reports success, the file is gone and every other file is as it
  was before the object was staged; when it reports an error, no file has changed.
\<close>

theorem release_undoes_staging:
  assumes "staging_env os files S canon objs"
    and "StageObject sha256 os s S key w = (Inr spec, w1)"
    and "abs_root (sg_RootPath s)"
    and "\<not> has_prefix (path_base (path_clean key)) ''.staging-''"
    and "files v = files w1"
    and "Release os s (fs_RelativePath spec) v = (r, v')"
  shows "case r of
      Inr u \<Rightarrow> files v' = (files w)(sg_RootPath s @ slash # fs_RelativePath spec := None)
    | Inl e \<Rightarrow> files v' = files v"
proof -
  obtain b where "safe_path (fs_RelativePath spec)"
    "files w1 = (files w)(sg_RootPath s @ slash # fs_RelativePath spec \<mapsto> b)"
    using staging_env.StageObject_outcome [OF assms(1-4)] safeRelPath_safe by auto
  moreover from this have "filepath_join [sg_RootPath s, fs_RelativePath spec] =
      sg_RootPath s @ slash # fs_RelativePath spec"
    using assms(3) by (intro join_below_root)
  ultimately show ?thesis
    using staging_env.Release_files [OF assms(1,6)] assms(5) by (auto split: sum.splits)
qed

theorem release_undoes_staging_witness:
  "map_of (mf_files (snd (Release mem_os exStager ''kopia/p0'' exStaged))) = map_of (mf_files exOutbox)"
proof -
  have "fst (Release mem_os exStager ''kopia/p0'' exStaged) = Inr ()" by code_simp
  then have run: "Release mem_os exStager (fs_RelativePath exSpec) exStaged =
      (Inr (), snd (Release mem_os exStager ''kopia/p0'' exStaged))"
    unfolding exSpec_path by (simp only: prod_eq_iff fst_conv snd_conv)
  have "map_of (mf_files exOutbox) ''/outbox/kopia/p0'' = None" by (simp add: exOutbox_def)
  then show ?thesis
    using release_undoes_staging [OF example_staging_env exStage_run exStager_root exKey_base refl run]
    by (simp add: exSpec_path exStager_path fun_upd_idem)
qed

end
