(* ===== verification/Importer.thy ===== *)
theory Importer
  imports Minio_Store Manifest
begin

text \<open>
  The destination importer (\<open>src/src/internal/importer/importer.go\<close>): locating the landed
  inbox files of a manifest, verifying them, and writing them to the destination store with
  the discovery object last. The inbox is observed in the state of the world at each step, so
  files may land between any two store operations. The hash function is a parameter.
\<close>


section \<open>Model\<close>

definition veleroDiscoveryObject :: string where
  "veleroDiscoveryObject = ''velero-backup.json''"

definition errNotLanded :: goerr where
  "errNotLanded = Sentinel ''inbox file not fully landed''"

record 'w Importer =
  im_InboxRoot :: string
  im_Store :: "'w Store"

record Result =
  res_FilesImported :: int
  res_BytesImported :: int
  res_Pending :: int
  res_Committed :: bool

definition zeroResult :: Result where
  "zeroResult = \<lparr>res_FilesImported = 0, res_BytesImported = 0, res_Pending = 0, res_Committed = False\<rparr>"

type_synonym inboxIndex = "string \<Rightarrow> string list"

definition fileExists :: "'w OS \<Rightarrow> string \<Rightarrow> 'w \<Rightarrow> bool" where
  "fileExists os p w = (case os_Stat os p w of Inl _ \<Rightarrow> False | Inr isDir \<Rightarrow> \<not> isDir)"

definition hashFile :: "(bytes \<Rightarrow> bytes) \<Rightarrow> 'w OS \<Rightarrow> string \<Rightarrow> 'w \<Rightarrow> (string \<times> int) result" where
  "hashFile sha256 os p w =
     (case os_Open os p w of
        Inl e \<Rightarrow> Inl e
      | Inr _ \<Rightarrow> (case os_Read os p w of
          Inl e \<Rightarrow> Inl e
        | Inr b \<Rightarrow> Inr (hex_encode (sha256 b), int (length b))))"

definition verify :: "(bytes \<Rightarrow> bytes) \<Rightarrow> 'w OS \<Rightarrow> string \<Rightarrow> FileEntry \<Rightarrow> 'w \<Rightarrow> goerr option" where
  "verify sha256 os p e w =
     (case hashFile sha256 os p w of
        Inl err \<Rightarrow> Some (Wrapf ''hash inbox'' [p] err)
      | Inr (hsum, n) \<Rightarrow>
          if n \<noteq> fe_Size e then Some (Wrapf ''size != manifest'' [p] errNotLanded)
          else if hsum \<noteq> fe_SHA256 e then Some (Errorf ''sha256 mismatch'' [fe_Key e, hsum, fe_SHA256 e])
          else None)"

fun walkIndex :: "(string \<times> bool result) list \<Rightarrow> inboxIndex \<Rightarrow> inboxIndex result" where
  "walkIndex [] idx = Inr idx"
| "walkIndex ((p, Inl err) # evs) idx = (if is_not_exist err then walkIndex evs idx else Inl err)"
| "walkIndex ((p, Inr isDir) # evs) idx =
     (if isDir then walkIndex evs idx
      else let b = path_base p in walkIndex evs (idx(b := idx b @ [p])))"

definition newInboxIndex :: "'w OS \<Rightarrow> string \<Rightarrow> 'w \<Rightarrow> inboxIndex result" where
  "newInboxIndex os root w =
     (case walkIndex (os_Walk os root w) (\<lambda>_. []) of
        Inl e \<Rightarrow> Inl (Wrapf ''scan inbox'' [root] e) | Inr idx \<Rightarrow> Inr idx)"

fun findCandidate :: "(bytes \<Rightarrow> bytes) \<Rightarrow> 'w OS \<Rightarrow> FileEntry \<Rightarrow> 'w \<Rightarrow> string list \<Rightarrow> string option" where
  "findCandidate sha256 os e w [] = None"
| "findCandidate sha256 os e w (cand # cands) =
     (case hashFile sha256 os cand w of
        Inr (hsum, n) \<Rightarrow>
          if n = fe_Size e \<and> hsum = fe_SHA256 e then Some cand
          else findCandidate sha256 os e w cands
      | Inl _ \<Rightarrow> findCandidate sha256 os e w cands)"

text \<open>
  \<open>locate\<close> returns the path of a candidate, if there is one, and the index, which it builds
  on first use.
\<close>

definition locate :: "(bytes \<Rightarrow> bytes) \<Rightarrow> 'w OS \<Rightarrow> string \<Rightarrow> FileEntry \<Rightarrow> inboxIndex option \<Rightarrow> 'w \<Rightarrow>
    (string option \<times> inboxIndex option) result" where
  "locate sha256 os inboxRoot e idx w =
     (let primary = filepath_join [inboxRoot, fe_DistributionID e, fe_Basename e]
      in if fe_DistributionID e \<noteq> '''' \<and> fileExists os primary w then Inr (Some primary, idx)
         else case (case idx of Some i \<Rightarrow> Inr i | None \<Rightarrow> newInboxIndex os inboxRoot w) of
             Inl err \<Rightarrow> Inl err
           | Inr i \<Rightarrow> Inr (findCandidate sha256 os e w (i (fe_Basename e)), Some i))"

text \<open>
  \<open>importOne\<close> returns the flag \<open>done\<close> and the bytes written, or an error, with the index and
  the new state of the world.
\<close>

definition importOne :: "(bytes \<Rightarrow> bytes) \<Rightarrow> 'w OS \<Rightarrow> 'w Importer \<Rightarrow> FileEntry \<Rightarrow> inboxIndex option \<Rightarrow> 'w \<Rightarrow>
    (bool \<times> int) result \<times> inboxIndex option \<times> 'w" where
  "importOne sha256 os im e idx w =
     (case st_Stat (im_Store im) (fe_Key e) w of
        (Inl serr, w1) \<Rightarrow> (Inl (Wrapf ''stat dest'' [fe_Key e] serr), idx, w1)
      | (Inr (info, ok), w1) \<Rightarrow>
          if ok \<and> oi_Size info = fe_Size e then (Inr (True, 0), idx, w1)
          else case locate sha256 os (im_InboxRoot im) e idx w1 of
              Inl lerr \<Rightarrow> (Inl lerr, idx, w1)
            | Inr (None, idx') \<Rightarrow> (Inr (False, 0), idx', w1)
            | Inr (Some src, idx') \<Rightarrow>
                (case verify sha256 os src e w1 of
                   Some verr \<Rightarrow>
                     if errors_is verr errNotLanded then (Inr (False, 0), idx', w1)
                     else (Inl verr, idx', w1)
                 | None \<Rightarrow>
                     (case os_Open os src w1 of
                        Inl err \<Rightarrow> (Inl (Wrapf ''open inbox'' [src] err), idx', w1)
                      | Inr _ \<Rightarrow>
                          (case st_Put (im_Store im) (fe_Key e) (file_reader os src) (fe_Size e) '''' w1 of
                             (Inl err, w2) \<Rightarrow> (Inl (Wrapf ''put dest'' [fe_Key e] err), idx', w2)
                           | (Inr _, w2) \<Rightarrow> (Inr (True, fe_Size e), idx', w2)))))"

definition isDiscovery :: "FileEntry \<Rightarrow> bool" where
  "isDiscovery e \<longleftrightarrow> path_base (fe_Key e) = veleroDiscoveryObject"

definition countImported :: "Result \<Rightarrow> int \<Rightarrow> Result" where
  "countImported res n = res\<lparr>res_FilesImported := res_FilesImported res + 1,
     res_BytesImported := wrap64 (res_BytesImported res + n)\<rparr>"

text \<open>
  The first loop of \<open>Import\<close>: discovery objects are set aside in \<open>commit\<close>, the others are
  imported. The result carries the error that ended the loop, if any.
\<close>

fun importData :: "(bytes \<Rightarrow> bytes) \<Rightarrow> 'w OS \<Rightarrow> 'w Importer \<Rightarrow> FileEntry list \<Rightarrow>
    Result \<Rightarrow> FileEntry list \<Rightarrow> inboxIndex option \<Rightarrow> 'w \<Rightarrow>
    Result \<times> goerr option \<times> FileEntry list \<times> inboxIndex option \<times> 'w" where
  "importData sha256 os im [] res commit idx w = (res, None, commit, idx, w)"
| "importData sha256 os im (e # es) res commit idx w =
     (if isDiscovery e then importData sha256 os im es res (commit @ [e]) idx w
      else case importOne sha256 os im e idx w of
          (Inl err, idx', w') \<Rightarrow> (res, Some err, commit, idx', w')
        | (Inr (done, n), idx', w') \<Rightarrow>
            if \<not> done
            then importData sha256 os im es (res\<lparr>res_Pending := res_Pending res + 1\<rparr>) commit idx' w'
            else importData sha256 os im es (countImported res n) commit idx' w')"

text \<open>
  The second loop: a discovery object whose bytes have not landed ends the pass. The last
  component tells whether the loop ran to its end.
\<close>

fun importCommit :: "(bytes \<Rightarrow> bytes) \<Rightarrow> 'w OS \<Rightarrow> 'w Importer \<Rightarrow> FileEntry list \<Rightarrow>
    Result \<Rightarrow> inboxIndex option \<Rightarrow> 'w \<Rightarrow> Result \<times> goerr option \<times> 'w \<times> bool" where
  "importCommit sha256 os im [] res idx w = (res, None, w, True)"
| "importCommit sha256 os im (e # es) res idx w =
     (case importOne sha256 os im e idx w of
        (Inl err, idx', w') \<Rightarrow> (res, Some err, w', False)
      | (Inr (done, n), idx', w') \<Rightarrow>
          if \<not> done then (res\<lparr>res_Pending := res_Pending res + 1\<rparr>, None, w', False)
          else importCommit sha256 os im es (countImported res n) idx' w')"

definition Import :: "(bytes \<Rightarrow> bytes) \<Rightarrow> 'w OS \<Rightarrow> 'w Importer \<Rightarrow> Manifest \<Rightarrow> 'w \<Rightarrow>
    (Result \<times> goerr option) \<times> 'w" where
  "Import sha256 os im m w =
     (case importData sha256 os im (mn_Files m) zeroResult [] None w of
        (res, Some err, commit, idx, w1) \<Rightarrow> ((res, Some err), w1)
      | (res, None, commit, idx, w1) \<Rightarrow>
          if res_Pending res > 0 then ((res, None), w1)
          else case importCommit sha256 os im commit res idx w1 of
              (res', err, w2, ended) \<Rightarrow>
                if ended then ((res'\<lparr>res_Committed := (res_Pending res' = 0)\<rparr>, None), w2)
                else ((res', err), w2))"



section \<open>What a pass may do to the store\<close>

text \<open>
  Bytes that match the manifest entry, an entry present in the store at its size, manifests
  whose entries for one object agree on its size, and a change of the store that only writes
  verified bytes of the given entries.
\<close>

definition entryVerified :: "(bytes \<Rightarrow> bytes) \<Rightarrow> FileEntry \<Rightarrow> bytes \<Rightarrow> bool" where
  "entryVerified sha256 e b \<longleftrightarrow> hex_encode (sha256 b) = fe_SHA256 e \<and> int (length b) = fe_Size e"

definition presentAt :: "('w \<Rightarrow> string \<rightharpoonup> bytes) \<Rightarrow> 'w \<Rightarrow> FileEntry \<Rightarrow> bool" where
  "presentAt objs w e \<longleftrightarrow> (\<exists>b. objs w (fe_Key e) = Some b \<and> int (length b) = fe_Size e)"

definition sizesAgree :: "(string \<Rightarrow> string) \<Rightarrow> FileEntry list \<Rightarrow> bool" where
  "sizesAgree canon es \<longleftrightarrow>
     (\<forall>e \<in> set es. \<forall>e' \<in> set es. canon (fe_Key e) = canon (fe_Key e') \<longrightarrow> fe_Size e = fe_Size e')"

definition verifiedChange :: "(bytes \<Rightarrow> bytes) \<Rightarrow> (string \<Rightarrow> string) \<Rightarrow> FileEntry set \<Rightarrow>
    (string \<rightharpoonup> bytes) \<Rightarrow> (string \<rightharpoonup> bytes) \<Rightarrow> bool" where
  "verifiedChange sha256 canon E o1 o2 \<longleftrightarrow>
     (\<forall>k. o2 k \<noteq> o1 k \<longrightarrow>
       (\<exists>e \<in> E. \<exists>b. canon k = canon (fe_Key e) \<and> o2 k = Some b \<and> entryVerified sha256 e b))"

lemma sizesAgree_subset: "sizesAgree canon es \<Longrightarrow> set es' \<subseteq> set es \<Longrightarrow> sizesAgree canon es'"
  unfolding sizesAgree_def by blast

lemma sizesAgreeD:
  "sizesAgree canon es \<Longrightarrow> e \<in> set es \<Longrightarrow> e' \<in> set es \<Longrightarrow> canon (fe_Key e) = canon (fe_Key e') \<Longrightarrow>
   fe_Size e' = fe_Size e"
  unfolding sizesAgree_def by metis

lemma verifiedChange_refl [simp]: "verifiedChange sha256 canon E os os"
  by (simp add: verifiedChange_def)

lemma verifiedChange_trans:
  "verifiedChange sha256 canon E o1 o2 \<Longrightarrow> verifiedChange sha256 canon E o2 o3 \<Longrightarrow>
   verifiedChange sha256 canon E o1 o3"
  unfolding verifiedChange_def by metis

lemma verifiedChange_mono:
  "verifiedChange sha256 canon E o1 o2 \<Longrightarrow> E \<subseteq> F \<Longrightarrow> verifiedChange sha256 canon F o1 o2"
  unfolding verifiedChange_def by blast

text \<open>A verified change keeps an entry present if the entries written agree with its size.\<close>

lemma presentAt_verifiedChange:
  assumes "presentAt objs w e" and "verifiedChange sha256 canon E (objs w) (objs w')"
    and "\<forall>e' \<in> E. canon (fe_Key e) = canon (fe_Key e') \<longrightarrow> fe_Size e' = fe_Size e"
  shows "presentAt objs w' e"
proof (cases "objs w' (fe_Key e) = objs w (fe_Key e)")
  case False
  then obtain e' b where "e' \<in> E" "canon (fe_Key e) = canon (fe_Key e')"
    "objs w' (fe_Key e) = Some b" "entryVerified sha256 e' b"
    using assms(2) unfolding verifiedChange_def by blast
  then show ?thesis using assms(3) by (auto simp: presentAt_def entryVerified_def)
qed (use assms(1) in \<open>simp add: presentAt_def\<close>)

lemma verify_None:
  "verify sha256 os p e w = None \<Longrightarrow>
   \<exists>b. os_Read os p w = Inr b \<and> entryVerified sha256 e b \<and> file_reader os p w = ((b, None), w)"
  by (auto simp: verify_def hashFile_def entryVerified_def file_reader_def
      split: sum.splits prod.splits if_splits)


section \<open>One entry\<close>

context object_store
begin

text \<open>
  The outcomes of \<open>importOne\<close>: an error or a pending entry, an entry that was already
  present, or an entry written from verified bytes. An error may leave the verified bytes
  behind when the store accepted them before it failed.
\<close>

lemma importOne_cases:
  assumes "importOne sha256 os im e idx w = (r, idx', w')" and "im_Store im = S"
  obtains (error) err where "r = Inl err" "verifiedChange sha256 canon {e} (objs w) (objs w')"
    | (pending) "r = Inr (False, 0)" "objs w' = objs w" "\<not> presentAt objs w e"
    | (skipped) "r = Inr (True, 0)" "objs w' = objs w" "presentAt objs w e"
    | (written) b where "r = Inr (True, fe_Size e)" "entryVerified sha256 e b"
        "objs w' = (\<lambda>k. if canon k = canon (fe_Key e) then Some b else objs w k)"
        "\<not> presentAt objs w e"
proof (cases "st_Stat S (fe_Key e) w")
  case (Pair sr w1)
  have frame: "objs w1 = objs w" using Pair by (rule stat_frame)
  show ?thesis
  proof (cases sr)
    case (Inl serr)
    then show ?thesis using assms Pair frame by (auto simp: importOne_def intro!: error)
  next
    case (Inr io)
    obtain info ok where io: "io = (info, ok)" by (cases io)
    have here: "presentAt objs w e \<longleftrightarrow> ok \<and> oi_Size info = fe_Size e"
      using stat_present [of _ w info w1] stat_absent [of _ w info w1] Pair Inr io
      by (cases ok) (fastforce simp: presentAt_def)+
    show ?thesis
    proof (cases "ok \<and> oi_Size info = fe_Size e")
      case True
      then show ?thesis using assms Pair Inr io frame here skipped by (simp add: importOne_def)
    next
      case False
      show ?thesis
      proof (cases "\<exists>src i. locate sha256 os (im_InboxRoot im) e idx w1 = Inr (Some src, i) \<and>
          verify sha256 os src e w1 = None \<and> os_Open os src w1 = Inr ()")
        case True
        then obtain src i where loc: "locate sha256 os (im_InboxRoot im) e idx w1 = Inr (Some src, i)"
          and ver: "verify sha256 os src e w1 = None" and op: "os_Open os src w1 = Inr ()" by blast
        obtain b where b: "entryVerified sha256 e b" "file_reader os src w1 = ((b, None), w1)"
          using verify_None [OF ver] by blast
        obtain pr w2 where put: "st_Put S (fe_Key e) (file_reader os src) (fe_Size e) '''' w1 = (pr, w2)"
          by fastforce
        have len: "int (length b) = fe_Size e" using b(1) by (simp add: entryVerified_def)
        show ?thesis
        proof (cases pr)
          case (Inl err)
          have "verifiedChange sha256 canon {e} (objs w) (objs w2)"
            using put_cases [OF put b(2) len] b(1) frame
            by (auto simp: verifiedChange_def split: if_splits)
          then show ?thesis
            using assms Pair Inr io False loc ver op put Inl error by (auto simp: importOne_def)
        next
          case (Inr u)
          have "objs w2 = (\<lambda>k. if canon k = canon (fe_Key e) then Some b else objs w k)"
            using put_ok [OF put [unfolded Inr] b(2) len] unfolding frame by simp
          then show ?thesis
            using assms Pair \<open>sr = Inr io\<close> io False loc ver op put Inr b here written
            by (auto simp: importOne_def)
        qed
      next
        case no: False
        have "w' = w1 \<and> ((\<exists>err. r = Inl err) \<or> r = Inr (False, 0))"
          using assms Pair Inr io False no
          by (auto simp: importOne_def split: sum.splits prod.splits option.splits if_splits)
        then show ?thesis using frame here False error pending by auto
      qed
    qed
  qed
qed

lemma importOne_change:
  "importOne sha256 os im e idx w = (r, idx', w') \<Longrightarrow> im_Store im = S \<Longrightarrow>
   verifiedChange sha256 canon {e} (objs w) (objs w')"
  by (erule importOne_cases) (auto simp: verifiedChange_def)

lemma importOne_done:
  "importOne sha256 os im e idx w = (Inr (True, n), idx', w') \<Longrightarrow> im_Store im = S \<Longrightarrow>
   presentAt objs w' e"
  by (erule importOne_cases) (auto simp: presentAt_def entryVerified_def)

lemma importOne_pending:
  "importOne sha256 os im e idx w = (Inr (False, n), idx', w') \<Longrightarrow> im_Store im = S \<Longrightarrow>
   objs w' = objs w \<and> n = 0 \<and> \<not> presentAt objs w e"
  by (erule importOne_cases) auto

lemma importOne_present:
  "importOne sha256 os im e idx w = (Inr (d, n), idx', w') \<Longrightarrow> im_Store im = S \<Longrightarrow>
   presentAt objs w e \<Longrightarrow> d \<and> n = 0 \<and> objs w' = objs w"
  by (erule importOne_cases) auto



section \<open>The two loops\<close>

lemma sel_countImported [simp]:
  "res_FilesImported (countImported res n) = res_FilesImported res + 1"
  "res_Pending (countImported res n) = res_Pending res"
  "res_Committed (countImported res n) = res_Committed res"
  "res_BytesImported (countImported res n) = wrap64 (res_BytesImported res + n)"
  by (simp_all add: countImported_def)

lemma importData_change:
  assumes "importData sha256 os im es res commit idx w = (res', err, commit', idx', w')"
    and "im_Store im = S"
  shows "verifiedChange sha256 canon {e \<in> set es. \<not> isDiscovery e} (objs w) (objs w')"
  using assms
proof (induction es arbitrary: res commit idx w)
  case (Cons e es)
  let ?D = "\<lambda>es. {e \<in> set es. \<not> isDiscovery e}"
  have mono: "verifiedChange sha256 canon (?D es) (objs v) (objs w') \<Longrightarrow>
      verifiedChange sha256 canon (?D (e # es)) (objs v) (objs w')" for v
    by (erule verifiedChange_mono) auto
  show ?case
  proof (cases "isDiscovery e")
    case True
    then show ?thesis using Cons mono [of w] by simp
  next
    case False
    obtain r i v where one: "importOne sha256 os im e idx w = (r, i, v)"
    by (rule prod_cases3)
    have step: "verifiedChange sha256 canon (?D (e # es)) (objs w) (objs v)"
      using importOne_change [OF one Cons.prems(2)] False by (auto elim: verifiedChange_mono)
    show ?thesis
      using Cons one False mono [of v] step verifiedChange_trans [OF step]
      by (auto split: sum.splits prod.splits if_splits)
  qed
qed simp

lemma importData_counts:
  assumes "importData sha256 os im es res commit idx w = (res', None, commit', idx', w')"
    and "im_Store im = S"
  shows "commit' = commit @ filter isDiscovery es \<and> res_Pending res \<le> res_Pending res' \<and>
    res_FilesImported res' + res_Pending res' =
      res_FilesImported res + res_Pending res + int (length (filter (\<lambda>e. \<not> isDiscovery e) es)) \<and>
    res_FilesImported res \<le> res_FilesImported res' \<and> res_Committed res' = res_Committed res"
  using assms
proof (induction es arbitrary: res commit idx w)
  case (Cons e es)
  then show ?case
    by (fastforce split: sum.splits prod.splits if_splits)
qed simp

lemma importData_committed:
  "importData sha256 os im es res commit idx w = (res', err, commit', idx', w') \<Longrightarrow>
   res_Committed res' = res_Committed res"
proof (induction es arbitrary: res commit idx w)
  case (Cons e es)
  then show ?case by (fastforce split: sum.splits prod.splits if_splits)
qed simp

lemma importData_present:
  assumes "importData sha256 os im es res commit idx w = (res', None, commit', idx', w')"
    and "im_Store im = S" and "res_Pending res' = res_Pending res" and "sizesAgree canon es"
  shows "\<forall>e \<in> set es. \<not> isDiscovery e \<longrightarrow> presentAt objs w' e"
  using assms
proof (induction es arbitrary: res commit idx w)
  case (Cons e es)
  have agree: "sizesAgree canon es" using Cons.prems(4) by (rule sizesAgree_subset) auto
  show ?case
  proof (cases "isDiscovery e")
    case True
    then show ?thesis using Cons agree by auto
  next
    case False
    obtain r i v where one: "importOne sha256 os im e idx w = (r, i, v)"
    by (rule prod_cases3)
    obtain d n where r: "r = Inr (d, n)"
      using Cons.prems(1) one False by (cases r) auto
    have "d"
    proof (rule ccontr)
      assume "\<not> d"
      then have "importData sha256 os im es (res\<lparr>res_Pending := res_Pending res + 1\<rparr>) commit i v =
          (res', None, commit', idx', w')"
        using Cons.prems(1) one r False by simp
      from importData_counts [OF this Cons.prems(2)] Cons.prems(3) show False by simp
    qed
    then have rest: "importData sha256 os im es (countImported res n) commit i v =
        (res', None, commit', idx', w')"
      using Cons.prems(1) one r False by simp
    have "presentAt objs v e" 
      using importOne_done [of sha256 os im e idx w n i v] one r \<open>d\<close> Cons.prems(2) by simp
    then have "presentAt objs w' e"
      using importData_change [OF rest Cons.prems(2)]
      by (rule presentAt_verifiedChange) (auto intro: sizesAgreeD [OF Cons.prems(4)])
    then show ?thesis using Cons.IH [OF rest Cons.prems(2)] Cons.prems(3) agree by simp
  qed
qed simp

lemma importData_idle:
  assumes "importData sha256 os im es res commit idx w = (res', None, commit', idx', w')"
    and "im_Store im = S" and "\<forall>e \<in> set es. \<not> isDiscovery e \<longrightarrow> presentAt objs w e"
    and "in_int64 (res_BytesImported res)"
  shows "objs w' = objs w \<and> res_Pending res' = res_Pending res \<and>
    res_BytesImported res' = res_BytesImported res"
  using assms
proof (induction es arbitrary: res commit idx w)
  case (Cons e es)
  show ?case
  proof (cases "isDiscovery e")
    case True
    then show ?thesis using Cons by simp
  next
    case False
    obtain r i v where one: "importOne sha256 os im e idx w = (r, i, v)"
    by (rule prod_cases3)
    obtain d n where r: "r = Inr (d, n)" using Cons.prems(1) one False by (cases r) auto
    have *: "d \<and> n = 0 \<and> objs v = objs w"
      using importOne_present [OF one [unfolded r] Cons.prems(2)] Cons.prems(3) False by simp
    then have "\<forall>e \<in> set es. \<not> isDiscovery e \<longrightarrow> presentAt objs v e"
      using Cons.prems(3) by (simp add: presentAt_def)
    then show ?thesis
      using Cons.IH [of "countImported res 0" commit i v] Cons.prems one r * False by simp
  qed
qed simp

lemma importCommit_change:
  assumes "importCommit sha256 os im es res idx w = (res', err, w', ended)" and "im_Store im = S"
  shows "verifiedChange sha256 canon (set es) (objs w) (objs w')"
  using assms
proof (induction es arbitrary: res idx w)
  case (Cons e es)
  obtain r i v where one: "importOne sha256 os im e idx w = (r, i, v)"
    by (rule prod_cases3)
  have step: "verifiedChange sha256 canon (set (e # es)) (objs w) (objs v)"
    using importOne_change [OF one Cons.prems(2)] by (auto elim: verifiedChange_mono)
  have "objs w' = objs v \<or> verifiedChange sha256 canon (set es) (objs v) (objs w')"
    using Cons one by (auto split: sum.splits prod.splits if_splits)
  then have "verifiedChange sha256 canon (set (e # es)) (objs v) (objs w')"
    by (auto elim: verifiedChange_mono)
  then show ?case using step verifiedChange_trans by blast
qed simp

lemma importCommit_counts:
  assumes "importCommit sha256 os im es res idx w = (res', err, w', ended)"
  shows "res_Committed res' = res_Committed res \<and> res_FilesImported res \<le> res_FilesImported res' \<and>
    res_FilesImported res' \<le> res_FilesImported res + int (length es) \<and>
    (ended \<longrightarrow> err = None \<and> res_Pending res' = res_Pending res \<and>
      res_FilesImported res' = res_FilesImported res + int (length es)) \<and>
    (\<not> ended \<longrightarrow> err = None \<longrightarrow> res_Pending res' = res_Pending res + 1)"
  using assms
proof (induction es arbitrary: res idx w)
  case (Cons e es)
  then show ?case by (fastforce split: sum.splits prod.splits if_splits)
qed simp

lemma importCommit_stopped:
  "importCommit sha256 os im es res idx w = (res', err, w', False) \<Longrightarrow>
   res_FilesImported res' < res_FilesImported res + int (length es)"
proof (induction es arbitrary: res idx w)
  case (Cons e es)
  then show ?case by (fastforce split: sum.splits prod.splits if_splits)
qed simp

lemma importCommit_present:
  assumes "importCommit sha256 os im es res idx w = (res', err, w', True)" and "im_Store im = S"
    and "sizesAgree canon es"
  shows "\<forall>e \<in> set es. presentAt objs w' e"
  using assms
proof (induction es arbitrary: res idx w)
  case (Cons e es)
  have agree: "sizesAgree canon es" using Cons.prems(3) by (rule sizesAgree_subset) auto
  obtain r i v where one: "importOne sha256 os im e idx w = (r, i, v)"
    by (rule prod_cases3)
  obtain n where r: "r = Inr (True, n)"
    and rest: "importCommit sha256 os im es (countImported res n) i v = (res', err, w', True)"
  proof (cases r)
    case (Inr dn)
    then show ?thesis using that Cons.prems(1) one by (cases dn) (auto split: if_splits)
  qed (use Cons.prems(1) one in simp)
  have "presentAt objs w' e"
    using importOne_done [OF one [unfolded r] Cons.prems(2)] importCommit_change [OF rest Cons.prems(2)]
    by (rule presentAt_verifiedChange) (auto intro: sizesAgreeD [OF Cons.prems(3)])
  then show ?case using Cons.IH [OF rest Cons.prems(2) agree] by simp
qed simp

lemma importCommit_idle:
  assumes "importCommit sha256 os im es res idx w = (res', None, w', ended)" and "im_Store im = S"
    and "\<forall>e \<in> set es. presentAt objs w e" and "in_int64 (res_BytesImported res)"
  shows "ended \<and> objs w' = objs w \<and> res_BytesImported res' = res_BytesImported res"
  using assms
proof (induction es arbitrary: res idx w)
  case (Cons e es)
  obtain r i v where one: "importOne sha256 os im e idx w = (r, i, v)"
    by (rule prod_cases3)
  obtain d n where r: "r = Inr (d, n)" using Cons.prems(1) one by (cases r) auto
  have *: "d \<and> n = 0 \<and> objs v = objs w"
    using importOne_present [OF one [unfolded r] Cons.prems(2)] Cons.prems(3) by simp
  then have "\<forall>e \<in> set es. presentAt objs v e" using Cons.prems(3) by (simp add: presentAt_def)
  then show ?case
    using Cons.IH [of "countImported res 0" i v] Cons.prems one r * by simp
qed simp



section \<open>The whole pass\<close>

lemma Import_cases:
  assumes "Import sha256 os im m w = ((res, err), w')"
  obtains (data_error) e c i where "importData sha256 os im (mn_Files m) zeroResult [] None w = (res, Some e, c, i, w')"
      "err = Some e"
    | (data_pending) c i where "importData sha256 os im (mn_Files m) zeroResult [] None w = (res, None, c, i, w')"
      "err = None" "res_Pending res > 0"
    | (stopped) r0 c i w1 where
      "importData sha256 os im (mn_Files m) zeroResult [] None w = (r0, None, c, i, w1)" "res_Pending r0 \<le> 0"
      "importCommit sha256 os im c r0 i w1 = (res, err, w', False)"
    | (committed) r0 c i w1 r1 e where
      "importData sha256 os im (mn_Files m) zeroResult [] None w = (r0, None, c, i, w1)" "res_Pending r0 \<le> 0"
      "importCommit sha256 os im c r0 i w1 = (r1, e, w', True)" "err = None"
      "res = r1\<lparr>res_Committed := (res_Pending r1 = 0)\<rparr>"
proof -
  obtain r0 e c i w1 where D: "importData sha256 os im (mn_Files m) zeroResult [] None w = (r0, e, c, i, w1)"
    by (metis prod_cases5)
  obtain r1 e1 w2 ended where K: "importCommit sha256 os im c r0 i w1 = (r1, e1, w2, ended)"
    by (metis prod_cases4)
  note eq = assms [unfolded Import_def D prod.case]
  show ?thesis
  proof (cases e)
    case (Some err')
    with eq have "r0 = res" "err = Some err'" "w1 = w'" by simp_all
    with D Some show ?thesis by (intro data_error) simp_all
  next
    case None
    show ?thesis
    proof (cases "res_Pending r0 > 0")
      case True
      with eq None have "r0 = res" "err = None" "w1 = w'" by simp_all
      with D None True show ?thesis by (intro data_pending) simp_all
    next
      case False
      note fin = eq [unfolded None option.case if_not_P [OF False] K prod.case]
      from False have le: "res_Pending r0 \<le> 0" by simp
      show ?thesis
      proof (cases ended)
        case True
        with fin have "res = r1\<lparr>res_Committed := (res_Pending r1 = 0)\<rparr>" "err = None" "w2 = w'" by simp_all
        then show ?thesis
          using True D None K le by (intro committed [of r0 c i w1 r1 e1]) simp_all
      next
        case False
        with fin have "res = r1" "err = e1" "w2 = w'" by simp_all
        then show ?thesis
          using False D None K le by (intro stopped [of r0 c i w1]) simp_all
      qed
    qed
  qed
qed

lemma sel_zeroResult [simp]:
  "res_FilesImported zeroResult = 0" "res_BytesImported zeroResult = 0"
  "res_Pending zeroResult = 0" "res_Committed zeroResult = False"
  by (simp_all add: zeroResult_def)

lemma in_int64_0 [simp]: "in_int64 0"
  by (simp add: in_int64_def)

text \<open>The pass splits at the state in which the first loop ended.\<close>

lemma Import_phases:
  assumes "Import sha256 os im m w = ((res, err), w')" and "im_Store im = S"
    and "sizesAgree canon (mn_Files m)"
  shows "\<exists>d derr c i w1. importData sha256 os im (mn_Files m) zeroResult [] None w = (d, derr, c, i, w1) \<and>
    verifiedChange sha256 canon {e \<in> set (mn_Files m). \<not> isDiscovery e} (objs w) (objs w1) \<and>
    verifiedChange sha256 canon {e \<in> set (mn_Files m). isDiscovery e} (objs w1) (objs w') \<and>
    (w1 \<noteq> w' \<or> res_Committed res \<longrightarrow> (\<forall>e \<in> set (mn_Files m). \<not> isDiscovery e \<longrightarrow> presentAt objs w1 e))"
  using assms(1)
proof (cases rule: Import_cases)
  case (data_error e c i)
  then show ?thesis
    using importData_change [OF data_error(1) assms(2)] by (auto dest: importData_committed)
next
  case (data_pending c i)
  then show ?thesis
    using importData_change [OF data_pending(1) assms(2)] importData_counts [OF data_pending(1) assms(2)] by auto
next
  case (stopped r0 c i w1)
  note cs = importData_counts [OF stopped(1) assms(2)]
  have "res_Pending r0 = res_Pending zeroResult" using cs stopped(2) by simp
  then show ?thesis
    using cs importData_change [OF stopped(1) assms(2)] importCommit_change [OF stopped(3) assms(2)]
      importData_present [OF stopped(1) assms(2) _ assms(3)]
    by - (intro exI conjI, rule stopped(1), auto)
next
  case (committed r0 c i w1 r1 e)
  note cs = importData_counts [OF committed(1) assms(2)]
  have "res_Pending r0 = res_Pending zeroResult" using cs committed(2) by simp
  then show ?thesis
    using cs importData_change [OF committed(1) assms(2)] importCommit_change [OF committed(3) assms(2)]
      importData_present [OF committed(1) assms(2) _ assms(3)]
    by - (intro exI conjI, rule committed(1), auto)
qed

lemma Import_change:
  assumes "Import sha256 os im m w = ((res, err), w')" and "im_Store im = S"
  shows "verifiedChange sha256 canon (set (mn_Files m)) (objs w) (objs w')"
  using assms(1)
proof (cases rule: Import_cases)
  case (data_error e c i)
  then show ?thesis using importData_change assms(2) by (blast intro: verifiedChange_mono)
next
  case (data_pending c i)
  then show ?thesis using importData_change assms(2) by (blast intro: verifiedChange_mono)
next
  case (stopped r0 c i w1)
  have "set c \<subseteq> set (mn_Files m)" using importData_counts [OF stopped(1) assms(2)] by auto
  then show ?thesis
    using importData_change [OF stopped(1) assms(2)] importCommit_change [OF stopped(3) assms(2)]
    by (blast intro: verifiedChange_mono verifiedChange_trans)
next
  case (committed r0 c i w1 r1 e)
  have "set c \<subseteq> set (mn_Files m)" using importData_counts [OF committed(1) assms(2)] by auto
  then show ?thesis
    using importData_change [OF committed(1) assms(2)] importCommit_change [OF committed(3) assms(2)]
    by (blast intro: verifiedChange_mono verifiedChange_trans)
qed

lemma length_filter_partition:
  "length (filter P xs) + length (filter (\<lambda>x. \<not> P x) xs) = length xs"
  by (induction xs) auto

lemma Import_result:
  assumes "Import sha256 os im m w = ((res, None), w')" and "im_Store im = S"
  shows "res_Committed res = (res_Pending res = 0) \<and> 0 \<le> res_Pending res \<and> 0 \<le> res_FilesImported res \<and>
    res_FilesImported res + res_Pending res \<le> int (length (mn_Files m)) \<and>
    (res_Committed res \<longrightarrow> res_FilesImported res = int (length (mn_Files m)))"
  using assms(1)
proof (cases rule: Import_cases)
  case (data_error e c i)
  then show ?thesis by simp
next
  case (data_pending c i)
  then show ?thesis using importData_counts [OF data_pending(1) assms(2)]
    length_filter_partition [of isDiscovery "mn_Files m"] by auto
next
  case (stopped r0 c i w1)
  have "c \<noteq> []" using stopped(3) by auto
  then show ?thesis
    using importData_counts [OF stopped(1) assms(2)] importCommit_counts [OF stopped(3)] stopped(2)
      length_filter_partition [of isDiscovery "mn_Files m"] importCommit_stopped [OF stopped(3)] by auto
next
  case (committed r0 c i w1 r1 e)
  then show ?thesis
    using importData_counts [OF committed(1) assms(2)] importCommit_counts [OF committed(3)]
      length_filter_partition [of isDiscovery "mn_Files m"] by auto
qed

lemma Import_committed_present:
  assumes "Import sha256 os im m w = ((res, err), w')" and "im_Store im = S"
    and "sizesAgree canon (mn_Files m)" and "res_Committed res"
  shows "\<forall>e \<in> set (mn_Files m). presentAt objs w' e"
  using assms(1)
proof (cases rule: Import_cases)
  case (data_error e c i)
  then show ?thesis using importData_committed [OF data_error(1)] assms(4) by simp
next
  case (data_pending c i)
  then show ?thesis using importData_counts [OF data_pending(1) assms(2)] assms(4) by simp
next
  case (stopped r0 c i w1)
  then show ?thesis using importData_counts [OF stopped(1) assms(2)]
    importCommit_counts [OF stopped(3)] assms(4) by simp
next
  case (committed r0 c i w1 r1 e)
  note cs = importData_counts [OF committed(1) assms(2)]
  have c: "c = filter isDiscovery (mn_Files m)" using cs by simp
  have data: "\<forall>e \<in> set (mn_Files m). \<not> isDiscovery e \<longrightarrow> presentAt objs w1 e"
    using importData_present [OF committed(1) assms(2) _ assms(3)] cs committed(2) by simp
  have agree: "sizesAgree canon c" using assms(3) by (rule sizesAgree_subset) (simp add: c)
  have "presentAt objs w' e" if "e \<in> set (mn_Files m)" "\<not> isDiscovery e" for e
  proof (rule presentAt_verifiedChange [OF _ importCommit_change [OF committed(3) assms(2)]])
    show "presentAt objs w1 e" using data that by blast
    show "\<forall>e' \<in> set c. canon (fe_Key e) = canon (fe_Key e') \<longrightarrow> fe_Size e' = fe_Size e"
      using that c by (auto intro!: sizesAgreeD [OF assms(3)])
  qed
  then show ?thesis using importCommit_present [OF committed(3) assms(2) agree] c by auto
qed

lemma Import_idle:
  assumes "Import sha256 os im m w = ((res, None), w')" and "im_Store im = S"
    and "\<forall>e \<in> set (mn_Files m). presentAt objs w e"
  shows "res_Committed res \<and> res_BytesImported res = 0 \<and> objs w' = objs w"
  using assms(1)
proof (cases rule: Import_cases)
  case (data_error e c i)
  then show ?thesis by simp
next
  case (data_pending c i)
  then show ?thesis using importData_idle [OF data_pending(1) assms(2)] assms(3) by simp
next
  case (stopped r0 c i w1)
  have "objs w1 = objs w \<and> res_BytesImported r0 = 0" and "c = filter isDiscovery (mn_Files m)"
    using importData_idle [OF stopped(1) assms(2)] assms(3) importData_counts [OF stopped(1) assms(2)] by simp_all
  then show ?thesis
    using importCommit_idle [OF stopped(3) assms(2)] assms(3) by (simp add: presentAt_def)
next
  case (committed r0 c i w1 r1 e)
  have *: "objs w1 = objs w \<and> res_BytesImported r0 = 0 \<and> res_Pending r0 = 0" and "c = filter isDiscovery (mn_Files m)"
    using importData_idle [OF committed(1) assms(2)] assms(3)
      importData_counts [OF committed(1) assms(2)] by simp_all
  moreover have "e = None" using importCommit_counts [OF committed(3)] by simp
  ultimately have "objs w' = objs w1 \<and> res_BytesImported r1 = 0"
    using importCommit_idle [of sha256 os im c r0 i w1 r1 w' True] committed(3) assms(2,3)
    by (simp add: presentAt_def)
  then show ?thesis using * committed(5) importCommit_counts [OF committed(3)] by simp
qed

end



section \<open>Completion\<close>

text \<open>The bytes of an entry have landed where the manifest says.\<close>

definition primaryPath :: "string \<Rightarrow> FileEntry \<Rightarrow> string" where
  "primaryPath root e = filepath_join [root, fe_DistributionID e, fe_Basename e]"

definition landedAt :: "(bytes \<Rightarrow> bytes) \<Rightarrow> 'w OS \<Rightarrow> string \<Rightarrow> 'w \<Rightarrow> FileEntry \<Rightarrow> bool" where
  "landedAt sha256 os root v e \<longleftrightarrow> fe_DistributionID e \<noteq> '''' \<and>
     os_Stat os (primaryPath root e) v = Inr False \<and> os_Open os (primaryPath root e) v = Inr () \<and>
     (\<exists>b. os_Read os (primaryPath root e) v = Inr b \<and> entryVerified sha256 e b)"

text \<open>A store that does not fail in the states of interest, which its operations keep.\<close>

locale live_store = object_store +
  fixes I :: "'a \<Rightarrow> bool"
  assumes stat_live: "I v \<Longrightarrow> st_Stat S k v = (sr, v') \<Longrightarrow> I v' \<and> \<not> isl sr"
    and put_live: "I v \<Longrightarrow> rd v = ((b, None), v) \<Longrightarrow> int (length b) = n \<Longrightarrow>
          st_Put S k rd n ct v = (pr, v') \<Longrightarrow> I v' \<and> \<not> isl pr"

begin

lemma importOne_live:
  assumes "I w" and "im_Store im = S" and "\<And>v. I v \<Longrightarrow> landedAt sha256 os (im_InboxRoot im) v e"
  shows "\<exists>n i w'. importOne sha256 os im e idx w = (Inr (True, n), i, w') \<and> I w'"
proof -
  obtain sr w1 where st: "st_Stat S (fe_Key e) w = (sr, w1)" by fastforce
  have I1: "I w1" and "\<not> isl sr" using stat_live [OF assms(1) st] by auto
  then obtain info ok where sr: "sr = Inr (info, ok)" by (cases sr) auto
  let ?p = "primaryPath (im_InboxRoot im) e"
  obtain b where b: "os_Read os ?p w1 = Inr b" "entryVerified sha256 e b"
    and fs: "fe_DistributionID e \<noteq> ''''" "os_Stat os ?p w1 = Inr False" "os_Open os ?p w1 = Inr ()"
    using assms(3) [OF I1] by (auto simp: landedAt_def)
  have loc: "locate sha256 os (im_InboxRoot im) e idx w1 = Inr (Some ?p, idx)"
    using fs by (simp add: locate_def primaryPath_def fileExists_def Let_def)
  have ver: "verify sha256 os ?p e w1 = None"
    using fs b by (simp add: verify_def hashFile_def entryVerified_def)
  have rd: "file_reader os ?p w1 = ((b, None), w1)" using b by (simp add: file_reader_def)
  obtain pr w2 where put: "st_Put S (fe_Key e) (file_reader os ?p) (fe_Size e) '''' w1 = (pr, w2)"
    by fastforce
  have I2: "I w2 \<and> \<not> isl pr"
    using put_live [OF I1 rd _ put] b(2) by (simp add: entryVerified_def)
  then obtain u where "pr = Inr u" by (cases pr) auto
  then show ?thesis
    using st sr loc ver fs put I1 I2 assms(2) by (simp add: importOne_def)
qed

lemma importData_live:
  assumes "I w" and "im_Store im = S"
    and "\<And>v e. I v \<Longrightarrow> e \<in> set es \<Longrightarrow> landedAt sha256 os (im_InboxRoot im) v e"
  shows "\<exists>res' c i w'. importData sha256 os im es res commit idx w = (res', None, c, i, w') \<and>
    I w' \<and> res_Pending res' = res_Pending res"
  using assms(1,3)
proof (induction es arbitrary: res commit idx w)
  case (Cons e es)
  show ?case
  proof (cases "isDiscovery e")
    case True
    then show ?thesis using Cons by simp
  next
    case False
    obtain n i v where "importOne sha256 os im e idx w = (Inr (True, n), i, v)" and "I v"
      using importOne_live [OF Cons.prems(1) assms(2)] Cons.prems(2) by (metis list.set_intros(1))
    then show ?thesis
      using Cons.IH [of v "countImported res n" commit i] Cons.prems(2) False by simp
  qed
qed simp

lemma importCommit_live:
  assumes "I w" and "im_Store im = S"
    and "\<And>v e. I v \<Longrightarrow> e \<in> set es \<Longrightarrow> landedAt sha256 os (im_InboxRoot im) v e"
  shows "\<exists>res' w'. importCommit sha256 os im es res idx w = (res', None, w', True)"
  using assms(1,3)
proof (induction es arbitrary: res idx w)
  case (Cons e es)
  obtain n i v where "importOne sha256 os im e idx w = (Inr (True, n), i, v)" and "I v"
    using importOne_live [OF Cons.prems(1) assms(2)] Cons.prems(2) by (metis list.set_intros(1))
  then show ?case
    using Cons.IH [of v "countImported res n" i] Cons.prems(2) by simp
qed simp

lemma Import_live:
  assumes "I w" and "im_Store im = S"
    and "\<And>v e. I v \<Longrightarrow> e \<in> set (mn_Files m) \<Longrightarrow> landedAt sha256 os (im_InboxRoot im) v e"
  shows "\<exists>res w'. Import sha256 os im m w = ((res, None), w') \<and> res_Committed res"
proof -
  obtain r0 c i w1 where D: "importData sha256 os im (mn_Files m) zeroResult [] None w = (r0, None, c, i, w1)"
    and "I w1" and "res_Pending r0 = 0"
    using importData_live [OF assms, where es = "mn_Files m" and res = zeroResult and commit = "[]" and idx = None] by auto
  moreover have "set c \<subseteq> set (mn_Files m)" using importData_counts [OF D assms(2)] by auto
  ultimately obtain r1 w' where "importCommit sha256 os im c r0 i w1 = (r1, None, w', True)"
    using importCommit_live [OF \<open>I w1\<close> assms(2), of c] assms(3) by blast
  then show ?thesis
    using D \<open>res_Pending r0 = 0\<close> importCommit_counts [of sha256 os im c r0 i w1 r1 None w' True]
    by (simp add: Import_def)
qed

end

text \<open>The in-memory S3 never fails on its own bucket and leaves the files alone.\<close>

interpretation mem_live: live_store
  "minio_Store \<lparr>ms_client = mem_client bkt, ms_bucket = bkt, ms_prefix = pfx\<rparr>" "fullKey pfx"
  "\<lambda>w k. mem_store w (fullKey pfx k)" "\<lambda>w. mf_files w = fs"
  for bkt pfx fs
  by unfold_locales
    (auto simp: minio_Store_def Stat_minio_def Put_minio_def mem_client_def mem_stat_def mem_put_def
      isNotFound_def noSuchKey_def noPutOpts_def Let_def split: if_splits option.splits)



section \<open>An example pass\<close>

text \<open>
  A manifest of a discovery object and a data file whose bytes have both landed, over the
  in-memory world; the identity stands for the hash.
\<close>

definition exEntry :: "string \<Rightarrow> string \<Rightarrow> string \<Rightarrow> bytes \<Rightarrow> FileEntry" where
  "exEntry key base d b = \<lparr>fe_Key = key, fe_Basename = base, fe_SHA256 = hex_encode b,
     fe_Size = int (length b), fe_DistributionID = d, fe_BlobToken = []\<rparr>"

definition exManifest :: Manifest where
  "exManifest = \<lparr>mn_SchemaVersion = 1, mn_BackupName = ''b'', mn_StorageLocation = ''default'',
     mn_BSLPrefix = [], mn_ObjectCount = 2, mn_TotalBytes = 5, mn_CompletedAt = [], mn_Complete = True,
     mn_Files = [exEntry ''backups/b/velero-backup.json'' ''velero-backup.json'' ''d2'' ''{}'',
       exEntry ''kopia/p0'' ''p0'' ''d1'' ''abc'']\<rparr>"

definition exInbox :: memworld where
  "exInbox = \<lparr>mf_files = [(''/inbox/d1/p0'', ''abc''), (''/inbox/d2/velero-backup.json'', ''{}'')],
     mw_objs = [], mw_ver = 1, mw_puts = []\<rparr>"

definition exImporter :: "memworld Importer" where
  "exImporter = \<lparr>im_InboxRoot = ''/inbox'', im_Store = minio_Store exampleStore\<rparr>"

abbreviation exObjs :: "memworld \<Rightarrow> string \<rightharpoonup> bytes" where
  "exObjs w k \<equiv> mem_store w (fullKey ''backups'' k)"

abbreviation exPass :: "(Result \<times> goerr option) \<times> memworld" where
  "exPass \<equiv> Import (\<lambda>b. b) mem_os exImporter exManifest exInbox"

lemma exStore_contract:
  "object_store (minio_Store exampleStore) (fullKey ''backups'') exObjs"
  using mem_s3.data_store [of "''velero''" "''backups''"] by (simp add: exampleStore_def)

lemma exStore_live:
  "live_store (minio_Store exampleStore) (fullKey ''backups'') exObjs (\<lambda>w. mf_files w = mf_files exInbox)"
  using mem_live.live_store_axioms [of "''velero''" "''backups''"] by (simp add: exampleStore_def)

lemma exPass_eq: "exPass = ((fst (fst exPass), snd (fst exPass)), snd exPass)"
  by simp

lemma exPass_result:
  "fst exPass = (\<lparr>res_FilesImported = 2, res_BytesImported = 5, res_Pending = 0, res_Committed = True\<rparr>, None)"
  by code_simp

lemma exManifest_sizes: "sizesAgree (fullKey ''backups'') (mn_Files exManifest)"
  by code_simp


definition exCorrupt :: memworld where
  "exCorrupt = exInbox\<lparr>mf_files := [(''/inbox/d1/p0'', ''abd'')]\<rparr>"

definition exStale :: memworld where
  "exStale = exInbox\<lparr>mw_objs := [(''backups/kopia/p0'', (''old'', 0))]\<rparr>"


section \<open>Properties\<close>

text \<open>
  C4: a pass publishes verified bytes only. Whatever the inbox holds and whenever the store
  fails, an object of the destination store that differs after \<open>Import\<close> is at the key of a
  manifest entry and holds bytes whose SHA-256 and length are those of the entry.
\<close>

theorem import_publishes_verified_bytes:
  assumes "object_store (im_Store im) canon objs"
    and "Import sha256 os im m w = ((res, err), w')"
    and "objs w' k \<noteq> objs w k"
  shows "\<exists>e \<in> set (mn_Files m). \<exists>b. canon k = canon (fe_Key e) \<and> objs w' k = Some b \<and>
    hex_encode (sha256 b) = fe_SHA256 e \<and> int (length b) = fe_Size e"
  using object_store.Import_change [OF assms(1,2)] assms(3)
  unfolding verifiedChange_def entryVerified_def by blast

theorem import_publishes_verified_bytes_witness:
  "\<exists>e \<in> set (mn_Files exManifest). \<exists>b. fullKey ''backups'' ''kopia/p0'' = fullKey ''backups'' (fe_Key e) \<and>
    exObjs (snd exPass) ''kopia/p0'' = Some b \<and> hex_encode b = fe_SHA256 e \<and> int (length b) = fe_Size e"
proof (rule import_publishes_verified_bytes [OF _ exPass_eq])
  show "object_store (im_Store exImporter) (fullKey ''backups'') exObjs"
    using exStore_contract by (simp add: exImporter_def)
  show "exObjs (snd exPass) ''kopia/p0'' \<noteq> exObjs exInbox ''kopia/p0''" by code_simp
qed

text \<open>
  C5: the discovery object is written last. The state \<open>w1\<close> in which the loop over the data files
  ends divides a pass: up to it only data files of the manifest are written, after it only
  discovery objects, and the pass does anything after it, or commits, only when every data file is
  in the store at its size in \<open>w1\<close>. So a half-written backup never becomes discoverable, in a
  pass that fails as in one that commits. The entries of the manifest that name one object
  must agree on its size (\<open>sizesAgree\<close>): otherwise a later entry replaces the object of an
  earlier one (\<open>import_commits_over_conflicting_entries\<close>).
\<close>

theorem import_writes_discovery_last:
  assumes "object_store (im_Store im) canon objs"
    and "Import sha256 os im m w = ((res, err), w')"
    and "sizesAgree canon (mn_Files m)"
  shows "\<exists>d derr c i w1. importData sha256 os im (mn_Files m) zeroResult [] None w = (d, derr, c, i, w1) \<and>
    verifiedChange sha256 canon {e \<in> set (mn_Files m). \<not> isDiscovery e} (objs w) (objs w1) \<and>
    verifiedChange sha256 canon {e \<in> set (mn_Files m). isDiscovery e} (objs w1) (objs w') \<and>
    (w1 \<noteq> w' \<or> res_Committed res \<longrightarrow>
      (\<forall>e \<in> set (mn_Files m). \<not> isDiscovery e \<longrightarrow> presentAt objs w1 e))"
  by (rule object_store.Import_phases [OF assms(1,2) refl assms(3)])

theorem import_writes_discovery_last_witness:
  "\<exists>d c i w1. importData (\<lambda>b. b) mem_os exImporter (mn_Files exManifest) zeroResult [] None exInbox = (d, None, c, i, w1) \<and>
     presentAt exObjs w1 (exEntry ''kopia/p0'' ''p0'' ''d1'' ''abc'') \<and>
     exObjs w1 ''backups/b/velero-backup.json'' = None \<and>
     mw_puts (snd exPass) = [''backups/kopia/p0'', ''backups/backups/b/velero-backup.json'']"
proof -
  let ?data = "importData (\<lambda>b. b) mem_os exImporter (mn_Files exManifest) zeroResult [] None exInbox"
  have "object_store (im_Store exImporter) (fullKey ''backups'') exObjs"
    using exStore_contract by (simp add: exImporter_def)
  from import_writes_discovery_last [OF this exPass_eq exManifest_sizes]
  obtain d derr c i w1 where w1: "?data = (d, derr, c, i, w1)"
    "res_Committed (fst (fst exPass)) \<longrightarrow>
      (\<forall>e \<in> set (mn_Files exManifest). \<not> isDiscovery e \<longrightarrow> presentAt exObjs w1 e)" by blast
  moreover have "res_Committed (fst (fst exPass))" by (simp add: exPass_result)
  moreover have "\<not> isDiscovery (exEntry ''kopia/p0'' ''p0'' ''d1'' ''abc'')" by code_simp
  ultimately have "presentAt exObjs w1 (exEntry ''kopia/p0'' ''p0'' ''d1'' ''abc'')"
    by (simp add: exManifest_def)
  moreover have "fst (snd ?data) = None" "exObjs (snd (snd (snd (snd ?data)))) ''backups/b/velero-backup.json'' = None"
    by code_simp+
  moreover have "mw_puts (snd exPass) = [''backups/kopia/p0'', ''backups/backups/b/velero-backup.json'']"
    by code_simp
  ultimately show ?thesis using w1(1) by simp
qed

text \<open>
  C21: the result of a pass without error is exact: \<open>Committed\<close> holds exactly when nothing is
  pending, imported and pending files never exceed the manifest, and after a commit every
  file of the manifest is counted and in the store at its size. The entries of the manifest
  that name one object must agree on its size (\<open>sizesAgree\<close>): of two entries with
  different sizes only one can be there after the pass, and it commits all the same
  (\<open>import_commits_over_conflicting_entries\<close>).
\<close>

theorem import_committed_iff_complete:
  assumes "object_store (im_Store im) canon objs"
    and "Import sha256 os im m w = ((res, None), w')"
    and "sizesAgree canon (mn_Files m)"
  shows "(res_Committed res \<longleftrightarrow> res_Pending res = 0) \<and>
    res_FilesImported res + res_Pending res \<le> int (length (mn_Files m)) \<and>
    (res_Committed res \<longrightarrow> res_FilesImported res = int (length (mn_Files m)) \<and>
      (\<forall>e \<in> set (mn_Files m). presentAt objs w' e))"
  using object_store.Import_result [OF assms(1,2) refl]
    object_store.Import_committed_present [OF assms(1,2) refl assms(3)] by blast

theorem import_committed_iff_complete_witness:
  "list_all (presentAt exObjs (snd exPass)) (mn_Files exManifest)"
proof -
  have st: "object_store (im_Store exImporter) (fullKey ''backups'') exObjs"
    using exStore_contract by (simp add: exImporter_def)
  have "exPass = ((fst (fst exPass), None), snd exPass)"
    using exPass_result by (metis prod.collapse snd_conv)
  from import_committed_iff_complete [OF st this exManifest_sizes] show ?thesis
    by (simp add: exPass_result list_all_iff)
qed

text \<open>
  C22: a pass is idempotent: once every file of the manifest is in the store at its size (in
  particular after a commit), a further pass without error commits again, writes no bytes and
  changes no object.
\<close>

theorem import_idempotent:
  assumes "object_store (im_Store im) canon objs"
    and "Import sha256 os im m w = ((res, None), w')"
    and "\<forall>e \<in> set (mn_Files m). presentAt objs w e"
  shows "res_Committed res \<and> res_BytesImported res = 0 \<and> objs w' = objs w"
  by (rule object_store.Import_idle [OF assms(1,2) refl assms(3)])

theorem import_idempotent_witness:
  "res_BytesImported (fst (fst (Import (\<lambda>b. b) mem_os exImporter exManifest (snd exPass)))) = 0"
proof -
  let ?again = "Import (\<lambda>b. b) mem_os exImporter exManifest (snd exPass)"
  have st: "object_store (im_Store exImporter) (fullKey ''backups'') exObjs"
    using exStore_contract by (simp add: exImporter_def)
  have "snd (fst ?again) = None" by code_simp
  then have eq: "?again = ((fst (fst ?again), None), snd ?again)" by (metis prod.collapse)
  have "\<forall>e \<in> set (mn_Files exManifest). presentAt exObjs (snd exPass) e"
    using object_store.Import_committed_present [OF st exPass_eq refl exManifest_sizes]
    by (simp add: exPass_result)
  from import_idempotent [OF st eq this] show ?thesis by blast
qed

text \<open>
  C20: a pass completes: if the store does not fail, and the bytes of every file have landed at
  their primary inbox path, one pass returns without error and commits.
\<close>

theorem import_completes:
  assumes "live_store (im_Store im) canon objs I" and "I w"
    and "\<forall>v. \<forall>e \<in> set (mn_Files m). I v \<longrightarrow> landedAt sha256 os (im_InboxRoot im) v e"
  shows "\<exists>res w'. Import sha256 os im m w = ((res, None), w') \<and> res_Committed res"
  using live_store.Import_live [OF assms(1,2) refl] assms(3) by blast

theorem import_completes_witness:
  "\<exists>res w'. exPass = ((res, None), w') \<and> res_Committed res"
proof (rule import_completes)
  show "live_store (im_Store exImporter) (fullKey ''backups'') exObjs (\<lambda>w. mf_files w = mf_files exInbox)"
    using exStore_live by (simp add: exImporter_def)
  have paths: "map (primaryPath (im_InboxRoot exImporter)) (mn_Files exManifest) =
      [''/inbox/d2/velero-backup.json'', ''/inbox/d1/p0'']" by code_simp
  show "\<forall>v. \<forall>e \<in> set (mn_Files exManifest). mf_files v = mf_files exInbox \<longrightarrow>
      landedAt (\<lambda>b. b) mem_os (im_InboxRoot exImporter) v e"
    using paths by (auto simp: exManifest_def landedAt_def mem_os_def exInbox_def exEntry_def entryVerified_def)
qed simp

text \<open>
  C33: a file whose size is right but whose hash differs from the manifest is a hard error: the
  entry is not counted as pending, and the store is left as it was.
\<close>

theorem import_rejects_corrupt_file:
  assumes "object_store (im_Store im) canon objs"
    and "st_Stat (im_Store im) (fe_Key e) w = (Inr (info, ok), w1)" and "\<not> presentAt objs w e"
    and "locate sha256 os (im_InboxRoot im) e idx w1 = Inr (Some p, idx')"
    and "os_Open os p w1 = Inr ()" and "os_Read os p w1 = Inr b"
    and "int (length b) = fe_Size e" and "hex_encode (sha256 b) \<noteq> fe_SHA256 e"
  shows "importOne sha256 os im e idx w =
      (Inl (Errorf ''sha256 mismatch'' [fe_Key e, hex_encode (sha256 b), fe_SHA256 e]), idx', w1) \<and>
    objs w1 = objs w"
proof -
  have "\<not> (ok \<and> oi_Size info = fe_Size e)"
    using object_store.stat_present [OF assms(1), of "fe_Key e" w info w1] assms(2,3)
    by (auto simp: presentAt_def)
  moreover have "verify sha256 os p e w1 =
      Some (Errorf ''sha256 mismatch'' [fe_Key e, hex_encode (sha256 b), fe_SHA256 e])"
    using assms(5-8) by (simp add: verify_def hashFile_def)
  ultimately show ?thesis
    using assms(2,4) object_store.stat_frame [OF assms(1,2)]
    by (simp add: importOne_def errNotLanded_def)
qed

theorem import_rejects_corrupt_file_witness:
  "isl (fst (importOne (\<lambda>b. b) mem_os exImporter (exEntry ''kopia/p0'' ''p0'' ''d1'' ''abc'') None exCorrupt))"
proof -
  let ?e = "exEntry ''kopia/p0'' ''p0'' ''d1'' ''abc''"
  have 1: "object_store (im_Store exImporter) (fullKey ''backups'') exObjs"
    using exStore_contract by (simp add: exImporter_def)
  have 2: "st_Stat (im_Store exImporter) (fe_Key ?e) exCorrupt = (Inr (zeroObjectInfo, False), exCorrupt)"
    by code_simp
  have 3: "\<not> presentAt exObjs exCorrupt ?e"
    by (simp add: presentAt_def mem_store_def exCorrupt_def exInbox_def)
  have 4: "locate (\<lambda>b. b) mem_os (im_InboxRoot exImporter) ?e None exCorrupt = Inr (Some ''/inbox/d1/p0'', None)"
  proof -
    have "filepath_join [im_InboxRoot exImporter, fe_DistributionID ?e, fe_Basename ?e] = ''/inbox/d1/p0''"
      and "fileExists mem_os ''/inbox/d1/p0'' exCorrupt" and "fe_DistributionID ?e \<noteq> ''''"
      by code_simp+
    then show ?thesis by (simp add: locate_def)
  qed
  have 5: "os_Open mem_os ''/inbox/d1/p0'' exCorrupt = Inr ()" by code_simp
  have 6: "os_Read mem_os ''/inbox/d1/p0'' exCorrupt = Inr ''abd''" by code_simp
  have 7: "int (length ''abd'') = fe_Size ?e" and 8: "hex_encode ''abd'' \<noteq> fe_SHA256 ?e" by code_simp+
  show ?thesis
    using import_rejects_corrupt_file [OF 1 2 3 4 5 6 7 8] by simp
qed

text \<open>
  An object that is already in the destination store counts as imported by its size
  alone. With other bytes of the same length at the key the pass skips the entry and commits,
  so \<open>FilesImported\<close> is not, as its comment says, a count of verified files.
\<close>

theorem import_trusts_size_of_present_objects:
  "fst (Import (\<lambda>b. b) mem_os exImporter exManifest exStale) =
     (\<lparr>res_FilesImported = 2, res_BytesImported = 2, res_Pending = 0, res_Committed = True\<rparr>, None) \<and>
   exObjs (snd (Import (\<lambda>b. b) mem_os exImporter exManifest exStale)) ''kopia/p0'' = Some ''old''"
  by code_simp

text \<open>
  Two entries of a manifest for one object with different sizes: when the bytes of both have
  landed, a pass writes one over the other and commits, although the first is not in the store
  at its size. The property of committed passes therefore needs \<open>sizesAgree\<close>.
\<close>

theorem import_commits_over_conflicting_entries:
  "let e1 = exEntry ''kopia/p0'' ''p0'' ''d1'' ''abc''; e2 = exEntry ''kopia/p0'' ''velero-backup.json'' ''d2'' ''{}'';
       m = exManifest\<lparr>mn_Files := [e1, e2]\<rparr>; p = Import (\<lambda>b. b) mem_os exImporter m exInbox
   in \<not> sizesAgree (fullKey ''backups'') (mn_Files m) \<and> snd (fst p) = None \<and> res_Committed (fst (fst p)) \<and>
      exObjs (snd p) ''kopia/p0'' = Some ''{}'' \<and> fe_Size e1 = 3"
  by code_simp

text \<open>
  A manifest without a discovery object commits as well: \<open>Committed\<close> means that nothing
  is pending, not that a discovery object was written.
\<close>

theorem import_commits_without_discovery_object:
  "let m = exManifest\<lparr>mn_Files := [exEntry ''kopia/p0'' ''p0'' ''d1'' ''abc'']\<rparr>;
       p = Import (\<lambda>b. b) mem_os exImporter m exInbox
   in \<not> (\<exists>e \<in> set (mn_Files m). isDiscovery e) \<and> snd (fst p) = None \<and> res_Committed (fst (fst p)) \<and>
      mw_puts (snd p) = [''backups/kopia/p0'']"
  by code_simp

end
