(* ===== verification/Controller_Env.thy ===== *)
theory Controller_Env
  imports Kube Objstore_New Peat_Node Staging Importer
begin

text \<open>
  The environment of the controllers: Kubernetes, the operating system, the transport to the
  peat sidecar, the minio SDK and SHA-256. The locale \<open>controller_env\<close> collects the contracts
  of these services and that each of them leaves the state of the others alone. An in-memory
  cluster interprets it: an API server with versioned objects beside the in-memory node,
  bucket and file system.
\<close>

record 'w Env =
  env_Kube :: "'w Kube"
  env_OS :: "'w OS"
  env_Http :: "'w Http"
  env_SDK :: "'w MinioSDK"
  env_sha256 :: "bytes \<Rightarrow> bytes"


section \<open>Frames of the services\<close>

definition kube_reads_keep :: "'w Kube \<Rightarrow> ('w \<Rightarrow> 's) \<Rightarrow> bool" where
  "kube_reads_keep K f \<longleftrightarrow> keeps f (k_Now K) \<and> (\<forall>ns n. keeps f (k_GetBackup K ns n)) \<and> keeps f (k_ListPolicies K) \<and>
     (\<forall>n. keeps f (k_GetPolicy K n)) \<and> (\<forall>ns n. keeps f (k_GetLocation K ns n)) \<and>
     (\<forall>ns n. keeps f (k_GetSecret K ns n)) \<and> (\<forall>ns n. keeps f (k_GetReplication K ns n)) \<and>
     (\<forall>ns n. keeps f (k_GetImport K ns n))"

definition kube_keeps :: "'w Kube \<Rightarrow> ('w \<Rightarrow> 's) \<Rightarrow> bool" where
  "kube_keeps K f \<longleftrightarrow> kube_reads_keep K f \<and>
     (\<forall>x. keeps f (k_UpdateReplicationStatus K x)) \<and> (\<forall>x g. keeps f (k_CreateOrUpdateReplication K x g)) \<and>
     (\<forall>x. keeps f (k_UpdateImportStatus K x)) \<and> (\<forall>x g. keeps f (k_CreateOrUpdateImport K x g))"

definition os_keeps :: "'w OS \<Rightarrow> ('w \<Rightarrow> 's) \<Rightarrow> bool" where
  "os_keeps os f \<longleftrightarrow> (\<forall>d. keeps f (os_MkdirAll os d)) \<and> (\<forall>d p. keeps f (os_CreateTemp os d p)) \<and>
     (\<forall>t b. keeps f (os_Write os t b)) \<and> (\<forall>t. keeps f (os_Close os t)) \<and> (\<forall>s d. keeps f (os_Rename os s d)) \<and>
     (\<forall>p. keeps f (os_Remove os p))"

definition http_keeps :: "'w Http \<Rightarrow> ('w \<Rightarrow> 's) \<Rightarrow> bool" where
  "http_keeps http f \<longleftrightarrow> (\<forall>url b. keeps f (ht_Do http url b)) \<and> (\<forall>d. keeps f (ht_Wait http d))"

text \<open>A client keeps \<open>f\<close> when its operations and the readers it hands out do; it may run the reader of a put.\<close>

definition client_keeps :: "'w MinioClient \<Rightarrow> ('w \<Rightarrow> 's) \<Rightarrow> bool" where
  "client_keeps C f \<longleftrightarrow> (\<forall>b p r. keeps f (mc_ListObjects C b p r)) \<and> (\<forall>b k. keeps f (mc_GetObject C b k)) \<and>
     (\<forall>b k w ob w'. mc_GetObject C b k w = (Inr ob, w') \<longrightarrow> keeps f (ob_Stat ob) \<and> keeps f (ob_Read ob)) \<and>
     (\<forall>b k rd n opts. keeps f rd \<longrightarrow> keeps f (mc_PutObject C b k rd n opts)) \<and>
     (\<forall>b k. keeps f (mc_StatObject C b k))"

lemma kube_readsD [frames]:
  assumes "kube_reads_keep K f"
  shows "keeps f (k_Now K)" "keeps f (k_GetBackup K ns n)" "keeps f (k_ListPolicies K)"
    "keeps f (k_GetPolicy K n)" "keeps f (k_GetLocation K ns n)" "keeps f (k_GetSecret K ns n)"
    "keeps f (k_GetReplication K ns n)" "keeps f (k_GetImport K ns n)"
  using assms by (simp_all add: kube_reads_keep_def)

lemma kube_keepsD [frames]:
  assumes "kube_keeps K f"
  shows "kube_reads_keep K f" "keeps f (k_UpdateReplicationStatus K x)"
    "keeps f (k_CreateOrUpdateReplication K x g)" "keeps f (k_UpdateImportStatus K i)"
    "keeps f (k_CreateOrUpdateImport K i h)"
  using assms by (simp_all add: kube_keeps_def)

context kube_api
begin

lemma reads_st: "kube_reads_keep K st"
  unfolding kube_reads_keep_def keeps_def
  using now_frame get_backup_frame list_policies_frame get_policy_frame get_location_frame get_secret_frame
    get_rep_frame get_imp_frame by blast

end

lemma os_keepsD [frames]:
  assumes "os_keeps os f"
  shows "keeps f (os_MkdirAll os d)" "keeps f (os_CreateTemp os d p)" "keeps f (os_Write os t b)"
    "keeps f (os_Close os t)" "keeps f (os_Rename os s d)" "keeps f (os_Remove os p)"
  using assms by (simp_all add: os_keeps_def)

lemma http_keepsD [frames]:
  assumes "http_keeps http f"
  shows "keeps f (ht_Do http url b)" "keeps f (ht_Wait http d)"
  using assms by (simp_all add: http_keeps_def)

lemma client_keepsD [frames]:
  assumes "client_keeps C f"
  shows "keeps f (mc_ListObjects C b p r)" "keeps f (mc_GetObject C b k)"
    "keeps f (mc_StatObject C b k)" "keeps f rd \<Longrightarrow> keeps f (mc_PutObject C b k rd n opts)"
    "mc_GetObject C b k w = (Inr ob, w') \<Longrightarrow> keeps f (ob_Stat ob)"
    "mc_GetObject C b k w = (Inr ob, w') \<Longrightarrow> keeps f (ob_Read ob)"
  using assms unfolding client_keeps_def by simp_all blast+


section \<open>Frames of the components\<close>

lemma file_reader_keeps [frames]: "keeps f (file_reader os p)"
  by (simp add: keeps_def file_reader_def split: sum.split)

lemma bytes_reader_keeps [frames]: "keeps f (bytes_reader b)"
  by (simp add: keeps_def bytes_reader_def)

lemma io_copy_keeps [frames]: "os_keeps os f \<Longrightarrow> keeps f rd \<Longrightarrow> keeps f (io_copy os p rd)"
  by (rule keepsI, simp add: io_copy_def split: prod.splits sum.splits option.splits)
    (metis keepsD os_keepsD(3))+

definition store_keeps :: "'w Store \<Rightarrow> ('w \<Rightarrow> 's) \<Rightarrow> bool" where
  "store_keeps S f \<longleftrightarrow> (\<forall>p. keeps f (st_List S p)) \<and> (\<forall>k. keeps f (st_Open S k)) \<and>
     (\<forall>k w rd w'. st_Open S k w = (Inr rd, w') \<longrightarrow> keeps f rd) \<and>
     (\<forall>k rd n ct. keeps f rd \<longrightarrow> keeps f (st_Put S k rd n ct)) \<and> (\<forall>k. keeps f (st_Stat S k)) \<and>
     (\<forall>k. keeps f (st_GetLedger S k)) \<and> (\<forall>k b t. keeps f (st_PutLedger S k b t))"

lemma store_keepsD [frames]:
  assumes "store_keeps S f"
  shows "keeps f (st_List S p)" "keeps f (st_Open S k)" "st_Open S k w = (Inr rd, w') \<Longrightarrow> keeps f rd"
    "keeps f rd \<Longrightarrow> keeps f (st_Put S k rd n ct)" "keeps f (st_Stat S k)" "keeps f (st_GetLedger S k)"
    "keeps f (st_PutLedger S k b t)"
  using assms unfolding store_keeps_def by simp_all blast+

lemma minio_store_keeps [frames]:
  assumes "client_keeps (ms_client s) f"
  shows "store_keeps (minio_Store s) f"
proof -
  note fr = client_keepsD [OF assms]
  have "keeps f (List_minio s p)" for p
    by (rule keepsI) (auto simp: List_minio_def Let_def split: prod.splits dest: keepsD [OF fr(1)])
  moreover have "keeps f (Open_minio s k)" for k
    by (rule keepsI) (auto simp: Open_minio_def split: prod.splits sum.splits dest: keepsD [OF fr(2)])
  moreover have "keeps f rd" if "Open_minio s k w = (Inr rd, w')" for k w rd w'
    using that fr(6) by (auto simp: Open_minio_def split: prod.splits sum.splits)
  moreover have "keeps f (Put_minio s k rd n ct)" if "keeps f rd" for k rd n ct
    by (rule keepsI) (auto simp: Put_minio_def Let_def split: prod.splits sum.splits dest: keepsD [OF fr(4) [OF that]])
  moreover have "keeps f (Stat_minio s k)" for k
    by (rule keepsI) (auto simp: Stat_minio_def split: prod.splits sum.splits if_splits dest: keepsD [OF fr(3)])
  moreover have "keeps f (GetLedger_minio s k)" for k
  proof (rule keepsI)
    have opened: "keeps f (ob_Stat ob) \<and> keeps f (ob_Read ob) \<and> f w' = f w"
      if "mc_GetObject (ms_client s) (ms_bucket s) k w = (Inr ob, w')" for ob w w'
      using fr(5,6) [OF that] keepsD [OF fr(2) that] by blast
    show "f w' = f w" if "GetLedger_minio s k w = (r, w')" for w r w'
      using that
      by (auto simp: GetLedger_minio_def split: prod.splits sum.splits if_splits option.splits
          dest: keepsD [OF fr(2)] dest!: opened keepsD)
  qed
  moreover have "keeps f (PutLedger_minio s k b t)" for k b t
    by (rule keepsI) (auto simp: PutLedger_minio_def Let_def split: prod.splits sum.splits if_splits
        dest: keepsD [OF fr(4) [OF bytes_reader_keeps]])
  ultimately show ?thesis by (simp add: store_keeps_def minio_Store_def)
qed

lemma StageObject_keeps [frames]:
  assumes "os_keeps os f" and "store_keeps S f"
  shows "keeps f (StageObject sha256 os s S key)"
proof -
  note fo = os_keepsD [OF assms(1)] and fs = store_keepsD [OF assms(2)]
  have temp: "f w' = f w" if "stageTemp sha256 os s key rel dst t rc w = (r, w')" and "keeps f rc" for rel dst t rc w r w'
    using that(1)
    by (auto simp: stageTemp_def keeps_snd [OF fo(4)] split: prod.splits sum.splits
        dest!: keepsD [OF fo(4)] keepsD [OF fo(5)] keepsD [OF io_copy_keeps [OF assms(1) that(2)]])
  show ?thesis
  proof (rule keepsI)
    have opened: "keeps f rd \<and> f w' = f w" if "st_Open S key w = (Inr rd, w')" for rd w w'
      using fs(3) [OF that] keepsD [OF fs(2) that] by blast
    show "f w' = f w" if "StageObject sha256 os s S key w = (r, w')" for w r w'
      using that
      by (auto simp: StageObject_def Let_def keeps_snd [OF fo(6)] split: prod.splits sum.splits
          dest: keepsD [OF fs(2)] dest!: opened keepsD [OF fo(1)] keepsD [OF fo(2)] temp)
  qed
qed

lemma call_keeps [frames]: "http_keeps http f \<Longrightarrow> keeps f (call http c meth req resp r0)"
  by (rule keepsI) (auto simp: call_def Let_def split: prod.splits sum.splits if_splits option.splits
    dest: keepsD [OF http_keepsD(1)])

lemma peat_keeps [frames]:
  assumes "http_keeps http f"
  shows "keeps f (EnsurePeer http c e a u)" "keeps f (PutDocument http c col d s)"
    "keeps f (GetDocument http c col d)" "keeps f (ListDocuments http c col)" "keeps f (GetDistribution http c d)"
    "SendAttachments http c b files sc p w = (r, c', w') \<Longrightarrow> f w' = f w"
  by (auto simp: EnsurePeer_def PutDocument_def GetDocument_def ListDocuments_def call_unit_def GetDistribution_def
      SendAttachments_def split: prod.splits sum.splits option.splits intro!: keepsI call_keeps [OF assms]
      dest: keepsD [OF call_keeps [OF assms]])

lemma pollAll_keeps: "http_keeps http f \<Longrightarrow> pollAll http c ds w = (r, w') \<Longrightarrow> f w' = f w"
  by (induction ds arbitrary: w r w') (auto split: prod.splits sum.splits dest: keepsD [OF peat_keeps(5)])

lemma WaitBundle_keeps [frames]:
  assumes "http_keeps http f" and "WaitBundle http c b w = Some (r, w')"
  shows "f w' = f w"
proof -
  have quiet: "f v = f u" if "(undecided http c ds)\<^sup>*\<^sup>* u v" for ds u v
    using that by (induction rule: rtranclp_induct)
      (auto simp: undecided_def dest!: pollAll_keeps [OF assms(1)] keepsD [OF http_keepsD(2) [OF assms(1)]])
  have last: "f v = f u" if "decisive http c ds u r v" for ds u v
    using that by (auto simp: decisive_def dest!: pollAll_keeps [OF assms(1)] keepsD [OF http_keepsD(2) [OF assms(1)]])
  show ?thesis
    using assms(2) waitLoop_decided [of http c "bundleDistributions c b" w r w'] quiet last
    by (fastforce simp: WaitBundle_def Let_def split: if_splits)
qed

lemma importOne_keeps:
  assumes "store_keeps (im_Store im) f" and "importOne sha256 os im e idx w = (r, idx', w')"
  shows "f w' = f w"
  using assms(2) keepsD [OF store_keepsD(5) [OF assms(1)]]
    keepsD [OF store_keepsD(4) [OF assms(1) file_reader_keeps]]
  by (fastforce simp: importOne_def split: prod.splits sum.splits if_splits option.splits)

lemma importData_keeps:
  assumes "store_keeps (im_Store im) f"
  shows "importData sha256 os im es res commit idx w = (res', err, commit', idx', w') \<Longrightarrow> f w' = f w"
  by (induction es arbitrary: res commit idx w)
    (auto split: if_splits prod.splits sum.splits dest: importOne_keeps [OF assms])

lemma importCommit_keeps:
  assumes "store_keeps (im_Store im) f"
  shows "importCommit sha256 os im es res idx w = (res', err, w', ended) \<Longrightarrow> f w' = f w"
  by (induction es arbitrary: res idx w)
    (auto split: if_splits prod.splits sum.splits dest: importOne_keeps [OF assms])

lemma Import_keeps [frames]:
  assumes "store_keeps (im_Store im) f"
  shows "keeps f (Import sha256 os im m)"
  by (rule keepsI) (auto simp: Import_def split: prod.splits option.splits if_splits
    dest!: importData_keeps [OF assms] importCommit_keeps [OF assms])


section \<open>The contract\<close>

lemma store_of_client:
  assumes "s3_client (ms_client ms) (ms_bucket ms) store etag"
  shows "object_store (minio_Store ms) (fullKey (ms_prefix ms)) (\<lambda>w k. store w (fullKey (ms_prefix ms) k))"
proof (cases ms)
  case (fields C b p)
  then show ?thesis using s3_store.data_store [of C b store etag p] assms by (simp add: s3_store_def)
qed

text \<open>
  \<open>st\<close> is the state of the API server, \<open>files\<close> that of the file system, \<open>docs a\<close> the documents of the peat sidecar at the base
  URL \<open>a\<close>, \<open>objects cfg\<close> and \<open>tags cfg\<close> the content and the entity tags of the bucket that a
  store configuration describes.
\<close>

locale controller_env =
  kube_api "env_Kube E" st
  for E :: "'w Env" and st :: "'w \<Rightarrow> kubeState" +
  fixes files :: "'w \<Rightarrow> string \<rightharpoonup> bytes"
    and docs :: "string \<Rightarrow> 'w \<Rightarrow> string \<times> string \<rightharpoonup> string"
    and objects :: "Config \<Rightarrow> 'w \<Rightarrow> string \<rightharpoonup> bytes" and tags :: "Config \<Rightarrow> 'w \<Rightarrow> string \<rightharpoonup> string"
  assumes peat: "peat_documents (env_Http E) a (docs a)"
    and s3: "NewStore (env_SDK E) cfg = Inr ms \<Longrightarrow>
      s3_client (ms_client ms) (ms_bucket ms) (objects cfg) (tags cfg)"
    and staging: "NewStore (env_SDK E) cfg = Inr ms \<Longrightarrow>
      staging_env (env_OS E) files (minio_Store ms) (fullKey (ms_prefix ms))
        (\<lambda>w k. objects cfg w (fullKey (ms_prefix ms) k))"
    and kube_docs: "kube_keeps (env_Kube E) (docs a)"
    and kube_objects: "kube_keeps (env_Kube E) (objects cfg)"
    and http_objects: "http_keeps (env_Http E) (objects cfg)"
    and os_st: "os_keeps (env_OS E) st"
    and http_st: "http_keeps (env_Http E) st"
    and client_st: "NewStore (env_SDK E) cfg = Inr ms \<Longrightarrow> client_keeps (ms_client ms) st"
    and client_docs: "NewStore (env_SDK E) cfg = Inr ms \<Longrightarrow> client_keeps (ms_client ms) (docs a)"

begin

lemma store_st: "NewStore (env_SDK E) cfg = Inr ms \<Longrightarrow> store_keeps (minio_Store ms) st"
  by (rule minio_store_keeps [OF client_st])

lemma store_docs: "NewStore (env_SDK E) cfg = Inr ms \<Longrightarrow> store_keeps (minio_Store ms) (docs a)"
  by (rule minio_store_keeps [OF client_docs])

lemma store_contract:
  "NewStore (env_SDK E) cfg = Inr ms \<Longrightarrow>
   object_store (minio_Store ms) (fullKey (ms_prefix ms)) (\<lambda>w k. objects cfg w (fullKey (ms_prefix ms) k))"
  by (rule store_of_client [OF s3])

end


section \<open>An in-memory cluster\<close>

text \<open>
  The API server keeps every version of an object, the latest first; the resource version of
  an object is its place in that history, and a status update or a creation adds a version.
  The selectors it understands are those without expressions.
\<close>

record kubeworld = peatworld +
  kw_now :: instant
  kw_reps :: "BackupReplication list"
  kw_imps :: "BackupImport list"
  kw_backups :: "Backup list"
  kw_policies :: "ReplicationPolicy list"
  kw_locations :: "BackupStorageLocation list"
  kw_secrets :: "(okey \<times> (string \<times> bytes) list) list"

definition stamp :: "nat \<Rightarrow> ObjectMeta \<Rightarrow> ObjectMeta" where
  "stamp n m = m\<lparr>om_ResourceVersion := dec n\<rparr>"

fun stampReps :: "BackupReplication list \<Rightarrow> BackupReplication list" where
  "stampReps [] = []"
| "stampReps (x # xs) = x\<lparr>br_Meta := stamp (length xs) (br_Meta x)\<rparr> # stampReps xs"

fun stampImps :: "BackupImport list \<Rightarrow> BackupImport list" where
  "stampImps [] = []"
| "stampImps (x # xs) = x\<lparr>bi_Meta := stamp (length xs) (bi_Meta x)\<rparr> # stampImps xs"

definition findRep :: "kubeworld \<Rightarrow> okey \<Rightarrow> BackupReplication option" where
  "findRep w k = List.find (\<lambda>x. rep_key x = k) (stampReps (kw_reps w))"

definition findImp :: "kubeworld \<Rightarrow> okey \<Rightarrow> BackupImport option" where
  "findImp w k = List.find (\<lambda>x. imp_key x = k) (stampImps (kw_imps w))"

definition mem_st :: "kubeworld \<Rightarrow> kubeState" where
  "mem_st w = \<lparr>ks_reps = findRep w, ks_rep_seen = set (stampReps (kw_reps w)),
     ks_imps = findImp w, ks_imp_seen = set (stampImps (kw_imps w))\<rparr>"

definition found :: "string \<Rightarrow> 'a option \<Rightarrow> 'a result" where
  "found name x = (case x of None \<Rightarrow> Inl (ApiNotFound name) | Some y \<Rightarrow> Inr y)"

definition conflict :: goerr where
  "conflict = ApiErr ''the object has been modified''"

definition mem_UpdateReplicationStatus :: "BackupReplication \<Rightarrow> (kubeworld, BackupReplication) effect" where
  "mem_UpdateReplicationStatus x w =
     (case findRep w (rep_key x) of
        None \<Rightarrow> (Inl (ApiNotFound (om_Name (br_Meta x))), w)
      | Some old \<Rightarrow>
          if om_ResourceVersion (br_Meta old) \<noteq> om_ResourceVersion (br_Meta x) then (Inl conflict, w)
          else let y = old\<lparr>br_Meta := stamp (length (kw_reps w)) (br_Meta old), br_Status := br_Status x\<rparr>
               in (Inr y, w\<lparr>kw_reps := y # kw_reps w\<rparr>))"

definition mem_UpdateImportStatus :: "BackupImport \<Rightarrow> (kubeworld, BackupImport) effect" where
  "mem_UpdateImportStatus x w =
     (case findImp w (imp_key x) of
        None \<Rightarrow> (Inl (ApiNotFound (om_Name (bi_Meta x))), w)
      | Some old \<Rightarrow>
          if om_ResourceVersion (bi_Meta old) \<noteq> om_ResourceVersion (bi_Meta x) then (Inl conflict, w)
          else let y = old\<lparr>bi_Meta := stamp (length (kw_imps w)) (bi_Meta old), bi_Status := bi_Status x\<rparr>
               in (Inr y, w\<lparr>kw_imps := y # kw_imps w\<rparr>))"

definition mem_EnsureReplication :: "BackupReplication \<Rightarrow> (BackupReplication \<Rightarrow> BackupReplication result) \<Rightarrow>
    (kubeworld, string) effect" where
  "mem_EnsureReplication x g w =
     (let old = findRep w (rep_key x) in
      case g (case old of None \<Rightarrow> x | Some o' \<Rightarrow> o') of
        Inl e \<Rightarrow> (Inl e, w)
      | Inr z \<Rightarrow>
          let y = z\<lparr>br_Meta := stamp (length (kw_reps w)) ((br_Meta z)\<lparr>om_Name := om_Name (br_Meta x),
                      om_Namespace := om_Namespace (br_Meta x)\<rparr>),
                    br_Status := (case old of None \<Rightarrow> zeroReplicationStatus | Some o' \<Rightarrow> br_Status o')\<rparr>
          in (Inr (if old = None then ''created'' else ''updated''), w\<lparr>kw_reps := y # kw_reps w\<rparr>))"

definition mem_EnsureImport :: "BackupImport \<Rightarrow> (BackupImport \<Rightarrow> BackupImport result) \<Rightarrow>
    (kubeworld, string) effect" where
  "mem_EnsureImport x g w =
     (let old = findImp w (imp_key x) in
      case g (case old of None \<Rightarrow> x | Some o' \<Rightarrow> o') of
        Inl e \<Rightarrow> (Inl e, w)
      | Inr z \<Rightarrow>
          let y = z\<lparr>bi_Meta := stamp (length (kw_imps w)) ((bi_Meta z)\<lparr>om_Name := om_Name (bi_Meta x),
                      om_Namespace := om_Namespace (bi_Meta x)\<rparr>),
                    bi_Status := (case old of None \<Rightarrow> zeroImportStatus | Some o' \<Rightarrow> bi_Status o')\<rparr>
          in (Inr (if old = None then ''created'' else ''updated''), w\<lparr>kw_imps := y # kw_imps w\<rparr>))"

fun mem_SetCondition :: "Condition list \<Rightarrow> Condition \<Rightarrow> Condition list" where
  "mem_SetCondition [] c = [c]"
| "mem_SetCondition (d # ds) c = (if cd_Type d = cd_Type c then c # ds else d # mem_SetCondition ds c)"

definition mem_Selector :: "LabelSelector \<Rightarrow> ((string \<times> string) list \<Rightarrow> bool) result" where
  "mem_Selector s =
     (if ls_MatchExpressions s \<noteq> [] then Inl (LibErr ''not a valid label selector operator'')
      else Inr (\<lambda>labels. list_all (\<lambda>(k, v). map_of labels k = Some v) (ls_MatchLabels s)))"

definition mem_kube :: "kubeworld Kube" where
  "mem_kube = \<lparr>
     k_Now = (\<lambda>w. (kw_now w, w)),
     k_SetCondition = (\<lambda>cs c w. mem_SetCondition cs c),
     k_Selector = mem_Selector,
     k_SetControllerReference = (\<lambda>b x. Inr (x\<lparr>br_Meta := (br_Meta x)\<lparr>om_Owner := Some (om_Name (bk_Meta b))\<rparr>\<rparr>)),
     k_GetBackup = (\<lambda>ns n w. (found n (List.find (\<lambda>b. meta_key (bk_Meta b) = (ns, n)) (kw_backups w)), w)),
     k_ListPolicies = (\<lambda>w. (Inr (kw_policies w), w)),
     k_GetPolicy = (\<lambda>n w. (found n (List.find (\<lambda>p. om_Name (pol_Meta p) = n) (kw_policies w)), w)),
     k_GetLocation = (\<lambda>ns n w. (found n (List.find (\<lambda>l. meta_key (loc_Meta l) = (ns, n)) (kw_locations w)), w)),
     k_GetSecret = (\<lambda>ns n w. (found n (map_of (kw_secrets w) (ns, n)), w)),
     k_GetReplication = (\<lambda>ns n w. (found n (findRep w (ns, n)), w)),
     k_UpdateReplicationStatus = mem_UpdateReplicationStatus,
     k_CreateOrUpdateReplication = mem_EnsureReplication,
     k_GetImport = (\<lambda>ns n w. (found n (findImp w (ns, n)), w)),
     k_UpdateImportStatus = mem_UpdateImportStatus,
     k_CreateOrUpdateImport = mem_EnsureImport\<rparr>"

definition mem_sdk :: "string \<Rightarrow> 'a memworld_scheme MinioSDK" where
  "mem_sdk bkt = \<lparr>sdk_DefaultTransport = None, sdk_AppendCertsFromPEM = (\<lambda>_. True),
     sdk_New = (\<lambda>endpoint opts. Inr (mem_client bkt))\<rparr>"

definition mem_env :: "(bytes \<Rightarrow> bytes) \<Rightarrow> kubeworld Env" where
  "mem_env sha256 = \<lparr>env_Kube = mem_kube, env_OS = mem_os, env_Http = mem_http,
     env_SDK = mem_sdk ''velero'', env_sha256 = sha256\<rparr>"

definition mem_objects :: "string \<Rightarrow> Config \<Rightarrow> 'a memworld_scheme \<Rightarrow> string \<rightharpoonup> bytes" where
  "mem_objects bkt cfg w = (if cfg_Bucket cfg = bkt then mem_store w else Map.empty)"

definition mem_tags :: "string \<Rightarrow> Config \<Rightarrow> 'a memworld_scheme \<Rightarrow> string \<rightharpoonup> string" where
  "mem_tags bkt cfg w = (if cfg_Bucket cfg = bkt then mem_etag w else Map.empty)"

lemma stampReps_version:
  "x \<in> set (stampReps xs) \<Longrightarrow> \<exists>n < length xs. om_ResourceVersion (br_Meta x) = dec n"
  by (induction xs) (auto simp: stamp_def less_Suc_eq)

lemma stampImps_version:
  "x \<in> set (stampImps xs) \<Longrightarrow> \<exists>n < length xs. om_ResourceVersion (bi_Meta x) = dec n"
  by (induction xs) (auto simp: stamp_def less_Suc_eq)

lemma stampReps_inj:
  "x \<in> set (stampReps xs) \<Longrightarrow> y \<in> set (stampReps xs) \<Longrightarrow>
   om_ResourceVersion (br_Meta x) = om_ResourceVersion (br_Meta y) \<Longrightarrow> x = y"
proof (induction xs)
  case (Cons z zs)
  have "om_ResourceVersion (br_Meta v) \<noteq> dec (length zs)" if "v \<in> set (stampReps zs)" for v
    using stampReps_version [OF that] by (auto simp: dec_inject)
  then show ?case using Cons by (fastforce simp: stamp_def)
qed simp

lemma stampImps_inj:
  "x \<in> set (stampImps xs) \<Longrightarrow> y \<in> set (stampImps xs) \<Longrightarrow>
   om_ResourceVersion (bi_Meta x) = om_ResourceVersion (bi_Meta y) \<Longrightarrow> x = y"
proof (induction xs)
  case (Cons z zs)
  have "om_ResourceVersion (bi_Meta v) \<noteq> dec (length zs)" if "v \<in> set (stampImps zs)" for v
    using stampImps_version [OF that] by (auto simp: dec_inject)
  then show ?case using Cons by (fastforce simp: stamp_def)
qed simp

lemma find_Some: "List.find P xs = Some x \<Longrightarrow> x \<in> set xs \<and> P x"
  by (induction xs) (auto split: if_splits)

lemma mem_st_push:
  assumes "br_Meta y = stamp (length (kw_reps w)) m"
  shows "mem_st (w\<lparr>kw_reps := y # kw_reps w\<rparr>) = put_rep y (mem_st w)"
proof -
  have "y\<lparr>br_Meta := stamp (length (kw_reps w)) (br_Meta y)\<rparr> = y" using assms by (cases y) (simp add: stamp_def)
  then show ?thesis by (simp add: mem_st_def put_rep_def findRep_def findImp_def fun_eq_iff)
qed

lemma mem_st_push_imp:
  assumes "bi_Meta y = stamp (length (kw_imps w)) m"
  shows "mem_st (w\<lparr>kw_imps := y # kw_imps w\<rparr>) = put_imp y (mem_st w)"
proof -
  have "y\<lparr>bi_Meta := stamp (length (kw_imps w)) (bi_Meta y)\<rparr> = y" using assms by (cases y) (simp add: stamp_def)
  then show ?thesis by (simp add: mem_st_def put_imp_def findRep_def findImp_def fun_eq_iff)
qed

lemma stamp_key [simp]: "meta_key (stamp n m) = meta_key m"
  by (simp add: stamp_def meta_key_def)

lemma mem_st_reps: "ks_reps (mem_st w) = findRep w" "ks_imps (mem_st w) = findImp w"
  by (simp_all add: mem_st_def)

lemma findRep_key: "findRep w k = Some x \<Longrightarrow> rep_key x = k"
  by (auto simp: findRep_def dest!: find_Some)

lemma findImp_key: "findImp w k = Some x \<Longrightarrow> imp_key x = k"
  by (auto simp: findImp_def dest!: find_Some)

lemma mem_update_rep:
  assumes "mem_UpdateReplicationStatus x w = (r, w')"
  shows "case r of Inl e \<Rightarrow> w' = w
    | Inr y \<Rightarrow> \<exists>old. findRep w (rep_key x) = Some old \<and> om_ResourceVersion (br_Meta old) = om_ResourceVersion (br_Meta x) \<and>
        rep_key y = rep_key x \<and> br_Spec y = br_Spec old \<and> br_Status y = br_Status x \<and> mem_st w' = put_rep y (mem_st w)"
proof (cases "findRep w (rep_key x)")
  case (Some old)
  let ?y = "old\<lparr>br_Meta := stamp (length (kw_reps w)) (br_Meta old), br_Status := br_Status x\<rparr>"
  have "rep_key ?y = rep_key x" using findRep_key [OF Some] by (simp add: rep_key_def)
  moreover have "mem_st (w\<lparr>kw_reps := ?y # kw_reps w\<rparr>) = put_rep ?y (mem_st w)" by (rule mem_st_push) simp
  ultimately show ?thesis
    using assms Some by (auto simp: mem_UpdateReplicationStatus_def Let_def split: if_splits)
qed (use assms in \<open>auto simp: mem_UpdateReplicationStatus_def\<close>)

lemma mem_update_imp:
  assumes "mem_UpdateImportStatus x w = (r, w')"
  shows "case r of Inl e \<Rightarrow> w' = w
    | Inr y \<Rightarrow> \<exists>old. findImp w (imp_key x) = Some old \<and> om_ResourceVersion (bi_Meta old) = om_ResourceVersion (bi_Meta x) \<and>
        imp_key y = imp_key x \<and> bi_Spec y = bi_Spec old \<and> bi_Status y = bi_Status x \<and> mem_st w' = put_imp y (mem_st w)"
proof (cases "findImp w (imp_key x)")
  case (Some old)
  let ?y = "old\<lparr>bi_Meta := stamp (length (kw_imps w)) (bi_Meta old), bi_Status := bi_Status x\<rparr>"
  have "imp_key ?y = imp_key x" using findImp_key [OF Some] by (simp add: imp_key_def)
  moreover have "mem_st (w\<lparr>kw_imps := ?y # kw_imps w\<rparr>) = put_imp ?y (mem_st w)" by (rule mem_st_push_imp) simp
  ultimately show ?thesis
    using assms Some by (auto simp: mem_UpdateImportStatus_def Let_def split: if_splits)
qed (use assms in \<open>auto simp: mem_UpdateImportStatus_def\<close>)

lemma mem_ensure_rep:
  assumes "mem_EnsureReplication x g w = (r, w')"
  shows "case r of Inl e \<Rightarrow> w' = w
    | Inr op \<Rightarrow> \<exists>z y. g (case findRep w (rep_key x) of None \<Rightarrow> x | Some old \<Rightarrow> old) = Inr z \<and> rep_key y = rep_key x \<and>
        br_Spec y = br_Spec z \<and>
        br_Status y = (case findRep w (rep_key x) of None \<Rightarrow> zeroReplicationStatus | Some old \<Rightarrow> br_Status old) \<and>
        mem_st w' = put_rep y (mem_st w)"
proof (cases "g (case findRep w (rep_key x) of None \<Rightarrow> x | Some old \<Rightarrow> old)")
  case (Inr z)
  let ?y = "z\<lparr>br_Meta := stamp (length (kw_reps w)) ((br_Meta z)\<lparr>om_Name := om_Name (br_Meta x),
      om_Namespace := om_Namespace (br_Meta x)\<rparr>),
    br_Status := (case findRep w (rep_key x) of None \<Rightarrow> zeroReplicationStatus | Some o' \<Rightarrow> br_Status o')\<rparr>"
  have "rep_key ?y = rep_key x" by (simp add: rep_key_def meta_key_def stamp_def)
  moreover have "mem_st (w\<lparr>kw_reps := ?y # kw_reps w\<rparr>) = put_rep ?y (mem_st w)" by (rule mem_st_push) simp
  ultimately show ?thesis
    using assms Inr by (auto simp: mem_EnsureReplication_def Let_def intro!: exI [of _ ?y])
qed (use assms in \<open>auto simp: mem_EnsureReplication_def\<close>)

lemma mem_ensure_imp:
  assumes "mem_EnsureImport x g w = (r, w')"
  shows "case r of Inl e \<Rightarrow> w' = w
    | Inr op \<Rightarrow> \<exists>z y. g (case findImp w (imp_key x) of None \<Rightarrow> x | Some old \<Rightarrow> old) = Inr z \<and> imp_key y = imp_key x \<and>
        bi_Spec y = bi_Spec z \<and>
        bi_Status y = (case findImp w (imp_key x) of None \<Rightarrow> zeroImportStatus | Some old \<Rightarrow> bi_Status old) \<and>
        mem_st w' = put_imp y (mem_st w)"
proof (cases "g (case findImp w (imp_key x) of None \<Rightarrow> x | Some old \<Rightarrow> old)")
  case (Inr z)
  let ?y = "z\<lparr>bi_Meta := stamp (length (kw_imps w)) ((bi_Meta z)\<lparr>om_Name := om_Name (bi_Meta x),
      om_Namespace := om_Namespace (bi_Meta x)\<rparr>),
    bi_Status := (case findImp w (imp_key x) of None \<Rightarrow> zeroImportStatus | Some o' \<Rightarrow> bi_Status o')\<rparr>"
  have "imp_key ?y = imp_key x" by (simp add: imp_key_def meta_key_def stamp_def)
  moreover have "mem_st (w\<lparr>kw_imps := ?y # kw_imps w\<rparr>) = put_imp ?y (mem_st w)" by (rule mem_st_push_imp) simp
  ultimately show ?thesis
    using assms Inr by (auto simp: mem_EnsureImport_def Let_def intro!: exI [of _ ?y])
qed (use assms in \<open>auto simp: mem_EnsureImport_def\<close>)

lemmas mem_kube_writes = mem_update_rep mem_update_imp mem_ensure_rep mem_ensure_imp

interpretation mem_api: kube_api mem_kube mem_st
proof (unfold_locales, goal_cases)
  case (9 ns n w x w')
  then show ?case by (auto simp: mem_kube_def found_def mem_st_def findRep_def dest!: find_Some split: option.splits)
next
  case (10 ns n w x w')
  then show ?case by (auto simp: mem_kube_def found_def mem_st_def findImp_def dest!: find_Some split: option.splits)
next
  case (11 w k x)
  then show ?case by (auto simp: mem_st_def findRep_def dest!: find_Some)
next
  case (12 w k x)
  then show ?case by (auto simp: mem_st_def findImp_def dest!: find_Some)
next
  case (13 x w y)
  then show ?case by (auto simp: mem_st_def dest: stampReps_inj)
next
  case (14 x w y)
  then show ?case by (auto simp: mem_st_def dest: stampImps_inj)
qed (auto simp: mem_kube_def mem_st_reps dest!: mem_kube_writes)


lemma mem_client_bucket: "s3_client (mem_client bkt) b (\<lambda>w. if b = bkt then mem_store w else Map.empty)
    (\<lambda>w. if b = bkt then mem_etag w else Map.empty)"
proof (cases "b = bkt")
  case True
  then show ?thesis using mem_s3.s3_client_axioms by simp
next
  case False
  then show ?thesis
    by (unfold_locales) (auto simp: mem_client_def mem_stat_def mem_read_def mem_put_def)
qed

lemma mem_client_keeps:
  assumes "\<And>w os v ps. f (w\<lparr>mw_objs := os, mw_ver := v, mw_puts := ps\<rparr>) = f w"
  shows "client_keeps (mem_client bkt) f"
  unfolding client_keeps_def mem_client_def
  by (auto simp: keeps_def mem_stat_def mem_read_def mem_put_def assms split: if_splits option.splits prod.splits)

lemma node_deliver_fields:
  "node_deliver b i fs w = (hs, w') \<Longrightarrow> \<exists>m d. w' = w\<lparr>mf_files := m, pn_dists := d\<rparr>"
proof (induction fs arbitrary: i w hs)
  case Nil
  then have "w' = w\<lparr>mf_files := mf_files w, pn_dists := pn_dists w\<rparr>" by simp
  then show ?case by blast
next
  case (Cons f fs)
  then show ?case by (fastforce simp: Let_def split: prod.splits)
qed

lemma NewStore_client: "NewStore (mem_sdk bkt) cfg = Inr ms \<Longrightarrow> ms_client ms = mem_client bkt \<and> ms_bucket ms = cfg_Bucket cfg"
  by (auto simp: NewStore_def mem_sdk_def split: prod.splits if_splits sum.splits)

lemma mem_bucket_staging:
  assumes "ms_client ms = mem_client bkt"
  shows "staging_env mem_os (\<lambda>w :: 'a memworld_scheme. map_of (mf_files w)) (minio_Store ms) (fullKey (ms_prefix ms))
    (\<lambda>w k. (if ms_bucket ms = bkt then mem_store w else Map.empty) (fullKey (ms_prefix ms) k))"
proof (intro staging_env.intro staging_env_axioms.intro)
  show "posix_fs (mem_os :: 'a memworld_scheme OS) (\<lambda>w. map_of (mf_files w))" by unfold_locales
  show "object_store (minio_Store ms) (fullKey (ms_prefix ms))
    (\<lambda>w k. (if ms_bucket ms = bkt then mem_store w else Map.empty) (fullKey (ms_prefix ms) k))"
    by (rule store_of_client) (use mem_client_bucket [of bkt "ms_bucket ms"] assms in simp)
  have "client_keeps (mem_client bkt) (\<lambda>w :: 'a memworld_scheme. map_of (mf_files w))"
    by (rule mem_client_keeps) simp
  then have fr: "store_keeps (minio_Store ms) (\<lambda>w. map_of (mf_files w))"
    using minio_store_keeps assms by metis
  show "map_of (mf_files w') = map_of (mf_files w)" if "st_Open (minio_Store ms) k w = (opr, w')" for k w opr w'
    using keepsD [OF store_keepsD(2) [OF fr] that] .
  show "map_of (mf_files w3) = map_of (mf_files w2)"
    if "st_Open (minio_Store ms) k w = (Inr rd, w1)" "rd w2 = (rr, w3)" for k w rd w1 w2 rr w3
    using keepsD [OF store_keepsD(3) [OF fr that(1)] that(2)] .
qed (auto simp: mem_os_def mem_store_def Let_def)

interpretation mem_cluster: controller_env "mem_env sha256" mem_st "\<lambda>w. map_of (mf_files w)" "\<lambda>a. mem_docs" "mem_objects ''velero''" "mem_tags ''velero''"
  for sha256
proof (intro controller_env.intro controller_env_axioms.intro)
  show "kube_api (env_Kube (mem_env sha256)) mem_st"
    using mem_api.kube_api_axioms by (simp add: mem_env_def)
  show "peat_documents (env_Http (mem_env sha256)) a mem_docs" for a
    using mem_peat.peat_documents_axioms by (simp add: mem_env_def)
  show "s3_client (ms_client ms) (ms_bucket ms) (mem_objects ''velero'' cfg) (mem_tags ''velero'' cfg)"
    if "NewStore (env_SDK (mem_env sha256)) cfg = Inr ms" for cfg ms
    using mem_client_bucket [of "''velero''" "cfg_Bucket cfg"] NewStore_client [of "''velero''" cfg ms] that
    by (simp add: mem_env_def mem_objects_def [abs_def] mem_tags_def [abs_def])
  show "staging_env (env_OS (mem_env sha256)) (\<lambda>w. map_of (mf_files w)) (minio_Store ms) (fullKey (ms_prefix ms))
      (\<lambda>w k. mem_objects ''velero'' cfg w (fullKey (ms_prefix ms) k))"
    if "NewStore (env_SDK (mem_env sha256)) cfg = Inr ms" for cfg ms
    using mem_bucket_staging [of ms "''velero''"] NewStore_client [of "''velero''" cfg ms] that
    by (simp add: mem_env_def mem_objects_def)
  show "client_keeps (ms_client ms) mem_st" "client_keeps (ms_client ms) mem_docs"
    if "NewStore (env_SDK (mem_env sha256)) cfg = Inr ms" for cfg ms
    using NewStore_client [of "''velero''" cfg ms] that
    by (auto simp: mem_env_def mem_st_def findRep_def findImp_def mem_docs_def fun_eq_iff intro!: mem_client_keeps)
  show "os_keeps (env_OS (mem_env sha256)) mem_st"
    unfolding os_keeps_def
    by (auto simp: mem_env_def mem_os_def keeps_def Let_def mem_st_def findRep_def findImp_def fun_eq_iff
        split: option.splits)
  show "http_keeps (env_Http (mem_env sha256)) mem_st"
    unfolding http_keeps_def
    by (auto simp: mem_env_def mem_http_def keeps_def node_call_def Let_def mem_st_def findRep_def findImp_def
        fun_eq_iff split: sum.splits if_splits prod.splits dest!: node_deliver_fields)
  show "http_keeps (env_Http (mem_env sha256)) (mem_objects ''velero'' cfg)" for cfg
    unfolding http_keeps_def
    by (auto simp: mem_env_def mem_http_def keeps_def node_call_def Let_def mem_objects_def mem_store_def
        split: sum.splits if_splits prod.splits dest!: node_deliver_fields)
  show "kube_keeps (env_Kube (mem_env sha256)) mem_docs" "kube_keeps (env_Kube (mem_env sha256)) (mem_objects ''velero'' cfg)" for cfg
    unfolding kube_keeps_def kube_reads_keep_def
    by (auto simp: mem_env_def mem_kube_def keeps_def mem_docs_def mem_objects_def mem_store_def fun_eq_iff Let_def
        mem_UpdateReplicationStatus_def mem_UpdateImportStatus_def mem_EnsureReplication_def mem_EnsureImport_def
        split: option.splits sum.splits if_splits)
qed


section \<open>An example cluster\<close>

text \<open>
  One completed backup in the location \<open>default\<close>, whose bucket holds the discovery object of the
  backup and one repository object, and one policy.
\<close>

definition exBackup :: Backup where
  "exBackup = \<lparr>bk_Meta = newMeta ''b'' ''velero'',
     bk_Spec = \<lparr>bks_StorageLocation = ''default'', bks_IncludedNamespaces = [], bks_DefaultVolumesToFsBackup = None,
       bks_SnapshotVolumes = None\<rparr>,
     bk_Status = \<lparr>bkt_Phase = BackupPhaseCompleted, bkt_StartTimestamp = None, bkt_CompletionTimestamp = None,
       bkt_Expiration = None\<rparr>\<rparr>"

definition exPolicy :: ReplicationPolicy where
  "exPolicy = \<lparr>pol_Meta = newMeta ''p'' '''',
     pol_Spec = \<lparr>rp_Paused = False, rp_BackupStorageLocations = [''default''],
       rp_BackupStorageLocationSelector = None, rp_BackupSelector = None,
       rp_Target = \<lparr>tg_EndpointID = ''dest'', tg_NodeID = '''', tg_Addresses = [], tg_RelayURL = ''''\<rparr>,
       rp_Priority = ''Bulk'', rp_BundleByteLimit = 0, rp_BundleFileLimit = 64, rp_MaxConcurrentBundles = 0,
       rp_StaleAfter = None,
       rp_Peat = \<lparr>ps_Address = ''http://peat:50051'', ps_OutboxRoot = ''outbox'', ps_OutboxPath = ''/outbox''\<rparr>,
       rp_ObjectStore = \<lparr>oss_Endpoint = '''', oss_Region = '''', oss_CABundleSecretRef = None,
         oss_InsecureSkipTLSVerify = False, oss_CredentialsSecretRef = None\<rparr>\<rparr>,
     pol_Status = \<lparr>rps_Conditions = [], rps_BackupsReplicated = 0, rps_BytesReplicated = 0,
       rps_ObservedGeneration = 0\<rparr>\<rparr>"

definition exLocation :: BackupStorageLocation where
  "exLocation = \<lparr>loc_Meta = newMeta ''default'' ''velero'',
     loc_Spec = \<lparr>bsl_Provider = ''aws'',
       bsl_ObjectStorage = Some \<lparr>ol_Bucket = ''velero'', ol_Prefix = ''backups'', ol_CACert = []\<rparr>,
       bsl_Config = Some [(''s3Url'', ''https://minio.svc:9000'')], bsl_Credential = None, bsl_Default = True\<rparr>,
     loc_Phase = ''Available''\<rparr>"

definition exCluster :: kubeworld where
  "exCluster = \<lparr>mf_files = [],
     mw_objs = [(''backups/kopia/p0'', (''abc'', 1)), (''backups/backups/b/velero-backup.json'', (''{}'', 2))],
     mw_ver = 3, mw_puts = [], pn_outbox = ''/outbox'', pn_inbox = ''/inbox'', pn_docs = [], pn_dists = [],
     kw_now = 0, kw_reps = [], kw_imps = [], kw_backups = [exBackup], kw_policies = [exPolicy],
     kw_locations = [exLocation], kw_secrets = []\<rparr>"
end
