(* ===== verification/Backup_Controller.thy ===== *)
theory Backup_Controller
  imports Controller_Env
begin

text \<open>
  The source controller that watches Velero backups
  (\<open>src/src/internal/controller/backup_controller.go\<close>): it picks the policy of a completed
  backup and makes sure that a replication work item exists for it.
\<close>


section \<open>Model\<close>

fun anyEqual :: "string list \<Rightarrow> string \<Rightarrow> bool" where
  "anyEqual [] bsl = False"
| "anyEqual (name # names) bsl = (if name = bsl then True else anyEqual names bsl)"

definition matchesBSL :: "ReplicationPolicy \<Rightarrow> string \<Rightarrow> bool" where
  "matchesBSL p bsl =
     (if rp_BackupStorageLocations (pol_Spec p) = [] then True
      else anyEqual (rp_BackupStorageLocations (pol_Spec p)) bsl)"

definition matchesBackup :: "'w Kube \<Rightarrow> ReplicationPolicy \<Rightarrow> Backup \<Rightarrow> bool result" where
  "matchesBackup k p backup =
     (case rp_BackupSelector (pol_Spec p) of
        None \<Rightarrow> Inr True
      | Some sel \<Rightarrow>
          (case k_Selector k sel of
             Inl e \<Rightarrow> Inl e
           | Inr matches \<Rightarrow> Inr (matches (om_Labels (bk_Meta backup)))))"

fun firstMatch :: "'w Kube \<Rightarrow> Backup \<Rightarrow> ReplicationPolicy list \<Rightarrow> ReplicationPolicy option result" where
  "firstMatch k backup [] = Inr None"
| "firstMatch k backup (p # ps) =
     (if rp_Paused (pol_Spec p) then firstMatch k backup ps
      else if \<not> matchesBSL p (bks_StorageLocation (bk_Spec backup)) then firstMatch k backup ps
      else case matchesBackup k p backup of
          Inl e \<Rightarrow> Inl e
        | Inr ok \<Rightarrow> if ok then Inr (Some p) else firstMatch k backup ps)"

definition matchPolicy :: "'w Kube \<Rightarrow> Backup \<Rightarrow> ('w, ReplicationPolicy option) effect" where
  "matchPolicy k backup w =
     (case k_ListPolicies k w of
        (Inl e, w1) \<Rightarrow> (Inl e, w1)
      | (Inr items, w1) \<Rightarrow> (firstMatch k backup items, w1))"

text \<open>The mutation that \<open>CreateOrUpdate\<close> applies to the work item.\<close>

definition mutateReplication :: "'w Kube \<Rightarrow> Backup \<Rightarrow> ReplicationPolicy \<Rightarrow> BackupReplication \<Rightarrow>
    BackupReplication result" where
  "mutateReplication k backup policy br =
     k_SetControllerReference k backup
       (br\<lparr>br_Spec := \<lparr>brs_BackupName = om_Name (bk_Meta backup), brs_PolicyName = om_Name (pol_Meta policy),
          brs_StorageLocation = bks_StorageLocation (bk_Spec backup)\<rparr>\<rparr>)"

definition ReconcileBackup :: "'w Kube \<Rightarrow> string \<Rightarrow> string \<Rightarrow> 'w \<Rightarrow> 'w reconciled" where
  "ReconcileBackup k ns name w =
     (case k_GetBackup k ns name w of
        (Inl e, w1) \<Rightarrow> ((doneResult, ignore_not_found e), w1)
      | (Inr backup, w1) \<Rightarrow>
          if bkt_Phase (bk_Status backup) \<noteq> BackupPhaseCompleted then ((doneResult, None), w1)
          else case matchPolicy k backup w1 of
              (Inl e, w2) \<Rightarrow> ((doneResult, Some e), w2)
            | (Inr None, w2) \<Rightarrow> ((doneResult, None), w2)
            | (Inr (Some policy), w2) \<Rightarrow>
                (case k_CreateOrUpdateReplication k
                    (newReplication (om_Name (bk_Meta backup)) (om_Namespace (bk_Meta backup)))
                    (mutateReplication k backup policy) w2 of
                   (Inl e, w3) \<Rightarrow> ((doneResult, Some e), w3)
                 | (Inr res, w3) \<Rightarrow> ((doneResult, None), w3)))"


section \<open>Policies\<close>

lemma anyEqual_iff: "anyEqual names bsl \<longleftrightarrow> bsl \<in> set names"
  by (induction names) auto

text \<open>What makes a policy eligible for a backup, apart from the conversion of its selector.\<close>

definition candidate :: "Backup \<Rightarrow> ReplicationPolicy \<Rightarrow> bool" where
  "candidate backup p \<longleftrightarrow> \<not> rp_Paused (pol_Spec p) \<and>
     (rp_BackupStorageLocations (pol_Spec p) = [] \<or>
      bks_StorageLocation (bk_Spec backup) \<in> set (rp_BackupStorageLocations (pol_Spec p)))"

definition eligible :: "'w Kube \<Rightarrow> Backup \<Rightarrow> ReplicationPolicy \<Rightarrow> bool" where
  "eligible k backup p \<longleftrightarrow> candidate backup p \<and> matchesBackup k p backup = Inr True"

lemma firstMatch_step:
  "firstMatch k backup (p # ps) =
     (if \<not> candidate backup p then firstMatch k backup ps
      else case matchesBackup k p backup of
          Inl e \<Rightarrow> Inl e
        | Inr ok \<Rightarrow> if ok then Inr (Some p) else firstMatch k backup ps)"
  by (simp add: candidate_def matchesBSL_def anyEqual_iff)

declare firstMatch.simps(2) [simp del]

lemma firstMatch_Some:
  "firstMatch k backup ps = Inr (Some p) \<Longrightarrow>
   \<exists>pre post. ps = pre @ p # post \<and> eligible k backup p \<and> (\<forall>q \<in> set pre. \<not> eligible k backup q)"
proof (induction ps)
  case (Cons q ps)
  show ?case
  proof (cases "eligible k backup q")
    case True
    then have "p = q" using Cons.prems by (auto simp: firstMatch_step eligible_def)
    then show ?thesis using True by (intro exI [of _ "[]"] exI [of _ ps]) simp
  next
    case False
    then have "firstMatch k backup ps = Inr (Some p)"
      using Cons.prems by (auto simp: firstMatch_step eligible_def split: if_splits sum.splits)
    then obtain pre post where "ps = pre @ p # post" "eligible k backup p" "\<forall>q \<in> set pre. \<not> eligible k backup q"
      using Cons.IH by blast
    then show ?thesis using False by (intro exI [of _ "q # pre"] exI [of _ post]) simp
  qed
qed simp

lemma firstMatch_None:
  "firstMatch k backup ps = Inr None \<Longrightarrow> \<forall>q \<in> set ps. \<not> eligible k backup q"
  by (induction ps) (auto simp: firstMatch_step eligible_def split: if_splits sum.splits)

lemma firstMatch_error:
  "firstMatch k backup ps = Inl e \<Longrightarrow>
   \<exists>pre p post. ps = pre @ p # post \<and> candidate backup p \<and> matchesBackup k p backup = Inl e \<and>
     (\<forall>q \<in> set pre. \<not> eligible k backup q)"
proof (induction ps)
  case (Cons q ps)
  show ?case
  proof (cases "candidate backup q \<and> matchesBackup k q backup = Inl e")
    case True
    then show ?thesis by (intro exI [of _ "[]"] exI [of _ q] exI [of _ ps]) simp
  next
    case False
    then have "\<not> eligible k backup q" "firstMatch k backup ps = Inl e"
      using Cons.prems by (auto simp: firstMatch_step eligible_def split: if_splits sum.splits)
    then obtain pre p post where "ps = pre @ p # post" "candidate backup p" "matchesBackup k p backup = Inl e"
      "\<forall>q \<in> set pre. \<not> eligible k backup q" using Cons.IH by blast
    then show ?thesis using \<open>\<not> eligible k backup q\<close> by (intro exI [of _ "q # pre"] exI [of _ p] exI [of _ post]) simp
  qed
qed simp



lemma matchPolicy_frame:
  assumes "kube_api K st" and "matchPolicy K backup w = (r, w')"
  shows "st w' = st w"
  using assms(2) kube_api.list_policies_frame [OF assms(1)]
  by (cases "k_ListPolicies K w") (auto simp: matchPolicy_def split: sum.splits)

lemma matchPolicy_eligible: "matchPolicy K backup w = (Inr (Some p), w') \<Longrightarrow> eligible K backup p"
  using firstMatch_Some by (fastforce simp: matchPolicy_def split: sum.splits prod.splits)

lemma mutateReplication_spec:
  assumes "\<forall>b x y. k_SetControllerReference K b x = Inr y \<longrightarrow> br_Spec y = br_Spec x"
    and "mutateReplication K backup policy x = Inr z"
  shows "br_Spec z = \<lparr>brs_BackupName = om_Name (bk_Meta backup), brs_PolicyName = om_Name (pol_Meta policy),
    brs_StorageLocation = bks_StorageLocation (bk_Spec backup)\<rparr>"
  using assms unfolding mutateReplication_def by fastforce

text \<open>A reconcile stops before it writes, or it comes to the call of \<open>CreateOrUpdate\<close>.\<close>

lemma ReconcileBackup_cases:
  obtains (idle) w1 where
      "(\<exists>gr. k_GetBackup K ns name w = (gr, snd (ReconcileBackup K ns name w))) \<or>
       (\<exists>gr mr backup. k_GetBackup K ns name w = (gr, w1) \<and>
          matchPolicy K backup w1 = (mr, snd (ReconcileBackup K ns name w)))"
    | (ensure) backup w1 policy w2 er w3 where "k_GetBackup K ns name w = (Inr backup, w1)"
      "bkt_Phase (bk_Status backup) = BackupPhaseCompleted" "matchPolicy K backup w1 = (Inr (Some policy), w2)"
      "eligible K backup policy"
      "k_CreateOrUpdateReplication K (newReplication (om_Name (bk_Meta backup)) (om_Namespace (bk_Meta backup)))
         (mutateReplication K backup policy) w2 = (er, w3)" "snd (ReconcileBackup K ns name w) = w3"
proof (cases "k_GetBackup K ns name w")
  case (Pair gr w1)
  show ?thesis
  proof (cases "\<exists>backup. gr = Inr backup \<and> bkt_Phase (bk_Status backup) = BackupPhaseCompleted")
    case False
    then show ?thesis using Pair by (intro idle) (auto simp: ReconcileBackup_def split: sum.splits)
  next
    case True
    then obtain backup where b: "gr = Inr backup" "bkt_Phase (bk_Status backup) = BackupPhaseCompleted" by blast
    obtain mr w2 where m: "matchPolicy K backup w1 = (mr, w2)" by fastforce
    show ?thesis
    proof (cases "\<exists>policy. mr = Inr (Some policy)")
      case False
      then have "snd (ReconcileBackup K ns name w) = w2"
        using Pair b m by (auto simp: ReconcileBackup_def split: sum.splits option.splits)
      then show ?thesis using Pair m by (intro idle) blast
    next
      case True
      then obtain policy where p: "mr = Inr (Some policy)" by blast
      obtain er w3 where e: "k_CreateOrUpdateReplication K (newReplication (om_Name (bk_Meta backup)) (om_Namespace (bk_Meta backup)))
         (mutateReplication K backup policy) w2 = (er, w3)" by fastforce
      have "snd (ReconcileBackup K ns name w) = w3"
        using Pair b m p e by (auto simp: ReconcileBackup_def split: sum.splits)
      moreover have "eligible K backup policy" using matchPolicy_eligible [of K backup w1 policy w2] m p by simp
      ultimately show ?thesis
        by (intro ensure [of backup w1 policy w2 er w3]) (use Pair b m p e in simp_all)
    qed
  qed
qed


section \<open>Properties\<close>

text \<open>
  C34: policy selection: over the listed policies, \<open>matchPolicy\<close> returns the first one that is
  not paused, covers the backup's storage location (naming it, or naming none) and whose
  selector matches the backup's labels; it returns none only when no policy is eligible; and
  it fails only on a selector that cannot be converted, of an unpaused covering policy with no
  eligible one before it. The label selector of storage locations has no influence: the code
  does not read it yet, although the API documents it, so that a policy which restricts its
  locations by labels alone is eligible for the backups of every location.
\<close>

theorem match_policy_first_eligible:
  assumes "k_ListPolicies k w = (Inr ps, w1)"
  shows "snd (matchPolicy k backup w) = w1 \<and>
    (case fst (matchPolicy k backup w) of
       Inr (Some p) \<Rightarrow> \<exists>pre post. ps = pre @ p # post \<and> eligible k backup p \<and> (\<forall>q \<in> set pre. \<not> eligible k backup q)
     | Inr None \<Rightarrow> \<forall>q \<in> set ps. \<not> eligible k backup q
     | Inl e \<Rightarrow> \<exists>pre p post. ps = pre @ p # post \<and> candidate backup p \<and> matchesBackup k p backup = Inl e \<and>
         (\<forall>q \<in> set pre. \<not> eligible k backup q)) \<and>
    (\<forall>p sel. eligible k backup (p\<lparr>pol_Spec := (pol_Spec p)\<lparr>rp_BackupStorageLocationSelector := sel\<rparr>\<rparr>) = eligible k backup p)"
proof -
  have "eligible k backup (p\<lparr>pol_Spec := (pol_Spec p)\<lparr>rp_BackupStorageLocationSelector := sel\<rparr>\<rparr>) = eligible k backup p"
    for p sel by (simp add: eligible_def candidate_def matchesBackup_def)
  moreover have "matchPolicy k backup w = (firstMatch k backup ps, w1)" using assms by (simp add: matchPolicy_def)
  ultimately show ?thesis
    using firstMatch_Some [of k backup ps] firstMatch_None [of k backup ps] firstMatch_error [of k backup ps]
    by (simp split: sum.split option.split)
qed

theorem match_policy_first_eligible_witness:
  "matchPolicy mem_kube exBackup exCluster = (Inr (Some exPolicy), exCluster) \<and> eligible mem_kube exBackup exPolicy"
proof -
  have list: "k_ListPolicies mem_kube exCluster = (Inr [exPolicy], exCluster)" by (simp add: mem_kube_def exCluster_def)
  have run: "fst (matchPolicy mem_kube exBackup exCluster) = Inr (Some exPolicy)"
    by (simp add: matchPolicy_def list firstMatch_step candidate_def matchesBackup_def exBackup_def exPolicy_def)
  then show ?thesis
    using match_policy_first_eligible [OF list, of exBackup] by (auto simp: prod_eq_iff Cons_eq_append_conv)
qed

text \<open>
  C28: the backup controller only creates work items that are due: a reconcile either leaves all
  stored objects alone, or it has read a completed backup for which a policy is eligible, and
  what it has written is the work item with the name and namespace of that backup, naming the
  backup, the policy and the backup's storage location, with the status it had before (that of
  a new object when there was none).
\<close>

theorem backup_reconcile_writes_due_item:
  assumes "kube_api K st"
    and "\<forall>b x y. k_SetControllerReference K b x = Inr y \<longrightarrow> br_Spec y = br_Spec x"
    and "ReconcileBackup K ns name w = (res, w')"
  shows "st w' = st w \<or>
    (\<exists>backup policy y. fst (k_GetBackup K ns name w) = Inr backup \<and>
       bkt_Phase (bk_Status backup) = BackupPhaseCompleted \<and> eligible K backup policy \<and>
       rep_key y = meta_key (bk_Meta backup) \<and>
       br_Spec y = \<lparr>brs_BackupName = om_Name (bk_Meta backup), brs_PolicyName = om_Name (pol_Meta policy),
         brs_StorageLocation = bks_StorageLocation (bk_Spec backup)\<rparr> \<and>
       br_Status y = (case ks_reps (st w) (rep_key y) of None \<Rightarrow> zeroReplicationStatus | Some old \<Rightarrow> br_Status old) \<and>
       st w' = put_rep y (st w))"
proof (cases rule: ReconcileBackup_cases [of K ns name w])
  case (idle w1)
  then show ?thesis
    using assms(3) matchPolicy_frame [OF assms(1)] kube_api.get_backup_frame [OF assms(1)] by fastforce
next
  case (ensure backup w1 policy w2 er w3)
  let ?new = "newReplication (om_Name (bk_Meta backup)) (om_Namespace (bk_Meta backup))"
  have st2: "st w2 = st w"
    using ensure matchPolicy_frame [OF assms(1)] kube_api.get_backup_frame [OF assms(1)] by metis
  have key: "rep_key ?new = meta_key (bk_Meta backup)"
    by (simp add: rep_key_def newReplication_def newMeta_def meta_key_def)
  show ?thesis
  proof (cases er)
    case (Inl err)
    then show ?thesis using kube_api.ensure_rep_err [OF assms(1)] ensure st2 assms(3) by (metis snd_conv)
  next
    case (Inr op)
    then obtain z y where z: "mutateReplication K backup policy
        (case ks_reps (st w2) (rep_key ?new) of None \<Rightarrow> ?new | Some old \<Rightarrow> old) = Inr z"
      "rep_key y = rep_key ?new" "br_Spec y = br_Spec z"
      "br_Status y = (case ks_reps (st w2) (rep_key ?new) of None \<Rightarrow> zeroReplicationStatus | Some old \<Rightarrow> br_Status old)"
      "st w3 = put_rep y (st w2)"
      using kube_api.ensure_rep_ok [OF assms(1)] ensure by blast
    then show ?thesis
      using ensure mutateReplication_spec [OF assms(2) z(1)] key st2 assms(3)
      by (intro disjI2 exI [of _ backup] exI [of _ policy] exI [of _ y]) auto
  qed
qed

theorem backup_reconcile_writes_due_item_witness:
  "\<exists>y. ks_reps (mem_st (snd (ReconcileBackup mem_kube ''velero'' ''b'' exCluster))) (''velero'', ''b'') = Some y \<and>
     brs_BackupName (br_Spec y) = ''b''"
proof -
  have owner: "\<forall>b x y. k_SetControllerReference mem_kube b x = Inr y \<longrightarrow> br_Spec y = br_Spec x"
    by (auto simp: mem_kube_def)
  have "kw_reps (snd (ReconcileBackup mem_kube ''velero'' ''b'' exCluster)) \<noteq> []"
    by code_simp
  then have new: "mem_st (snd (ReconcileBackup mem_kube ''velero'' ''b'' exCluster)) \<noteq> mem_st exCluster"
    by (cases "kw_reps (snd (ReconcileBackup mem_kube ''velero'' ''b'' exCluster))")
      (auto simp: mem_st_def exCluster_def)
  have "fst (k_GetBackup mem_kube ''velero'' ''b'' exCluster) = Inr exBackup" by code_simp
  then obtain y where "rep_key y = (''velero'', ''b'')" "brs_BackupName (br_Spec y) = ''b''"
    "mem_st (snd (ReconcileBackup mem_kube ''velero'' ''b'' exCluster)) = put_rep y (mem_st exCluster)"
    using backup_reconcile_writes_due_item [OF mem_api.kube_api_axioms owner surjective_pairing,
        of "''velero''" "''b''" exCluster] new
    by (auto simp: exBackup_def meta_key_def newMeta_def)
  then show ?thesis by simp
qed

end
