(* ===== verification/Batching.thy ===== *)
theory Batching
  imports Peat_Types
begin

text \<open>
  The bundle packer (\<open>src/src/internal/batching/batching.go\<close>): \<open>Pack\<close> groups the staged
  files into bundles under a file-count cap and a byte cap. The loop is a fold whose state is
  the pair of finished batches and the current batch; sizes are 64-bit words, so the running
  byte count wraps as it does in Go. The lemmas characterise the result: it is the one
  partition of the input in its order in which every batch respects the caps and no file
  could have joined the batch before it.
\<close>


section \<open>Model\<close>

record Batch =
  b_Files :: "FileSpec list"
  b_Bytes :: u64

definition emptyBatch :: Batch where
  "emptyBatch = \<lparr>b_Files = [], b_Bytes = 0\<rparr>"

definition flush :: "Batch list \<times> Batch \<Rightarrow> Batch list \<times> Batch" where
  "flush st = (case st of (batches, cur) \<Rightarrow>
     if length (b_Files cur) > 0 then (batches @ [cur], emptyBatch) else (batches, cur))"

definition addFile :: "Batch \<Rightarrow> FileSpec \<Rightarrow> Batch" where
  "addFile cur f = cur\<lparr>b_Files := b_Files cur @ [f], b_Bytes := b_Bytes cur + fs_Size f\<rparr>"

definition packStep :: "int \<Rightarrow> u64 \<Rightarrow> Batch list \<times> Batch \<Rightarrow> FileSpec \<Rightarrow> Batch list \<times> Batch" where
  "packStep maxFiles maxBytes st f =
     (let cur = snd st;
          wouldExceedFiles = int (length (b_Files cur)) + 1 > maxFiles;
          wouldExceedBytes = length (b_Files cur) > 0 \<and> b_Bytes cur + fs_Size f > maxBytes;
          st' = (if wouldExceedFiles \<or> wouldExceedBytes then flush st else st)
      in (fst st', addFile (snd st') f))"

definition effMaxFiles :: "int \<Rightarrow> int" where
  "effMaxFiles maxFiles = (if maxFiles \<le> 0 then 64 else maxFiles)"

definition effMaxBytes :: "u64 \<Rightarrow> u64" where
  "effMaxBytes maxBytes = (if maxBytes = 0 then 2 ^ 30 else maxBytes)"

definition Pack :: "FileSpec list \<Rightarrow> int \<Rightarrow> u64 \<Rightarrow> Batch list" where
  "Pack files maxFiles maxBytes =
     fst (flush (foldl (packStep (effMaxFiles maxFiles) (effMaxBytes maxBytes))
       ([], emptyBatch) files))"


section \<open>Reference definition\<close>

text \<open>
  The specification of a packing: the batches split the input in order; every batch is
  non-empty, within the file cap, carries the sum of its sizes, and each of its files but the
  first fitted under the byte cap when it was added; the first file of a batch did not fit
  into the batch before.
\<close>

definition wsum :: "FileSpec list \<Rightarrow> u64" where
  "wsum fs = foldl (\<lambda>n f. n + fs_Size f) 0 fs"

fun fits :: "u64 \<Rightarrow> u64 \<Rightarrow> FileSpec list \<Rightarrow> bool" where
  "fits maxBytes n [] = True"
| "fits maxBytes n (f # fs) = (n + fs_Size f \<le> maxBytes \<and> fits maxBytes (n + fs_Size f) fs)"

definition batch_ok :: "int \<Rightarrow> u64 \<Rightarrow> Batch \<Rightarrow> bool" where
  "batch_ok mf mb b \<longleftrightarrow>
     b_Files b \<noteq> [] \<and> int (length (b_Files b)) \<le> mf \<and> b_Bytes b = wsum (b_Files b) \<and>
     fits mb (fs_Size (hd (b_Files b))) (tl (b_Files b))"

definition no_room :: "int \<Rightarrow> u64 \<Rightarrow> Batch \<Rightarrow> FileSpec \<Rightarrow> bool" where
  "no_room mf mb b f \<longleftrightarrow> int (length (b_Files b)) + 1 > mf \<or> b_Bytes b + fs_Size f > mb"

fun next_fit :: "int \<Rightarrow> u64 \<Rightarrow> Batch list \<Rightarrow> bool" where
  "next_fit mf mb [] = True"
| "next_fit mf mb [b] = batch_ok mf mb b"
| "next_fit mf mb (b # b' # bs) =
     (batch_ok mf mb b \<and> no_room mf mb b (hd (b_Files b')) \<and> next_fit mf mb (b' # bs))"


section \<open>The loop as a recursion\<close>

text \<open>\<open>packRec\<close> is the rest of the loop from a current batch, without the accumulator.\<close>

fun packRec :: "int \<Rightarrow> u64 \<Rightarrow> Batch \<Rightarrow> FileSpec list \<Rightarrow> Batch list" where
  "packRec mf mb cur [] = (if b_Files cur = [] then [] else [cur])"
| "packRec mf mb cur (f # fs) =
     (if b_Files cur \<noteq> [] \<and> no_room mf mb cur f
      then cur # packRec mf mb (addFile emptyBatch f) fs
      else packRec mf mb (addFile cur f) fs)"

lemma packStep_packRec:
  "0 < mf \<Longrightarrow> fst (flush (foldl (packStep mf mb) (bs, cur) fs)) = bs @ packRec mf mb cur fs"
proof (induction fs arbitrary: bs cur)
  case Nil
  then show ?case by (simp add: flush_def)
next
  case (Cons f fs)
  have "packStep mf mb (bs, cur) f =
      (if b_Files cur \<noteq> [] \<and> no_room mf mb cur f then (bs @ [cur], addFile emptyBatch f)
       else (bs, addFile cur f))"
    using Cons.prems by (auto simp: packStep_def flush_def no_room_def Let_def)
  then show ?case using Cons by simp
qed

lemma effMaxFiles_pos [simp]: "0 < effMaxFiles mf"
  by (simp add: effMaxFiles_def)

lemma Pack_packRec:
  "Pack files mf mb = packRec (effMaxFiles mf) (effMaxBytes mb) emptyBatch files"
  by (simp add: Pack_def packStep_packRec)

lemma wsum_Nil [simp]: "wsum [] = 0"
  by (simp add: wsum_def)

lemma wsum_snoc [simp]: "wsum (fs @ [f]) = wsum fs + fs_Size f"
  by (simp add: wsum_def)

lemma wsum_Cons: "wsum (f # fs) = fs_Size f + wsum fs"
proof -
  have "foldl (\<lambda>n f. n + fs_Size f) k fs = k + foldl (\<lambda>n f. n + fs_Size f) 0 fs" for k :: u64
    by (induction fs rule: rev_induct) (simp_all add: add.assoc)
  from this [of "fs_Size f"] show ?thesis by (simp add: wsum_def)
qed

lemma b_Files_addFile [simp]: "b_Files (addFile b f) = b_Files b @ [f]"
  by (simp add: addFile_def)

lemma b_Bytes_addFile [simp]: "b_Bytes (addFile b f) = b_Bytes b + fs_Size f"
  by (simp add: addFile_def)

lemma emptyBatch_sel [simp]: "b_Files emptyBatch = []" "b_Bytes emptyBatch = 0"
  by (simp_all add: emptyBatch_def)

lemma fits_snoc: "fits mb n (fs @ [f]) \<longleftrightarrow> fits mb n fs \<and> n + wsum fs + fs_Size f \<le> mb"
  by (induction fs arbitrary: n) (simp_all add: wsum_Cons add.assoc)

lemma batch_ok_single: "0 < mf \<Longrightarrow> batch_ok mf mb (addFile emptyBatch f)"
  by (simp add: batch_ok_def wsum_Cons)

lemma batch_ok_addFile:
  assumes "batch_ok mf mb b" and "\<not> no_room mf mb b f"
  shows "batch_ok mf mb (addFile b f)"
proof -
  obtain g gs where b: "b_Files b = g # gs"
    using assms(1) by (auto simp: batch_ok_def neq_Nil_conv)
  then show ?thesis
    using assms by (auto simp: batch_ok_def no_room_def fits_snoc wsum_Cons not_less add.assoc
        simp flip: append_Cons)
qed

text \<open>A current batch is either empty (only before the first file) or already well-formed.\<close>

definition cur_ok :: "int \<Rightarrow> u64 \<Rightarrow> Batch \<Rightarrow> bool" where
  "cur_ok mf mb b \<longleftrightarrow> b = emptyBatch \<or> batch_ok mf mb b"

lemma cur_ok_addFile:
  "0 < mf \<Longrightarrow> cur_ok mf mb b \<Longrightarrow> b_Files b = [] \<or> \<not> no_room mf mb b f \<Longrightarrow>
     batch_ok mf mb (addFile b f)"
  by (auto simp: cur_ok_def batch_ok_single batch_ok_addFile batch_ok_def [of _ _ b])

lemma packRec_concat:
  "concat (map b_Files (packRec mf mb cur fs)) = b_Files cur @ fs"
  by (induction mf mb cur fs rule: packRec.induct) auto

lemma packRec_first:
  "packRec mf mb cur fs = b # bs \<Longrightarrow> b_Files cur \<noteq> [] \<Longrightarrow> hd (b_Files b) = hd (b_Files cur)"
  by (induction mf mb cur fs rule: packRec.induct) (auto split: if_splits)

lemma packRec_neq_Nil: "b_Files cur \<noteq> [] \<Longrightarrow> packRec mf mb cur fs \<noteq> []"
  by (induction mf mb cur fs rule: packRec.induct) auto

lemma packRec_next_fit:
  "0 < mf \<Longrightarrow> cur_ok mf mb cur \<Longrightarrow> next_fit mf mb (packRec mf mb cur fs)"
proof (induction mf mb cur fs rule: packRec.induct)
  case (1 mf mb cur)
  then show ?case by (auto simp: cur_ok_def)
next
  case (2 mf mb cur f fs)
  show ?case
  proof (cases "b_Files cur \<noteq> [] \<and> no_room mf mb cur f")
    case True
    let ?rest = "packRec mf mb (addFile emptyBatch f) fs"
    obtain b bs where rest: "?rest = b # bs"
      using packRec_neq_Nil [of "addFile emptyBatch f" mf mb fs] by (cases ?rest) auto
    then have hd: "hd (b_Files b) = f"
      using packRec_first [OF rest] by simp
    have "next_fit mf mb ?rest"
      using "2.IH"(1) [OF True] "2.prems" by (simp add: cur_ok_def batch_ok_single)
    moreover have "batch_ok mf mb cur" using "2.prems" True by (auto simp: cur_ok_def)
    ultimately show ?thesis using True rest hd by simp
  next
    case False
    then have "cur_ok mf mb (addFile cur f)"
      using "2.prems" cur_ok_addFile by (auto simp: cur_ok_def)
    then show ?thesis using "2.IH"(2) [OF False] "2.prems"(1) by (auto simp: False)
  qed
qed



section \<open>Uniqueness\<close>

lemma packRec_absorb:
  "b_Files cur \<noteq> [] \<Longrightarrow> fits mb (b_Bytes cur) gs \<Longrightarrow>
   int (length (b_Files cur)) + int (length gs) \<le> mf \<Longrightarrow>
   packRec mf mb cur (gs @ rest) = packRec mf mb (foldl addFile cur gs) rest"
  by (induction gs arbitrary: cur) (auto simp: no_room_def)

lemma foldl_addFile:
  "b_Files (foldl addFile b gs) = b_Files b @ gs"
  "b_Bytes (foldl addFile b gs) = b_Bytes b + wsum gs"
  by (induction gs arbitrary: b) (simp_all add: wsum_Cons add.assoc)

lemma foldl_addFile_batch:
  assumes "b_Bytes b = wsum (b_Files b)"
  shows "foldl addFile emptyBatch (b_Files b) = b"
  using assms by (intro Batch.equality) (simp_all add: foldl_addFile)

lemma packRec_batch:
  assumes "batch_ok mf mb b"
  shows "packRec mf mb emptyBatch (b_Files b @ rest) = packRec mf mb b rest"
proof -
  obtain g gs where b: "b_Files b = g # gs"
    using assms by (auto simp: batch_ok_def neq_Nil_conv)
  have "packRec mf mb emptyBatch (b_Files b @ rest) =
      packRec mf mb (addFile emptyBatch g) (gs @ rest)"
    by (simp add: b)
  also have "\<dots> = packRec mf mb (foldl addFile (addFile emptyBatch g) gs) rest"
    using assms b by (intro packRec_absorb) (auto simp: batch_ok_def)
  also have "foldl addFile (addFile emptyBatch g) gs = b"
    using foldl_addFile_batch [of b] assms b by (simp add: batch_ok_def)
  finally show ?thesis .
qed

lemma next_fit_packRec:
  "next_fit mf mb bs \<Longrightarrow> packRec mf mb emptyBatch (concat (map b_Files bs)) = bs"
proof (induction mf mb bs rule: next_fit.induct)
  case (1 mf mb)
  then show ?case by simp
next
  case (2 mf mb b)
  then show ?case using packRec_batch [of mf mb b "[]"] by (simp add: batch_ok_def)
next
  case (3 mf mb b b' bs)
  have ok: "batch_ok mf mb b" "b_Files b \<noteq> []" "no_room mf mb b (hd (b_Files b'))"
    using "3.prems" by (auto simp: batch_ok_def)
  have "batch_ok mf mb b'" using "3.prems" by (cases bs) auto
  then obtain g gs where b': "b_Files b' = g # gs"
    by (auto simp: batch_ok_def neq_Nil_conv)
  let ?rest = "b_Files b' @ concat (map b_Files bs)"
  have "packRec mf mb emptyBatch (b_Files b @ ?rest) = packRec mf mb b ?rest"
    using ok(1) by (rule packRec_batch)
  also have "\<dots> = b # packRec mf mb emptyBatch ?rest"
    using ok b' by simp
  also have "packRec mf mb emptyBatch ?rest = b' # bs"
    using "3.IH" "3.prems" by simp
  finally show ?case by simp
qed

lemma packRec_butlast_prefix:
  "prefix (butlast (packRec mf mb cur xs)) (packRec mf mb cur (xs @ ys))"
  by (induction mf mb cur xs rule: packRec.induct) (auto simp: packRec_neq_Nil)


section \<open>Byte counts without wrap-around\<close>

abbreviation nsum :: "FileSpec list \<Rightarrow> nat" where
  "nsum fs \<equiv> sum_list (map (\<lambda>f. unat (fs_Size f)) fs)"

lemma fits_nat:
  assumes "fits mb n fs" and "unat n \<le> 2 ^ 63" and "unat mb \<le> 2 ^ 63"
    and "\<forall>f \<in> set fs. unat (fs_Size f) < 2 ^ 63"
  shows "unat (n + wsum fs) = unat n + nsum fs \<and> (fs = [] \<or> unat n + nsum fs \<le> unat mb)"
  using assms
proof (induction fs arbitrary: n)
  case (Cons f fs)
  have add: "unat (n + fs_Size f) = unat n + unat (fs_Size f)"
    using Cons.prems by (intro unat_add_no_wrap) simp
  have le: "unat (n + fs_Size f) \<le> unat mb"
    using Cons.prems(1) by (simp add: word_le_nat_alt)
  have "unat (n + fs_Size f + wsum fs) = unat (n + fs_Size f) + nsum fs \<and>
      (fs = [] \<or> unat (n + fs_Size f) + nsum fs \<le> unat mb)"
    using Cons.prems le by (intro Cons.IH) simp_all
  then show ?case using add le by (auto simp: wsum_Cons add.assoc)
qed simp

lemma batch_ok_bytes:
  assumes "batch_ok mf mb b" and "unat mb \<le> 2 ^ 63"
    and "\<forall>f \<in> set (b_Files b). unat (fs_Size f) < 2 ^ 63"
  shows "unat (b_Bytes b) = nsum (b_Files b) \<and>
    (length (b_Files b) = 1 \<or> nsum (b_Files b) \<le> unat mb)"
proof -
  obtain g gs where b: "b_Files b = g # gs"
    using assms(1) by (auto simp: batch_ok_def neq_Nil_conv)
  have "unat (fs_Size g + wsum gs) = unat (fs_Size g) + nsum gs \<and>
      (gs = [] \<or> unat (fs_Size g) + nsum gs \<le> unat mb)"
    using assms b by (intro fits_nat) (auto simp: batch_ok_def less_imp_le)
  then show ?thesis using assms(1) b by (auto simp: batch_ok_def wsum_Cons)
qed

lemma next_fit_batch_ok: "next_fit mf mb bs \<Longrightarrow> b \<in> set bs \<Longrightarrow> batch_ok mf mb b"
  by (induction mf mb bs rule: next_fit.induct) auto

lemma Pack_next_fit: "next_fit (effMaxFiles mf) (effMaxBytes mb) (Pack files mf mb)"
  by (simp add: Pack_packRec packRec_next_fit cur_ok_def)

lemma Pack_batch_ok: "b \<in> set (Pack files mf mb) \<Longrightarrow> batch_ok (effMaxFiles mf) (effMaxBytes mb) b"
  using Pack_next_fit next_fit_batch_ok by blast

lemma Pack_concat_files: "concat (map b_Files (Pack files mf mb)) = files"
  by (simp add: Pack_packRec packRec_concat)

lemma Pack_files_subset: "b \<in> set (Pack files mf mb) \<Longrightarrow> set (b_Files b) \<subseteq> set files"
  using arg_cong [OF Pack_concat_files [of files mf mb], of set] by auto


definition exampleFile :: "string \<Rightarrow> u64 \<Rightarrow> FileSpec" where
  "exampleFile k n = \<lparr>fs_RootName = ''outbox'', fs_RelativePath = k, fs_Size = n,
     fs_SHA256 = [], fs_ContentType = [], fs_DisplayName = k\<rparr>"


section \<open>Properties\<close>

text \<open>
  C13: \<open>Pack\<close> computes exactly the next-fit packing of its input. Its result splits the
  files in their order into non-empty batches within the file cap, each file after the first
  of a batch fitting under the byte cap when it was added, and no batch leaving room for the
  first file of the next one; and it is the only list of batches with these properties. A cap
  that is not positive (zero for the bytes) stands for peat's default.
\<close>

theorem Pack_characterised:
  "concat (map b_Files bs) = files \<and> next_fit (effMaxFiles maxFiles) (effMaxBytes maxBytes) bs
   \<longleftrightarrow> bs = Pack files maxFiles maxBytes"
  using next_fit_packRec [of "effMaxFiles maxFiles" "effMaxBytes maxBytes" bs]
  by (auto simp: Pack_concat_files Pack_next_fit) (simp add: Pack_packRec)

text \<open>
  C24: with sizes and byte cap in the range of \<open>int64\<close> (sizes come from \<open>io.Copy\<close>, the cap
  from an \<open>int64\<close> field) the byte count of every batch is the true sum of its sizes, the
  number of files is within the cap, and a batch over the byte cap holds a single oversized
  file.
\<close>

theorem Pack_respects_caps:
  assumes "b \<in> set (Pack files maxFiles maxBytes)"
    and "\<forall>f \<in> set files. unat (fs_Size f) < 2 ^ 63"
    and "unat maxBytes \<le> 2 ^ 63"
  shows "1 \<le> length (b_Files b) \<and> int (length (b_Files b)) \<le> effMaxFiles maxFiles \<and>
    unat (b_Bytes b) = nsum (b_Files b) \<and>
    (length (b_Files b) = 1 \<or> nsum (b_Files b) \<le> unat (effMaxBytes maxBytes))"
proof -
  have ok: "batch_ok (effMaxFiles maxFiles) (effMaxBytes maxBytes) b"
    using assms(1) by (rule Pack_batch_ok)
  moreover have "unat (effMaxBytes maxBytes) \<le> 2 ^ 63"
    using assms(3) by (simp add: effMaxBytes_def)
  moreover have "\<forall>f \<in> set (b_Files b). unat (fs_Size f) < 2 ^ 63"
    using assms(2) Pack_files_subset [OF assms(1)] by blast
  ultimately show ?thesis
    using batch_ok_bytes [OF ok] by (auto simp: batch_ok_def Suc_le_eq)
qed

theorem Pack_respects_caps_witness:
  "int (length (b_Files (Pack [exampleFile ''a'' 2000, exampleFile ''b'' 10] 64 1000 ! 0))) \<le> 64 \<and>
   unat (b_Bytes (Pack [exampleFile ''a'' 2000, exampleFile ''b'' 10] 64 1000 ! 0)) = 2000"
proof -
  let ?fs = "[exampleFile ''a'' 2000, exampleFile ''b'' 10]"
  have P: "Pack ?fs 64 1000 = [addFile emptyBatch (exampleFile ''a'' 2000),
      addFile emptyBatch (exampleFile ''b'' 10)]"
    by (simp add: Pack_packRec effMaxFiles_def effMaxBytes_def no_room_def exampleFile_def)
  have "Pack ?fs 64 1000 ! 0 \<in> set (Pack ?fs 64 1000)" by (simp add: P)
  from Pack_respects_caps [OF this] P show ?thesis
    by (simp add: exampleFile_def effMaxFiles_def)
qed

text \<open>
  C25: batch indices are stable: appending files to the input leaves every batch but the last
  where it was, so the bundle ids derived from the indices of finished batches stay with the
  same files.
\<close>

theorem Pack_prefix_stable:
  "prefix (butlast (Pack files maxFiles maxBytes)) (Pack (files @ files') maxFiles maxBytes)"
  by (simp add: Pack_packRec packRec_butlast_prefix)

text \<open>
  Beyond those ranges the 64-bit sum wraps and the byte cap is not kept: a file of
  \<open>2 ^ 64 - 1\<close> declared bytes and a second file share a batch that reports 9 bytes under a
  cap of 1000, although the comment on \<open>Pack\<close> gives an oversized file a batch of its own.
\<close>

theorem Pack_wraps_beyond_uint64:
  "\<exists>b. Pack [exampleFile ''a'' 18446744073709551615, exampleFile ''b'' 10] 64 1000 = [b] \<and>
     unat (b_Bytes b) = 9 \<and> nsum (b_Files b) = 2 ^ 64 + 9"
  by (simp add: Pack_packRec effMaxFiles_def effMaxBytes_def no_room_def exampleFile_def)

end
