(* ===== verification/Credentials.thy ===== *)
theory Credentials
  imports Go_Strings "HOL-Library.Multiset"
begin

text \<open>
  The parser of AWS shared-credentials files (\<open>src/src/internal/objstore/creds.go\<close>). Sections
  are kept as an association list of maps in order of first appearance; Go's map has no order,
  and the only loop over it, in \<open>pickProfile\<close>, does not depend on one.
\<close>


section \<open>Model\<close>

type_synonym section_kv = "(string \<times> string) list"
type_synonym sections = "(string \<times> section_kv) list"

text \<open>Map lookup with the zero value.\<close>

definition kv_get :: "(string \<times> string) list \<Rightarrow> string \<Rightarrow> string" where
  "kv_get m k = (case map_of m k of None \<Rightarrow> '''' | Some v \<Rightarrow> v)"

definition credLine :: "sections \<times> string \<Rightarrow> string \<Rightarrow> sections \<times> string" where
  "credLine st raw = (case st of (secs, current) \<Rightarrow>
     (let line = trim_space raw
      in if line = '''' \<or> has_prefix line ''#'' \<or> has_prefix line '';'' then (secs, current)
         else if has_prefix line ''['' \<and> has_suffix line '']'' then
           (let current' = trim_space (butlast (tl line))
            in (if map_of secs current' = None then secs @ [(current', [])] else secs, current'))
         else case cut (CHR ''='') line of (k, v, ok) \<Rightarrow>
           if \<not> ok then (secs, current)
           else (kv_set current
                   (kv_set (to_lower (trim_space k)) (trim_space v)
                     (case map_of secs current of None \<Rightarrow> [] | Some kv \<Rightarrow> kv)) secs, current)))"

definition pickProfile :: "sections \<Rightarrow> string \<Rightarrow> section_kv option" where
  "pickProfile secs profile =
     (case map_of secs profile of
        Some (e # kv) \<Rightarrow> Some (e # kv)
      | _ \<Rightarrow>
        (case map_of secs '''' of
           Some (e # kv) \<Rightarrow> Some (e # kv)
         | _ \<Rightarrow>
           (case filter (\<lambda>(name, kv). \<not> (name = '''' \<or> kv = [])) secs of
              [(name, only)] \<Rightarrow> Some only
            | _ \<Rightarrow> None)))"

definition scanLimit :: int where
  "scanLimit = 1024 * 1024"

definition ParseAWSCredentials :: "bytes \<Rightarrow> string \<Rightarrow> (string \<times> string \<times> string) result" where
  "ParseAWSCredentials body profile =
     (let profile = (if profile = '''' then ''default'' else profile)
      in case scan_lines scanLimit body of
           Inl e \<Rightarrow> Inl (Wrapf ''objstore: scan credentials'' [] e)
         | Inr ls \<Rightarrow>
             (case pickProfile (fst (foldl credLine ([('''', [])], '''') ls)) profile of
                None \<Rightarrow> Inl (Errorf ''objstore: credentials profile not found'' [profile])
              | Some kv \<Rightarrow>
                  (let accessKey = kv_get kv ''aws_access_key_id'';
                       secretKey = kv_get kv ''aws_secret_access_key'';
                       sessionToken = kv_get kv ''aws_session_token''
                   in if accessKey = '''' \<or> secretKey = ''''
                      then Inl (Errorf ''objstore: credentials profile missing access key id or secret access key'' [profile])
                      else Inr (accessKey, secretKey, sessionToken))))"



section \<open>Reading a rendered file\<close>

text \<open>
  The shared-credentials file of one profile, as the Velero documentation writes it. A token
  line is written when there is a token.
\<close>

definition newline :: string where
  "newline = [CHR 0x0A]"

definition renderLine :: "string \<Rightarrow> string \<Rightarrow> string" where
  "renderLine k v = k @ '' = '' @ v"

definition renderLines :: "string \<Rightarrow> string \<Rightarrow> string \<Rightarrow> string \<Rightarrow> string list" where
  "renderLines profile ak sk token =
     [''['' @ profile @ '']'', renderLine ''aws_access_key_id'' ak, renderLine ''aws_secret_access_key'' sk] @
     (if token = '''' then [] else [renderLine ''aws_session_token'' token])"

definition renderCredentials :: "string \<Rightarrow> string \<Rightarrow> string \<Rightarrow> string \<Rightarrow> bytes" where
  "renderCredentials profile ak sk token =
     join_with (CHR 0x0A) (renderLines profile ak sk token @ [''''])"

text \<open>Values of printable ASCII characters other than the space, short enough for the scanner.\<close>

definition plainValue :: "string \<Rightarrow> bool" where
  "plainValue v \<longleftrightarrow> v \<noteq> '''' \<and> list_all plain v \<and> int (length v) < 2 ^ 19"

lemma plain_not_newline: "plain c \<Longrightarrow> c \<noteq> CHR 0x0A \<and> c \<noteq> CHR 0x0D"
  by (auto simp: plain_def)

lemma plainValueD:
  assumes "plainValue v"
  shows "v \<noteq> []" "plain (hd v)" "plain (last v)" "CHR 0x0A \<notin> set v" "CHR 0x0D \<notin> set v"
    "int (length v) < 2 ^ 19" "trim_space v = v" "last v \<noteq> CHR 0x0D"
proof -
  have v: "v \<noteq> []" "list_all plain v" using assms by (simp_all add: plainValue_def)
  then show "v \<noteq> []" "plain (hd v)" "plain (last v)" by (auto simp: list_all_iff)
  then show "trim_space v = v" "last v \<noteq> CHR 0x0D"
    using plain_not_newline by (auto intro: trim_space_plain)
  show "CHR 0x0A \<notin> set v" "CHR 0x0D \<notin> set v"
    using v plain_not_newline by (auto simp: list_all_iff)
  show "int (length v) < 2 ^ 19" using assms by (simp add: plainValue_def)
qed

definition credNames :: "string list" where
  "credNames = [''aws_access_key_id'', ''aws_secret_access_key'', ''aws_session_token'']"

lemma credNames_scan:
  "list_all (\<lambda>k. k \<noteq> [] \<and> hd k = CHR ''a'' \<and> list_all plain k \<and> CHR ''='' \<notin> set k \<and> to_lower k = k)
     credNames"
  unfolding credNames_def by (simp add: plain_def ascii_lower_def byte_def char_of_def)

lemma credNames_facts:
  assumes "k \<in> set credNames"
  shows "k \<noteq> [] \<and> list_all plain k \<and> CHR ''='' \<notin> set k \<and>
     trim_space (k @ '' '') = k \<and> to_lower k = k \<and>
     \<not> has_prefix (k @ s) ''#'' \<and> \<not> has_prefix (k @ s) '';'' \<and> \<not> has_prefix (k @ s) ''[''"
proof -
  have k: "k \<noteq> []" "hd k = CHR ''a''" "list_all plain k" "CHR ''='' \<notin> set k" "to_lower k = k"
    using assms credNames_scan unfolding list_all_iff by blast+
  have "trim_space (k @ '' '') = k"
    using k by (intro trim_space_trail) (auto simp: list_all_iff plain_def)
  with k show ?thesis by (cases k) simp_all
qed

lemma credLine_entry:
  assumes "k \<in> set credNames" and "plainValue v"
  shows "credLine (secs, current) (renderLine k v) =
    (kv_set current (kv_set k v (case map_of secs current of None \<Rightarrow> [] | Some kv \<Rightarrow> kv)) secs, current)"
proof -
  note k = credNames_facts [OF assms(1)] and v = plainValueD [OF assms(2)]
  have hd: "plain (hd (renderLine k v))" using k by (cases k) (simp_all add: renderLine_def)
  have last: "plain (last (renderLine k v))" using v by (simp add: renderLine_def)
  have trim: "trim_space (renderLine k v) = renderLine k v"
    using hd last by (intro trim_space_plain) simp
  have "CHR ''='' \<notin> set (k @ '' '')" using k by simp
  then have "cut (CHR ''='') ((k @ '' '') @ CHR ''='' # ('' '' @ v)) = (k @ '' '', '' '' @ v, True)"
    by (rule cut_append_sep)
  then have cut: "cut (CHR ''='') (renderLine k v) = (k @ '' '', '' '' @ v, True)"
    by (simp add: renderLine_def)
  have "trim_space ('' '' @ v) = v" using v by (simp add: trim_space_lead)
  moreover have "renderLine k v \<noteq> []" "\<not> has_prefix (renderLine k v) ''#''"
    "\<not> has_prefix (renderLine k v) '';''" "\<not> has_prefix (renderLine k v) ''[''"
    using k unfolding renderLine_def by simp_all
  ultimately show ?thesis using k by (simp add: credLine_def Let_def trim cut)
qed

lemma credLine_header:
  assumes "plainValue p"
  shows "credLine (secs, current) (''['' @ p @ '']'') =
    (if map_of secs p = None then secs @ [(p, [])] else secs, p)"
proof -
  have "trim_space (''['' @ p @ '']'') = ''['' @ p @ '']''"
    by (rule trim_space_plain) (simp add: plain_def)
  moreover have "has_suffix (''['' @ p @ '']'') '']''" by (simp add: has_suffix_def)
  moreover have "butlast (tl (''['' @ p @ '']'')) = p" by (simp add: butlast_append)
  ultimately show ?thesis using plainValueD(7) [OF assms] by (simp add: credLine_def Let_def)
qed


lemma renderLine_facts:
  assumes "k \<in> set credNames" and "plainValue v"
  shows "CHR 0x0A \<notin> set (renderLine k v)" "drop_cr (renderLine k v) = renderLine k v"
    "\<not> scanLimit \<le> int (length (renderLine k v))"
proof -
  note k = credNames_facts [OF assms(1)] and v = plainValueD [OF assms(2)]
  have "\<forall>c \<in> set k. c \<noteq> CHR 0x0A" using k plain_not_newline by (auto simp: list_all_iff)
  then show "CHR 0x0A \<notin> set (renderLine k v)" using v by (auto simp: renderLine_def)
  show "drop_cr (renderLine k v) = renderLine k v" using v by (simp add: drop_cr_def renderLine_def)
  have "length k \<le> 21" using assms(1) by (auto simp: credNames_def)
  then show "\<not> scanLimit \<le> int (length (renderLine k v))"
    using v by (simp add: renderLine_def scanLimit_def)
qed

lemma header_facts:
  assumes "plainValue p"
  shows "CHR 0x0A \<notin> set (''['' @ p @ '']'')" "drop_cr (''['' @ p @ '']'') = ''['' @ p @ '']''"
    "\<not> scanLimit \<le> int (length (''['' @ p @ '']''))"
  using plainValueD [OF assms] by (simp_all add: drop_cr_def scanLimit_def)

lemma scan_renderCredentials:
  assumes "plainValue profile" "plainValue ak" "plainValue sk" "token = '''' \<or> plainValue token"
  shows "scan_lines scanLimit (renderCredentials profile ak sk token) = Inr (renderLines profile ak sk token)"
proof -
  let ?ls = "renderLines profile ak sk token"
  have ls: "l \<in> set ?ls \<Longrightarrow> CHR 0x0A \<notin> set l \<and> drop_cr l = l \<and> \<not> scanLimit \<le> int (length l)" for l
    using assms renderLine_facts header_facts [OF assms(1)]
    by (auto simp: renderLines_def credNames_def split: if_splits)
  have "split_on (CHR 0x0A) (renderCredentials profile ak sk token) = ?ls @ ['''']"
    unfolding renderCredentials_def using ls by (intro split_join) auto
  then have "raw_lines (renderCredentials profile ak sk token) = ?ls"
    by (simp add: raw_lines_def)
  moreover have "map drop_cr ?ls = ?ls" using ls by (intro map_idI) blast
  ultimately show ?thesis using ls by (auto simp: scan_lines_def)
qed

definition renderedKv :: "string \<Rightarrow> string \<Rightarrow> string \<Rightarrow> section_kv" where
  "renderedKv ak sk token =
     [(''aws_access_key_id'', ak), (''aws_secret_access_key'', sk)] @
     (if token = '''' then [] else [(''aws_session_token'', token)])"

lemma fold_renderLines:
  assumes "plainValue profile" "plainValue ak" "plainValue sk" "token = '''' \<or> plainValue token"
  shows "fst (foldl credLine ([('''', [])], '''') (renderLines profile ak sk token)) =
    [('''', []), (profile, renderedKv ak sk token)]"
  using assms plainValueD(1) [OF assms(1)]
  by (auto simp: renderLines_def renderedKv_def credLine_header [simplified] credLine_entry credNames_def)

lemma pickProfile_only:
  "kv \<noteq> [] \<Longrightarrow> name \<noteq> '''' \<Longrightarrow> pickProfile [('''', []), (name, kv)] requested = Some kv"
  by (cases kv) (auto simp: pickProfile_def)


text \<open>The lone element of a list does not depend on the order of the list.\<close>

lemma lone_element_mset:
  assumes "mset xs = mset ys"
  shows "(case xs of [(a, b)] \<Rightarrow> Some b | _ \<Rightarrow> None) = (case ys of [(a, b)] \<Rightarrow> Some b | _ \<Rightarrow> None)"
proof (cases "length xs = 1")
  case True
  then obtain x where "xs = [x]" by (metis One_nat_def length_0_conv length_Suc_conv)
  moreover from this assms have "ys = [x]" by simp
  ultimately show ?thesis by simp
next
  case False
  moreover have "length ys = length xs" using assms by (metis size_mset)
  ultimately show ?thesis by (auto split: list.splits)
qed


section \<open>Properties\<close>

text \<open>
  C38: parsing inverts rendering: the shared-credentials file of a single profile, with values
  of printable non-blank ASCII characters, parses to exactly the values it was written from,
  with or without a session token, whichever profile is requested (a lone section serves
  every request).
\<close>

theorem credentials_round_trip:
  assumes "plainValue profile" and "plainValue ak" and "plainValue sk"
    and "token = '''' \<or> plainValue token"
  shows "ParseAWSCredentials (renderCredentials profile ak sk token) requested = Inr (ak, sk, token)"
proof -
  have "pickProfile [('''', []), (profile, renderedKv ak sk token)] r = Some (renderedKv ak sk token)" for r
    using plainValueD(1) [OF assms(1)] by (intro pickProfile_only) (simp_all add: renderedKv_def)
  then show ?thesis
    using plainValueD(1) [OF assms(2)] plainValueD(1) [OF assms(3)]
    by (simp add: ParseAWSCredentials_def scan_renderCredentials [OF assms] fold_renderLines [OF assms]
        Let_def kv_get_def renderedKv_def)
qed

theorem credentials_round_trip_witness:
  "ParseAWSCredentials (renderCredentials ''default'' ''AKIAEXAMPLE'' ''secret123'' '''') ''''
     = Inr (''AKIAEXAMPLE'', ''secret123'', '''')"
  by (rule credentials_round_trip) (simp_all add: plainValue_def plain_def)

text \<open>
  The profile picked does not depend on the order in which Go iterates over the sections:
  two listings of the same map give the same answer. A named profile with entries wins, then
  the entries before any header, then a lone non-empty section.
\<close>

theorem pickProfile_order_independent:
  assumes "mset secs = mset secs'" and "distinct (map fst secs)"
  shows "pickProfile secs profile = pickProfile secs' profile"
proof -
  have d': "distinct (map fst secs')"
    using assms by (metis mset_eq_imp_distinct_iff mset_map)
  have m: "map_of secs = map_of secs'"
    using assms d' by (metis map_of_inject_set mset_eq_setD)
  let ?P = "\<lambda>(name, kv). \<not> (name = '''' \<or> kv = ([] :: section_kv))"
  have f: "mset (filter ?P secs) = mset (filter ?P secs')" using assms(1) by (simp flip: filter_mset_eq_conv)
  have "(case filter ?P secs of [(name, only)] \<Rightarrow> Some only | _ \<Rightarrow> None) =
      (case filter ?P secs' of [(name, only)] \<Rightarrow> Some only | _ \<Rightarrow> None)"
    using f by (rule lone_element_mset)
  then show ?thesis unfolding pickProfile_def m by (simp only:)
qed

theorem pickProfile_order_independent_witness:
  "pickProfile [('''', []), (''a'', [(''k'', ''v'')])] ''x'' =
   pickProfile [(''a'', [(''k'', ''v'')]), ('''', [])] ''x''"
  by (rule pickProfile_order_independent) (simp_all add: add_mset_commute)

end
