(* ===== verification/Go_Time.thy ===== *)
theory Go_Time
  imports Api_Types Go_Json
begin

text \<open>
  Calendar time: an instant in the RFC 3339 layout of Go's \<open>time.Format\<close>, in UTC with seconds.
  The date follows the proleptic Gregorian calendar, counted in eras of 400 years that begin on
  the first of March.
\<close>

definition civil_from_days :: "int \<Rightarrow> int \<times> int \<times> int" where
  "civil_from_days days =
     (let z = days + 719468;
          era = z div 146097;
          doe = z mod 146097;
          yoe = (doe - doe div 1460 + doe div 36524 - doe div 146096) div 365;
          doy = doe - (365 * yoe + yoe div 4 - yoe div 100);
          mp = (5 * doy + 2) div 153;
          d = doy - (153 * mp + 2) div 5 + 1;
          m = (if mp < 10 then mp + 3 else mp - 9);
          y = yoe + era * 400
      in (if m \<le> 2 then y + 1 else y, m, d))"

definition dec02 :: "int \<Rightarrow> string" where
  "dec02 i = (let s = dec (nat i) in replicate (2 - length s) (CHR ''0'') @ s)"

text \<open>Years before year zero do not occur: the earliest instant is the zero time of Go.\<close>

definition rfc3339 :: "instant \<Rightarrow> string" where
  "rfc3339 t =
     (let secs = t div 1000000000 in
      case civil_from_days (secs div 86400) of (y, m, d) \<Rightarrow>
        (let sod = secs mod 86400 in
         dec04 (nat y) @ ''-'' @ dec02 m @ ''-'' @ dec02 d @ ''T'' @ dec02 (sod div 3600) @ '':'' @
         dec02 (sod div 60 mod 60) @ '':'' @ dec02 (sod mod 60) @ ''Z''))"

lemma dec02_utf8 [simp]: "valid_utf8 (dec02 i)"
proof -
  have "list_all (char_in 0 127) (dec02 i)"
    using dec_digits by (fastforce simp: dec02_def Let_def list_all_iff char_in_def is_digit_def)
  then show ?thesis by (rule ascii_utf8)
qed

lemma rfc3339_utf8 [simp]: "valid_utf8 (rfc3339 t)"
  by (auto simp: rfc3339_def Let_def intro!: valid_utf8_append split: prod.split)

lemma rfc3339_example: "rfc3339 (1709164799 * 1000000000) = ''2024-02-28T23:59:59Z''"
  by code_simp

end
