(* ===== verification/Replication_Controller.thy ===== *)
theory Replication_Controller
  imports Controller_Env Batching Credentials Go_Time
begin

text \<open>
  The controller that drives a backup to the destination
  (\<open>src/src/internal/controller/backupreplication_controller.go\<close>): resolving the object
  store, listing what is to be shipped, staging, packing, sending and following the bundles,
  publishing the manifest and committing the ledger, with the status of the work item along
  the way. Log lines and the release of resources are left out.
\<close>


section \<open>Status\<close>

definition setPhase :: "BackupReplication \<Rightarrow> ReplicationPhase \<Rightarrow> BackupReplication" where
  "setPhase br p = br\<lparr>br_Status := (br_Status br)\<lparr>brt_Phase := p,
     brt_ObservedGeneration := om_Generation (br_Meta br)\<rparr>\<rparr>"

definition readyCondition :: "ConditionStatus \<Rightarrow> string \<Rightarrow> message \<Rightarrow> int \<Rightarrow> Condition" where
  "readyCondition s reason msg gen = \<lparr>cd_Type = ''Ready'', cd_Status = s, cd_Reason = reason, cd_Message = msg,
     cd_ObservedGeneration = gen\<rparr>"

definition setReady :: "'w Kube \<Rightarrow> BackupReplication \<Rightarrow> ConditionStatus \<Rightarrow> string \<Rightarrow> message \<Rightarrow> 'w \<Rightarrow>
    BackupReplication" where
  "setReady K br s reason msg w = br\<lparr>br_Status := (br_Status br)\<lparr>brt_Conditions :=
     k_SetCondition K (brt_Conditions (br_Status br)) (readyCondition s reason msg (om_Generation (br_Meta br))) w\<rparr>\<rparr>"

text \<open>A status update followed by the given result, or its error.\<close>

definition updateThen :: "'w Kube \<Rightarrow> BackupReplication \<Rightarrow> ctrlResult \<Rightarrow> 'w \<Rightarrow> 'w reconciled" where
  "updateThen K br res w =
     (case k_UpdateReplicationStatus K br w of
        (Inl e, w1) \<Rightarrow> ((doneResult, Some e), w1)
      | (Inr _, w1) \<Rightarrow> ((res, None), w1))"

text \<open>A status update whose error, if any, is returned together with the given result.\<close>

definition updateReturn :: "'w Kube \<Rightarrow> BackupReplication \<Rightarrow> ctrlResult \<Rightarrow> 'w \<Rightarrow> 'w reconciled" where
  "updateReturn K br res w =
     (case k_UpdateReplicationStatus K br w of
        (Inl e, w1) \<Rightarrow> ((res, Some e), w1)
      | (Inr _, w1) \<Rightarrow> ((res, None), w1))"

definition degrade :: "'w Kube \<Rightarrow> BackupReplication \<Rightarrow> string \<Rightarrow> message \<Rightarrow> 'w \<Rightarrow> 'w reconciled" where
  "degrade K br reason msg w =
     (let br1 = br\<lparr>br_Status := (br_Status br)\<lparr>brt_LastError := msg\<rparr>\<rparr>
      in updateThen K (setReady K br1 ConditionFalse reason msg w) retryResult w)"

definition transientErr :: "'w Kube \<Rightarrow> BackupReplication \<Rightarrow> string \<Rightarrow> goerr \<Rightarrow> 'w \<Rightarrow> 'w reconciled" where
  "transientErr K br reason cause w =
     (let br1 = br\<lparr>br_Status := (br_Status br)\<lparr>brt_LastError := ErrText cause,
            brt_RetryCount := wrap32 (brt_RetryCount (br_Status br) + 1)\<rparr>\<rparr>
      in updateThen K (setReady K br1 ConditionFalse reason (ErrText cause) w) retryResult w)"


section \<open>The object store\<close>

definition getSecretKey :: "'w Kube \<Rightarrow> string \<Rightarrow> string \<Rightarrow> string \<Rightarrow> ('w, bytes) effect" where
  "getSecretKey K ns name key w =
     (case k_GetSecret K ns name w of
        (Inl e, w1) \<Rightarrow> (Inl (Wrapf ''get secret'' [ns, name] e), w1)
      | (Inr data, w1) \<Rightarrow>
          (case map_of data key of
             None \<Rightarrow> (Inl (Errorf ''secret missing key'' [ns, name, key]), w1)
           | Some v \<Rightarrow> (Inr v, w1)))"

text \<open>A lookup in a Go map of strings gives the empty string for an absent key.\<close>

definition configGet :: "(string \<times> string) list option \<Rightarrow> string \<Rightarrow> string" where
  "configGet c k = (case c of None \<Rightarrow> '''' | Some m \<Rightarrow> (case map_of m k of None \<Rightarrow> '''' | Some v \<Rightarrow> v))"

definition baseConfig :: "BackupStorageLocation \<Rightarrow> ObjectStorageLocation \<Rightarrow> ReplicationPolicy \<Rightarrow> Config" where
  "baseConfig bsl ol policy =
     (let c = bsl_Config (loc_Spec bsl); os = rp_ObjectStore (pol_Spec policy)
      in zeroConfig\<lparr>cfg_Bucket := ol_Bucket ol, cfg_Prefix := ol_Prefix ol,
           cfg_Region := (if oss_Region os \<noteq> '''' then oss_Region os else configGet c ''region''),
           cfg_Endpoint := (if oss_Endpoint os \<noteq> '''' then oss_Endpoint os else configGet c ''s3Url''),
           cfg_ForcePathStyle := (configGet c ''s3ForcePathStyle'' = ''true''),
           cfg_InsecureTLS := oss_InsecureSkipTLSVerify os\<rparr>)"

definition credentialBytes :: "'w Kube \<Rightarrow> BackupReplication \<Rightarrow> BackupStorageLocation \<Rightarrow> ReplicationPolicy \<Rightarrow>
    ('w, bytes) effect" where
  "credentialBytes K br bsl policy w =
     (case oss_CredentialsSecretRef (rp_ObjectStore (pol_Spec policy)) of
        Some ref \<Rightarrow>
          if sk_Name ref \<noteq> '''' then
            getSecretKey K (if sk_Namespace ref = '''' then om_Namespace (br_Meta br) else sk_Namespace ref)
              (sk_Name ref) (sk_Key ref) w
          else (case bsl_Credential (loc_Spec bsl) of
              None \<Rightarrow> (Inr [], w)
            | Some s \<Rightarrow> getSecretKey K (om_Namespace (br_Meta br)) (ss_Name s) (ss_Key s) w)
      | None \<Rightarrow>
          (case bsl_Credential (loc_Spec bsl) of
             None \<Rightarrow> (Inr [], w)
           | Some s \<Rightarrow> getSecretKey K (om_Namespace (br_Meta br)) (ss_Name s) (ss_Key s) w))"

definition resolveStore :: "'w Kube \<Rightarrow> BackupReplication \<Rightarrow> ReplicationPolicy \<Rightarrow> ('w, Config) effect" where
  "resolveStore K br policy w =
     (case k_GetLocation K (om_Namespace (br_Meta br)) (brs_StorageLocation (br_Spec br)) w of
        (Inl e, w1) \<Rightarrow> (Inl (Wrapf ''get BSL'' [brs_StorageLocation (br_Spec br)] e), w1)
      | (Inr bsl, w1) \<Rightarrow>
          (case bsl_ObjectStorage (loc_Spec bsl) of
             None \<Rightarrow> (Inl (Errorf ''BSL has no objectStorage'' [om_Name (loc_Meta bsl)]), w1)
           | Some ol \<Rightarrow>
               (let cfg = baseConfig bsl ol policy in
                case credentialBytes K br bsl policy w1 of
                  (Inl e, w2) \<Rightarrow> (Inl e, w2)
                | (Inr credBytes, w2) \<Rightarrow>
                    if credBytes = [] then (Inr cfg, w2)
                    else case ParseAWSCredentials credBytes (configGet (bsl_Config (loc_Spec bsl)) ''profile'') of
                        Inl e \<Rightarrow> (Inl (Wrapf ''BSL credentials'' [om_Name (loc_Meta bsl)] e), w2)
                      | Inr (ak, sk, token) \<Rightarrow>
                          (Inr (cfg\<lparr>cfg_AccessKeyID := ak, cfg_SecretAccessKey := sk, cfg_SessionToken := token\<rparr>), w2))))"


section \<open>The ledger\<close>

record ledgerEntry =
  le_ETag :: string
  le_Size :: int

type_synonym ledger = "(string \<times> ledgerEntry) list"

definition zeroLedgerEntry :: ledgerEntry where
  "zeroLedgerEntry = \<lparr>le_ETag = '''', le_Size = 0\<rparr>"

definition ledgerEntryFields :: "ledgerEntry field list" where
  "ledgerEntryFields = [
     field ''etag'' le_ETag (\<lambda>v. le_ETag_update (\<lambda>_. v)) dec_string,
     field ''size'' le_Size (\<lambda>v. le_Size_update (\<lambda>_. v)) (dec_integer in_int64)]"

definition encLedgerEntry :: "ledgerEntry \<Rightarrow> json" where
  "encLedgerEntry e = JObj [(''etag'', JStr (le_ETag e)), (''size'', json_int (le_Size e))]"

text \<open>A nil map prints as \<open>null\<close>, any other with its keys sorted.\<close>

definition encLedger :: "ledger option \<Rightarrow> json" where
  "encLedger l = (case l of None \<Rightarrow> JNull | Some m \<Rightarrow> json_map (map (\<lambda>(k, e). (k, encLedgerEntry e)) m))"

definition ledgerKey :: "string \<Rightarrow> string" where
  "ledgerKey bsl = ''snapback/ledger/'' @ bsl @ ''.json''"

definition readLedger :: "bytes \<Rightarrow> ledger option result" where
  "readLedger body =
     (if body = [] then Inr (Some [])
      else case json_unmarshal (dec_map (dec_struct ledgerEntryFields) zeroLedgerEntry) body (Some []) of
          (l, Some e) \<Rightarrow> Inl e
        | (l, None) \<Rightarrow> Inr l)"

text \<open>Looking up a key of a nil map finds nothing.\<close>

definition ledgerGet :: "ledger option \<Rightarrow> string \<Rightarrow> ledgerEntry option" where
  "ledgerGet l k = (case l of None \<Rightarrow> None | Some m \<Rightarrow> map_of m k)"

definition seenUnchanged :: "ledger option \<Rightarrow> ObjectInfo \<Rightarrow> bool" where
  "seenUnchanged l o' = (case ledgerGet l (oi_Key o') of None \<Rightarrow> False | Some e \<Rightarrow> le_ETag e = oi_ETag o')"

fun listRepos :: "'w Store \<Rightarrow> ledger option \<Rightarrow> string list \<Rightarrow> string list \<Rightarrow> ('w, string list) effect" where
  "listRepos store l [] keys w = (Inr keys, w)"
| "listRepos store l (pfx # pfxs) keys w =
     (case st_List store pfx w of
        (Inl e, w1) \<Rightarrow> (Inl (Wrapf ''list'' [pfx] e), w1)
      | (Inr objs, w1) \<Rightarrow>
          listRepos store l pfxs (keys @ map oi_Key (filter (\<lambda>o'. \<not> seenUnchanged l o') objs)) w1)"

definition enumerateDelta :: "'w Store \<Rightarrow> BackupReplication \<Rightarrow> ('w, string list) effect" where
  "enumerateDelta store br w =
     (case st_GetLedger store (ledgerKey (brs_StorageLocation (br_Spec br))) w of
        (Inl e, w1) \<Rightarrow> (Inl (Wrapf ''load ledger'' [] e), w1)
      | (Inr (body, etag), w1) \<Rightarrow>
          (case readLedger body of
             Inl e \<Rightarrow> (Inl (Wrapf ''parse ledger'' [] e), w1)
           | Inr l \<Rightarrow>
               (case st_List store (''backups/'' @ brs_BackupName (br_Spec br) @ ''/'') w1 of
                  (Inl e, w2) \<Rightarrow> (Inl (Wrapf ''list backup metadata'' [] e), w2)
                | (Inr metaObjs, w2) \<Rightarrow>
                    listRepos store l [''kopia/'', ''restic/''] (map oi_Key metaObjs) w2)))"

text \<open>
  Assigning to a nil map panics; the panic unwinds the reconcile, and the controller runtime
  turns it into an error of the reconcile.
\<close>

datatype commitOutcome = Committed | CommitError goerr | CommitPanic

definition recordKeys :: "string list \<Rightarrow> ledger \<Rightarrow> ledger" where
  "recordKeys keys l = foldl (\<lambda>l k. kv_set k zeroLedgerEntry l) l keys"

definition commitLedger :: "'w Store \<Rightarrow> BackupReplication \<Rightarrow> string list \<Rightarrow> 'w \<Rightarrow> commitOutcome \<times> 'w" where
  "commitLedger store br keys w =
     (let key = ledgerKey (brs_StorageLocation (br_Spec br)) in
      case st_GetLedger store key w of
        (Inl e, w1) \<Rightarrow> (CommitError e, w1)
      | (Inr (body, etag), w1) \<Rightarrow>
          (case readLedger body of
             Inl e \<Rightarrow> (CommitError e, w1)
           | Inr l \<Rightarrow>
               if l = None \<and> keys \<noteq> [] then (CommitPanic, w1)
               else let out = json_print (encLedger (map_option (recordKeys keys) l)) in
                 case st_PutLedger store key out etag w1 of
                   (Inl e, w2) \<Rightarrow> (CommitError e, w2)
                 | (Inr _, w2) \<Rightarrow> (Committed, w2)))"


section \<open>Shipping\<close>

text \<open>Staging of all keys: the descriptions, and the sum of their sizes in 64-bit arithmetic.\<close>

fun stageAll :: "'w Env \<Rightarrow> Stager \<Rightarrow> 'w Store \<Rightarrow> string list \<Rightarrow> FileSpec list \<Rightarrow> u64 \<Rightarrow>
    ('w, FileSpec list \<times> u64) effect" where
  "stageAll E stager store [] specs tot w = (Inr (specs, tot), w)"
| "stageAll E stager store (k # ks) specs tot w =
     (case StageObject (env_sha256 E) (env_OS E) stager store k w of
        (Inl e, w1) \<Rightarrow> (Inl e, w1)
      | (Inr fs, w1) \<Rightarrow> stageAll E stager store ks (specs @ [fs]) (tot + fs_Size fs) w1)"

definition mapPriority :: "string \<Rightarrow> Priority" where
  "mapPriority p =
     (if p = ''Low'' then PriorityLow else if p = ''Routine'' then PriorityRoutine
      else if p = ''Priority'' then PriorityPriority else if p = ''Critical'' then PriorityCritical
      else PriorityBulk)"

text \<open>The loop of \<open>summarize\<close> over bytes, ids and the two flags.\<close>

fun sumProgress :: "Progress list \<Rightarrow> int \<times> string list \<times> bool \<times> bool \<Rightarrow> int \<times> string list \<times> bool \<times> bool" where
  "sumProgress [] acc = acc"
| "sumProgress (p # ps) (bytes, ids, allCompleted, anyFailed) =
     sumProgress ps (wrap64 (bytes + int64_of_u64 (pr_BytesTransferred p)), ids @ [pr_DistributionID p],
       (if pr_Status p \<noteq> StatusCompleted then False else allCompleted),
       (if pr_Status p = StatusFailed \<or> pr_Status p = StatusCancelled then True else anyFailed))"

definition summarize :: "Progress list \<Rightarrow> BundlePhase \<times> int \<times> string list" where
  "summarize progs =
     (case sumProgress progs (0, [], True, False) of (bytes, ids, allCompleted, anyFailed) \<Rightarrow>
        if anyFailed then (BundleFailed, bytes, ids)
        else if allCompleted \<and> length progs > 0 then (BundleCompleted, bytes, ids)
        else (BundleInProgress, bytes, ids))"

definition bundleIdent :: "string \<Rightarrow> nat \<Rightarrow> string" where
  "bundleIdent name i = name @ ''-'' @ dec04 i"

definition handleEntry :: "FileSpec \<Rightarrow> AttachmentHandle \<Rightarrow> FileEntry" where
  "handleEntry f h = \<lparr>fe_Key = fs_RelativePath f, fe_Basename = path_base (fs_RelativePath f),
     fe_SHA256 = hex_encode (fs_SHA256 f), fe_Size = int64_of_u64 (fs_Size f),
     fe_DistributionID = ah_DistributionID h, fe_BlobToken = ah_BlobToken h\<rparr>"

fun handleEntries :: "FileSpec list \<Rightarrow> AttachmentHandle list \<Rightarrow> FileEntry list \<Rightarrow> FileEntry list" where
  "handleEntries files [] entries = entries"
| "handleEntries files (h # hs) entries =
     (if unat (ah_FileIndex h) \<ge> length files then handleEntries files hs entries
      else handleEntries files hs (entries @ [handleEntry (files ! unat (ah_FileIndex h)) h]))"

text \<open>
  The loop over the batches from index \<open>i\<close>: the bundle statuses, manifest entries and the flag
  so far. It ends with them, or with the reason and the error for \<open>transientErr\<close>. \<open>None\<close>: a
  wait does not return.
\<close>

type_synonym sent = "BundleStatus list \<times> FileEntry list \<times> bool"

definition newBundleStatus :: "string \<Rightarrow> Batch \<Rightarrow> BundleStatus" where
  "newBundleStatus ident b = \<lparr>bs_BundleID = ident, bs_FileCount = wrap32 (int (length (b_Files b))),
     bs_Bytes = int64_of_u64 (b_Bytes b), bs_Phase = BundlePending, bs_DistributionIDs = [],
     bs_BytesTransferred = 0\<rparr>"

fun sendBundles :: "'w Http \<Rightarrow> string \<Rightarrow> Priority \<Rightarrow> connectClient \<Rightarrow> nat \<Rightarrow> Batch list \<Rightarrow> sent \<Rightarrow> 'w \<Rightarrow>
    ((string \<times> goerr + sent) \<times> 'w) option" where
  "sendBundles http name prio pc i [] acc w = Some (Inr acc, w)"
| "sendBundles http name prio pc i (b # bs) (statuses, entries, allDone) w =
     (let ident = bundleIdent name i in
      case SendAttachments http pc ident (b_Files b) \<lparr>sc_AllNodes = True, sc_NodeIDs = []\<rparr> prio w of
        (Inl e, pc1, w1) \<Rightarrow> Some (Inl (''SendFailed'', e), w1)
      | (Inr res, pc1, w1) \<Rightarrow>
          (let entries1 = handleEntries (b_Files b) (sr_Handles res) entries in
           case WaitBundle http pc1 ident w1 of
             None \<Rightarrow> None
           | Some ((progs, Some e), w2) \<Rightarrow> Some (Inl (''WaitFailed'', e), w2)
           | Some ((progs, None), w2) \<Rightarrow>
               (case summarize progs of (phase, bytes, ids) \<Rightarrow>
                  let status = (newBundleStatus ident b)\<lparr>bs_Phase := phase, bs_BytesTransferred := bytes,
                        bs_DistributionIDs := ids\<rparr>
                  in sendBundles http name prio pc1 (Suc i) bs
                       (statuses @ [status], entries1, if phase \<noteq> BundleCompleted then False else allDone) w2)))"

definition replicationManifest :: "BackupReplication \<Rightarrow> string \<Rightarrow> FileEntry list \<Rightarrow> int \<Rightarrow> instant \<Rightarrow> Manifest" where
  "replicationManifest br bslPrefix entries tot completedAt = \<lparr>mn_SchemaVersion = SchemaVersion,
     mn_BackupName = brs_BackupName (br_Spec br), mn_StorageLocation = brs_StorageLocation (br_Spec br),
     mn_BSLPrefix = bslPrefix, mn_ObjectCount = int (length entries), mn_TotalBytes = tot,
     mn_CompletedAt = rfc3339 completedAt, mn_Complete = True, mn_Files = entries\<rparr>"

definition emitManifest :: "'w Http \<Rightarrow> connectClient \<Rightarrow> BackupReplication \<Rightarrow> string \<Rightarrow> FileEntry list \<Rightarrow> int \<Rightarrow>
    instant \<Rightarrow> ('w, unit) effect" where
  "emitManifest http pc br bslPrefix entries tot completedAt w =
     (case Marshal (replicationManifest br bslPrefix entries tot completedAt) of
        Inl e \<Rightarrow> (Inl (Wrapf ''marshal manifest'' [] e), w)
      | Inr data \<Rightarrow>
          (let docID = DocID (brs_StorageLocation (br_Spec br)) (brs_BackupName (br_Spec br)) in
           case PutDocument http pc Collection docID data w of
             (Inl e, w1) \<Rightarrow> (Inl (Wrapf ''put manifest'' [docID] e), w1)
           | (Inr _, w1) \<Rightarrow> (Inr (), w1)))"


section \<open>Reconciling\<close>

text \<open>
  \<open>replicate\<close> from its end: step 6 publishes the manifest and commits the ledger, steps 4 and 5
  pack and send, steps 1 to 3 prepare. An update returns the stored object, with its new
  resource version.
\<close>

definition finishReplication :: "'w Env \<Rightarrow> connectClient \<Rightarrow> 'w Store \<Rightarrow> BackupReplication \<Rightarrow> string \<Rightarrow>
    string list \<Rightarrow> u64 \<Rightarrow> FileEntry list \<Rightarrow> 'w \<Rightarrow> 'w reconciled" where
  "finishReplication E pc store br bslPrefix keys tot entries w =
     (case k_Now (env_Kube E) w of (now, w1) \<Rightarrow>
        let br1 = br\<lparr>br_Status := (br_Status br)\<lparr>brt_CompletedAt := Some now\<rparr>\<rparr> in
        case emitManifest (env_Http E) pc br1 bslPrefix entries (int64_of_u64 tot) now w1 of
          (Inl e, w2) \<Rightarrow> transientErr (env_Kube E) br1 ''ManifestEmitFailed'' e w2
        | (Inr _, w2) \<Rightarrow>
            (case commitLedger store br1 keys w2 of
               (CommitError e, w3) \<Rightarrow> transientErr (env_Kube E) br1 ''LedgerCommitFailed'' e w3
             | (CommitPanic, w3) \<Rightarrow> ((doneResult, Some (LibErr ''panic: assignment to entry in nil map'')), w3)
             | (Committed, w3) \<Rightarrow>
                 updateThen (env_Kube E)
                   (setReady (env_Kube E) (setPhase br1 PhaseReplicated) ConditionTrue ''Replicated''
                     (Lit ''all bundles transmitted to destination peer'') w3) doneResult w3))"

definition transmit :: "'w Env \<Rightarrow> 'w Store \<Rightarrow> BackupReplication \<Rightarrow> ReplicationPolicy \<Rightarrow> string \<Rightarrow>
    string list \<Rightarrow> FileSpec list \<Rightarrow> u64 \<Rightarrow> 'w \<Rightarrow> 'w reconciled option" where
  "transmit E store br policy bslPrefix keys specs tot w =
     (let K = env_Kube E; spec = pol_Spec policy;
          batches = Pack specs (rp_BundleFileLimit spec) (u64_of_int64 (rp_BundleByteLimit spec));
          br1 = br\<lparr>br_Status := (br_Status br)\<lparr>brt_ObjectCount := int (length specs),
                 brt_TotalBytes := int64_of_u64 tot\<rparr>\<rparr>;
          br2 = setPhase br1 PhaseTransmitting
      in case k_UpdateReplicationStatus K br2 w of
           (Inl e, w1) \<Rightarrow> Some ((doneResult, Some e), w1)
         | (Inr br3, w1) \<Rightarrow>
             (case NewClient (ps_Address (rp_Peat spec)) of
                Inl e \<Rightarrow> Some (transientErr K br3 ''PeatDialFailed'' e w1)
              | Inr pc \<Rightarrow>
                  (case EnsurePeer (env_Http E) pc (tg_EndpointID (rp_Target spec)) (tg_Addresses (rp_Target spec))
                          (tg_RelayURL (rp_Target spec)) w1 of
                     (Inl e, w2) \<Rightarrow> Some (transientErr K br3 ''PeerConnectFailed'' e w2)
                   | (Inr _, w2) \<Rightarrow>
                       (case sendBundles (env_Http E) (om_Name (br_Meta br3)) (mapPriority (rp_Priority spec)) pc 0
                               batches ([], [], True) w2 of
                          None \<Rightarrow> None
                        | Some (Inl (reason, e), w3) \<Rightarrow> Some (transientErr K br3 reason e w3)
                        | Some (Inr (statuses, entries, allDone), w3) \<Rightarrow>
                            (let br4 = br3\<lparr>br_Status := (br_Status br3)\<lparr>brt_Bundles := statuses\<rparr>\<rparr>
                             in if \<not> allDone then Some (updateReturn K br4 retryResult w3)
                                else Some (finishReplication E pc store br4 bslPrefix keys tot entries w3))))))"

definition markStarted :: "'w Kube \<Rightarrow> BackupReplication \<Rightarrow> 'w \<Rightarrow> BackupReplication \<times> 'w" where
  "markStarted K br w =
     (if brt_StartedAt (br_Status br) = None then
        (case k_Now K w of (now, w1) \<Rightarrow> (br\<lparr>br_Status := (br_Status br)\<lparr>brt_StartedAt := Some now\<rparr>\<rparr>, w1))
      else (br, w))"

definition replicate_pass :: "'w Env \<Rightarrow> BackupReplication \<Rightarrow> ReplicationPolicy \<Rightarrow> 'w \<Rightarrow> 'w reconciled option" where
  "replicate_pass E br policy w =
     (let K = env_Kube E in
      case markStarted K br w of (br1, w1) \<Rightarrow>
      let br2 = setPhase br1 PhaseStaging in
      case resolveStore K br2 policy w1 of
        (Inl e, w2) \<Rightarrow> Some (degrade K br2 ''ResolveStoreFailed'' (ErrText e) w2)
      | (Inr cfg, w2) \<Rightarrow>
          (case NewStore (env_SDK E) cfg of
             Inl e \<Rightarrow> Some (degrade K br2 ''StoreInitFailed'' (ErrText e) w2)
           | Inr ms \<Rightarrow>
               (let store = minio_Store ms in
                case enumerateDelta store br2 w2 of
                  (Inl e, w3) \<Rightarrow> Some (transientErr K br2 ''EnumerateFailed'' e w3)
                | (Inr keys, w3) \<Rightarrow>
                    if keys = [] then
                      Some (updateThen K (setReady K (setPhase br2 PhaseSkipped) ConditionFalse ''NothingToReplicate''
                        (Lit ''no replicable objects found for backup (snapshot-only?)'') w3) doneResult w3)
                    else
                      (let peat = rp_Peat (pol_Spec policy) in
                       case stageAll E (NewStager (ps_OutboxRoot peat) (ps_OutboxPath peat)) store keys [] 0 w3 of
                         (Inl e, w4) \<Rightarrow> Some (transientErr K br2 ''StageFailed'' e w4)
                       | (Inr (specs, tot), w4) \<Rightarrow>
                           transmit E store br2 policy (cfg_Prefix cfg) keys specs tot w4))))"

definition ReconcileReplication :: "'w Env \<Rightarrow> string \<Rightarrow> string \<Rightarrow> 'w \<Rightarrow> 'w reconciled option" where
  "ReconcileReplication E ns name w =
     (let K = env_Kube E in
      case k_GetReplication K ns name w of
        (Inl e, w1) \<Rightarrow> Some ((doneResult, ignore_not_found e), w1)
      | (Inr br, w1) \<Rightarrow>
          if \<not> IsZero (om_DeletionTimestamp (br_Meta br)) then Some ((doneResult, None), w1)
          else if replicationTerminal (brt_Phase (br_Status br)) then Some ((doneResult, None), w1)
          else case k_GetPolicy K (brs_PolicyName (br_Spec br)) w1 of
              (Inl e, w2) \<Rightarrow>
                if is_not_found e then
                  Some (degrade K br ''PolicyNotFound'' (Fmt ''ReplicationPolicy not found'' [] [brs_PolicyName (br_Spec br)]) w2)
                else Some ((doneResult, Some e), w2)
            | (Inr policy, w2) \<Rightarrow>
                if rp_Paused (pol_Spec policy) then Some ((retryResult, None), w2)
                else replicate_pass E br policy w2)"


section \<open>The phase machine\<close>

text \<open>
  The steps that the status of a work item takes: a pass of a phase that is not terminal may
  leave it alone, restart the staging, skip the backup or reach the transmission; only the
  transmission is followed by success.
\<close>

inductive phaseStep :: "ReplicationPhase \<Rightarrow> ReplicationPhase \<Rightarrow> bool" where
  stay: "\<not> replicationTerminal p \<Longrightarrow> phaseStep p p"
| stage: "\<not> replicationTerminal p \<Longrightarrow> phaseStep p PhaseStaging"
| skip: "\<not> replicationTerminal p \<Longrightarrow> phaseStep p PhaseSkipped"
| transmit: "\<not> replicationTerminal p \<Longrightarrow> phaseStep p PhaseTransmitting"
| finish: "phaseStep PhaseTransmitting PhaseReplicated"

inductive_simps phaseStep_to_replicated: "phaseStep p PhaseReplicated"
inductive_simps phaseStep_to_failed: "phaseStep p PhaseFailed"
inductive_cases phaseStepE: "phaseStep p q"

lemma phaseStep_not_terminal: "phaseStep p q \<Longrightarrow> \<not> replicationTerminal p"
  by (auto elim: phaseStepE)

text \<open>
  A write of the work item \<open>k\<close> stores a new version with the same specification and a status
  related by \<open>P\<close> to the stored one.
\<close>

inductive repWrite :: "(ReplicationPhase \<Rightarrow> ReplicationPhase \<Rightarrow> bool) \<Rightarrow> okey \<Rightarrow> kubeState \<Rightarrow> kubeState \<Rightarrow> bool"
  for P k where
  "ks_reps s k = Some x \<Longrightarrow> rep_key y = k \<Longrightarrow> br_Spec y = br_Spec x \<Longrightarrow>
   P (brt_Phase (br_Status x)) (brt_Phase (br_Status y)) \<Longrightarrow> repWrite P k s (put_rep y s)"

inductive_cases repWriteE: "repWrite P k s s'"

abbreviation repWrites :: "(ReplicationPhase \<Rightarrow> ReplicationPhase \<Rightarrow> bool) \<Rightarrow> okey \<Rightarrow> kubeState \<Rightarrow> kubeState \<Rightarrow> bool" where
  "repWrites P k \<equiv> (repWrite P k)\<^sup>*\<^sup>*"

definition quietStep :: "ReplicationPhase \<Rightarrow> ReplicationPhase \<Rightarrow> bool" where
  "quietStep p q \<longleftrightarrow> phaseStep p q \<and> q \<noteq> PhaseReplicated"

lemma repWrite_mono: "repWrite P k s s' \<Longrightarrow> (\<And>p q. P p q \<Longrightarrow> Q p q) \<Longrightarrow> repWrite Q k s s'"
  by (auto elim!: repWriteE intro: repWrite.intros)

lemma repWrites_mono: "repWrites P k s s' \<Longrightarrow> (\<And>p q. P p q \<Longrightarrow> Q p q) \<Longrightarrow> repWrites Q k s s'"
  by (induction rule: rtranclp_induct) (auto intro: repWrite_mono rtranclp.rtrancl_into_rtrancl)

lemma setPhase_simps [simp]:
  "br_Meta (setPhase br p) = br_Meta br" "br_Spec (setPhase br p) = br_Spec br"
  "brt_Phase (br_Status (setPhase br p)) = p"
  by (simp_all add: setPhase_def)

lemma setReady_simps [simp]:
  "br_Meta (setReady K br s reason msg w) = br_Meta br" "br_Spec (setReady K br s reason msg w) = br_Spec br"
  "brt_Phase (br_Status (setReady K br s reason msg w)) = brt_Phase (br_Status br)"
  "brt_Bundles (br_Status (setReady K br s reason msg w)) = brt_Bundles (br_Status br)"
  by (simp_all add: setReady_def)

lemma setPhase_bundles [simp]: "brt_Bundles (br_Status (setPhase br p)) = brt_Bundles (br_Status br)"
  by (simp add: setPhase_def)

context kube_api
begin

text \<open>
  An update of a work item that was derived from a version \<open>x\<close> by changing its status: it has
  no effect, or \<open>x\<close> was the stored version.
\<close>

lemma update_write:
  assumes "k_UpdateReplicationStatus K br w = (r, w')" and "x \<in> ks_rep_seen (st w)" and "br_Meta br = br_Meta x"
  obtains (failed) e where "r = Inl e" "st w' = st w"
    | (written) y where "r = Inr y" "ks_reps (st w) (rep_key x) = Some x" "rep_key y = rep_key x"
        "br_Spec y = br_Spec x" "br_Status y = br_Status br" "st w' = put_rep y (st w)"
proof (cases r)
  case (Inl e)
  then show ?thesis using failed update_rep_err assms(1) by blast
next
  case (Inr y)
  have "rep_key x = rep_key br" using assms(3) by (simp add: rep_key_def)
  then show ?thesis
    using written Inr update_rep_current [OF assms(1) [unfolded Inr] assms(2)] assms(3) by simp
qed

lemma updateThen_write:
  assumes "updateThen K br res w = (r, w')" and "x \<in> ks_rep_seen (st w)" and "br_Meta br = br_Meta x"
    and "P (brt_Phase (br_Status x)) (brt_Phase (br_Status br))"
  shows "repWrites P (rep_key x) (st w) (st w')"
proof -
  obtain ur where u: "k_UpdateReplicationStatus K br w = (ur, w')"
    using assms(1) by (auto simp: updateThen_def split: prod.splits sum.splits)
  show ?thesis
    by (rule update_write [OF u assms(2,3)]) (use assms(4) in \<open>auto intro!: repWrite.intros\<close>)
qed

lemma updateReturn_write:
  assumes "updateReturn K br res w = (r, w')" and "x \<in> ks_rep_seen (st w)" and "br_Meta br = br_Meta x"
    and "P (brt_Phase (br_Status x)) (brt_Phase (br_Status br))"
  shows "repWrites P (rep_key x) (st w) (st w')"
proof -
  have "\<exists>r'. updateThen K br res w = (r', w')"
    using assms(1) by (auto simp: updateReturn_def updateThen_def split: prod.splits sum.splits)
  then show ?thesis using updateThen_write assms(2-4) by blast
qed

lemma degrade_write:
  assumes "degrade K br reason msg w = (r, w')" and "x \<in> ks_rep_seen (st w)" and "br_Meta br = br_Meta x"
    and "P (brt_Phase (br_Status x)) (brt_Phase (br_Status br))"
  shows "repWrites P (rep_key x) (st w) (st w')"
  using assms by (auto simp: degrade_def Let_def intro: updateThen_write)

lemma transientErr_write:
  assumes "transientErr K br reason cause w = (r, w')" and "x \<in> ks_rep_seen (st w)" and "br_Meta br = br_Meta x"
    and "P (brt_Phase (br_Status x)) (brt_Phase (br_Status br))"
  shows "repWrites P (rep_key x) (st w) (st w')"
  using assms by (auto simp: transientErr_def Let_def intro: updateThen_write)

end


section \<open>Frames\<close>

lemma getSecretKey_keeps [frames]: "kube_reads_keep K f \<Longrightarrow> keeps f (getSecretKey K ns n k)"
  by (rule keepsI) (auto simp: getSecretKey_def split: prod.splits sum.splits option.splits
    dest: keepsD [OF kube_readsD(6)])

lemma resolveStore_keeps [frames]:
  assumes "kube_reads_keep K f"
  shows "keeps f (resolveStore K br policy)"
proof -
  have cred: "keeps f (credentialBytes K br bsl policy)" for bsl
    by (rule keepsI) (auto simp: credentialBytes_def split: option.splits if_splits
      dest: keepsD [OF getSecretKey_keeps [OF assms]])
  then show ?thesis
    by (intro keepsI) (auto simp: resolveStore_def Let_def split: prod.splits sum.splits option.splits if_splits
      dest!: keepsD [OF kube_readsD(5) [OF assms]] keepsD [OF cred])
qed

lemma enumerateDelta_keeps [frames]:
  assumes "store_keeps S f"
  shows "keeps f (enumerateDelta S br)"
proof -
  have repos: "listRepos S l ps keys w = (r, w') \<Longrightarrow> f w' = f w" for l ps keys w r w'
    by (induction ps arbitrary: keys w)
      (auto split: prod.splits sum.splits dest: keepsD [OF store_keepsD(1) [OF assms]])
  show ?thesis
    by (rule keepsI) (auto simp: enumerateDelta_def split: prod.splits sum.splits
      dest!: repos keepsD [OF store_keepsD(1) [OF assms]] keepsD [OF store_keepsD(6) [OF assms]]
      simp del: listRepos.simps)
qed

lemma stageAll_keeps:
  assumes "os_keeps (env_OS E) f" and "store_keeps S f"
  shows "stageAll E sg S ks specs tot w = (r, w') \<Longrightarrow> f w' = f w"
  by (induction ks arbitrary: specs tot w)
    (auto split: prod.splits sum.splits dest: keepsD [OF StageObject_keeps [OF assms]])

lemma sendBundles_Cons_cases:
  assumes "sendBundles http name prio pc i (b # bs) (statuses, entries, allDone) w = Some (r, w')"
  obtains (sendFailed) e pc1 where
      "SendAttachments http pc (bundleIdent name i) (b_Files b) \<lparr>sc_AllNodes = True, sc_NodeIDs = []\<rparr> prio w =
        (Inl e, pc1, w')" "r = Inl (''SendFailed'', e)"
    | (waitFailed) res pc1 w1 progs e where
      "SendAttachments http pc (bundleIdent name i) (b_Files b) \<lparr>sc_AllNodes = True, sc_NodeIDs = []\<rparr> prio w =
        (Inr res, pc1, w1)"
      "WaitBundle http pc1 (bundleIdent name i) w1 = Some ((progs, Some e), w')" "r = Inl (''WaitFailed'', e)"
    | (sent) res pc1 w1 progs w2 phase bytes ids where
      "SendAttachments http pc (bundleIdent name i) (b_Files b) \<lparr>sc_AllNodes = True, sc_NodeIDs = []\<rparr> prio w =
        (Inr res, pc1, w1)"
      "WaitBundle http pc1 (bundleIdent name i) w1 = Some ((progs, None), w2)" "summarize progs = (phase, bytes, ids)"
      "sendBundles http name prio pc1 (Suc i) bs
        (statuses @ [(newBundleStatus (bundleIdent name i) b)\<lparr>bs_Phase := phase, bs_BytesTransferred := bytes,
           bs_DistributionIDs := ids\<rparr>], handleEntries (b_Files b) (sr_Handles res) entries,
         if phase \<noteq> BundleCompleted then False else allDone) w2 = Some (r, w')"
  using assms
  by (auto simp: Let_def simp del: handleEntries.simps split: prod.splits sum.splits option.splits
      intro: sendFailed waitFailed sent)

lemma sendBundles_keeps:
  assumes "http_keeps http f"
  shows "sendBundles http name prio pc i bs acc w = Some (r, w') \<Longrightarrow> f w' = f w"
proof (induction bs arbitrary: pc i acc w)
  case (Cons b bs)
  obtain statuses entries allDone where acc: "acc = (statuses, entries, allDone)" by (metis prod_cases3)
  show ?case
    by (rule sendBundles_Cons_cases [OF Cons.prems [unfolded acc]])
      (auto dest!: peat_keeps(6) [OF assms] WaitBundle_keeps [OF assms] Cons.IH)
qed simp

lemma emitManifest_keeps [frames]: "http_keeps http f \<Longrightarrow> keeps f (emitManifest http pc br p es n t)"
  by (rule keepsI) (auto simp: emitManifest_def Let_def split: prod.splits sum.splits dest: keepsD [OF peat_keeps(2)])

lemma commitLedger_keeps [frames]:
  assumes "store_keeps S f"
  shows "keeps f (commitLedger S br keys)"
  by (rule keepsI) (auto simp: commitLedger_def Let_def split: prod.splits sum.splits if_splits
    dest!: keepsD [OF store_keepsD(6) [OF assms]] keepsD [OF store_keepsD(7) [OF assms]])



section \<open>Bundles and manifest entries\<close>

lemma sumProgress_spec:
  "sumProgress ps (n, ids, ac, af) =
     (foldl (\<lambda>n p. wrap64 (n + int64_of_u64 (pr_BytesTransferred p))) n ps, ids @ map pr_DistributionID ps,
      ac \<and> (\<forall>p \<in> set ps. pr_Status p = StatusCompleted),
      af \<or> (\<exists>p \<in> set ps. pr_Status p = StatusFailed \<or> pr_Status p = StatusCancelled))"
  by (induction ps arbitrary: n ids ac af) auto

lemma sumProgress_bytes:
  "n + (\<Sum>p \<leftarrow> ps. unat (pr_BytesTransferred p)) < 2 ^ 63 \<Longrightarrow>
   foldl (\<lambda>n p. wrap64 (n + int64_of_u64 (pr_BytesTransferred p))) (int n) ps =
     int (n + (\<Sum>p \<leftarrow> ps. unat (pr_BytesTransferred p)))"
proof (induction ps arbitrary: n)
  case (Cons p ps)
  have p: "int64_of_u64 (pr_BytesTransferred p) = int (unat (pr_BytesTransferred p))"
    using Cons.prems by (intro int64_of_u64_small) simp
  have wrap: "wrap64 (int m + int u) = int (m + u)" if "m + u < 2 ^ 63" for m u
    using that by (subst wrap64_id) (simp_all add: in_int64_def)
  have "n + unat (pr_BytesTransferred p) < 2 ^ 63" using Cons.prems by simp
  from wrap [OF this]
  have "wrap64 (int n + int64_of_u64 (pr_BytesTransferred p)) = int (n + unat (pr_BytesTransferred p))"
    unfolding p .
  then show ?case using Cons.IH [of "n + unat (pr_BytesTransferred p)"] Cons.prems by (simp add: add.assoc)
qed simp

lemma handleEntries_append: "handleEntries files hs entries = entries @ handleEntries files hs []"
proof (induction hs arbitrary: entries)
  case (Cons h hs)
  show ?case
  proof (cases "unat (ah_FileIndex h) \<ge> length files")
    case False
    let ?e = "handleEntry (files ! unat (ah_FileIndex h)) h"
    show ?thesis using False Cons [of "entries @ [?e]"] Cons [of "[?e]"] by simp
  qed (use Cons [of entries] in simp)
qed simp

lemma handleEntries_set:
  "set (handleEntries files hs []) =
     {handleEntry (files ! unat (ah_FileIndex h)) h | h. h \<in> set hs \<and> unat (ah_FileIndex h) < length files}"
proof (induction hs)
  case (Cons h hs)
  show ?case
    using Cons handleEntries_append [of files hs "[handleEntry (files ! unat (ah_FileIndex h)) h]"]
    by (auto simp: not_le)
qed simp

text \<open>
  What the loop over the bundles returns when it ends well: a status for each batch, and the
  entries of the handles that the peat sidecar returned for each batch in turn.
\<close>

fun bundleResponses :: "'w Http \<Rightarrow> string \<Rightarrow> Priority \<Rightarrow> nat \<Rightarrow> Batch list \<Rightarrow> AttachmentHandle list list \<Rightarrow> bool" where
  "bundleResponses http name prio i [] hss = (hss = [])"
| "bundleResponses http name prio i (b # bs) hss =
     (\<exists>hs hss' pc w res pc' w'. hss = hs # hss' \<and> bundleResponses http name prio (Suc i) bs hss' \<and>
        SendAttachments http pc (bundleIdent name i) (b_Files b) \<lparr>sc_AllNodes = True, sc_NodeIDs = []\<rparr> prio w =
          (Inr res, pc', w') \<and> sr_Handles res = hs)"

lemma bundleResponses_length: "bundleResponses http name prio i bs hss \<Longrightarrow> length hss = length bs"
  by (induction bs arbitrary: i hss) auto

lemma sendBundles_ok:
  "sendBundles http name prio pc i bs (statuses, entries, d) w = Some (Inr (statuses', entries', d'), w') \<Longrightarrow>
   \<exists>new hss. statuses' = statuses @ new \<and> map bs_BundleID new = map (bundleIdent name) [i ..< i + length bs] \<and>
     bundleResponses http name prio i bs hss \<and>
     entries' = entries @ concat (map2 (\<lambda>b hs. handleEntries (b_Files b) hs []) bs hss) \<and>
     (d' \<longleftrightarrow> d \<and> (\<forall>s \<in> set new. bs_Phase s = BundleCompleted))"
proof (induction bs arbitrary: pc i statuses entries d w)
  case (Cons b bs)
  show ?case
  proof (rule sendBundles_Cons_cases [OF Cons.prems])
    fix res pc1 w1 progs w2 phase bytes ids
    let ?s = "(newBundleStatus (bundleIdent name i) b)\<lparr>bs_Phase := phase, bs_BytesTransferred := bytes,
        bs_DistributionIDs := ids\<rparr>"
    assume send: "SendAttachments http pc (bundleIdent name i) (b_Files b) \<lparr>sc_AllNodes = True, sc_NodeIDs = []\<rparr> prio w =
        (Inr res, pc1, w1)"
    assume "sendBundles http name prio pc1 (Suc i) bs
        (statuses @ [?s], handleEntries (b_Files b) (sr_Handles res) entries,
         if phase \<noteq> BundleCompleted then False else d) w2 = Some (Inr (statuses', entries', d'), w')"
    then obtain new hss where IH: "statuses' = (statuses @ [?s]) @ new"
      "map bs_BundleID new = map (bundleIdent name) [Suc i ..< Suc i + length bs]"
      "bundleResponses http name prio (Suc i) bs hss"
      "entries' = handleEntries (b_Files b) (sr_Handles res) entries @ concat (map2 (\<lambda>b hs. handleEntries (b_Files b) hs []) bs hss)"
      "d' \<longleftrightarrow> (if phase \<noteq> BundleCompleted then False else d) \<and> (\<forall>s \<in> set new. bs_Phase s = BundleCompleted)"
      using Cons.IH by blast
    have "map bs_BundleID (?s # new) = map (bundleIdent name) [i ..< i + length (b # bs)]"
      using IH(2) by (simp add: newBundleStatus_def upt_rec)
    moreover have "entries' = entries @ concat (map2 (\<lambda>b hs. handleEntries (b_Files b) hs []) (b # bs) (sr_Handles res # hss))"
      using IH(4) handleEntries_append [of "b_Files b" "sr_Handles res" entries] by simp
    moreover have "bundleResponses http name prio i (b # bs) (sr_Handles res # hss)"
      unfolding bundleResponses.simps using send IH(3) by blast
    ultimately show ?thesis
      using IH(1,5) by (intro exI [of _ "?s # new"] exI [of _ "sr_Handles res # hss"]) (auto simp del: bundleResponses.simps)
  qed auto
qed simp


section \<open>A complete pass\<close>

text \<open>
  What a reconcile that declares a work item replicated has done, in the order of the code and
  from state to state: \<open>finished\<close> is the sixth step (the time, the manifest, the ledger, the status),
  \<open>transmitted\<close> the fourth and fifth before it (the status, the peer, the bundles, all of them
  completed), and \<open>shippedBy\<close> the whole reconcile from the state \<open>w\<close> to the state \<open>w'\<close>. The states in
  which the objects were staged, one for each key, are those of \<open>stagingStates\<close>.
\<close>

fun stagingStates :: "'w Env \<Rightarrow> Stager \<Rightarrow> 'w Store \<Rightarrow> string list \<Rightarrow> 'w \<Rightarrow> 'w list" where
  "stagingStates E sg store [] w = []"
| "stagingStates E sg store (k # ks) w =
     w # stagingStates E sg store ks (snd (StageObject (env_sha256 E) (env_OS E) sg store k w))"

definition finished :: "'w Env \<Rightarrow> connectClient \<Rightarrow> 'w Store \<Rightarrow> BackupReplication \<Rightarrow> string \<Rightarrow> string list \<Rightarrow>
    u64 \<Rightarrow> FileEntry list \<Rightarrow> 'w \<Rightarrow> 'w \<Rightarrow> bool" where
  "finished E pc store br bslPrefix keys tot entries w w' \<longleftrightarrow>
     (\<exists>now w1 br1 w2 w3 y. k_Now (env_Kube E) w = (now, w1) \<and>
        br1 = br\<lparr>br_Status := (br_Status br)\<lparr>brt_CompletedAt := Some now\<rparr>\<rparr> \<and>
        emitManifest (env_Http E) pc br1 bslPrefix entries (int64_of_u64 tot) now w1 = (Inr (), w2) \<and>
        commitLedger store br1 keys w2 = (Committed, w3) \<and>
        k_UpdateReplicationStatus (env_Kube E)
          (setReady (env_Kube E) (setPhase br1 PhaseReplicated) ConditionTrue ''Replicated''
             (Lit ''all bundles transmitted to destination peer'') w3) w3 = (Inr y, w'))"

definition transmitted :: "'w Env \<Rightarrow> 'w Store \<Rightarrow> BackupReplication \<Rightarrow> ReplicationPolicy \<Rightarrow> string \<Rightarrow> string list \<Rightarrow>
    FileSpec list \<Rightarrow> u64 \<Rightarrow> BundleStatus list \<Rightarrow> FileEntry list \<Rightarrow> 'w \<Rightarrow> 'w \<Rightarrow> bool" where
  "transmitted E store br policy bslPrefix keys specs tot statuses entries w w' \<longleftrightarrow>
     (\<exists>y1 w1 pc w2 w3. k_UpdateReplicationStatus (env_Kube E)
          (setPhase (br\<lparr>br_Status := (br_Status br)\<lparr>brt_ObjectCount := int (length specs),
             brt_TotalBytes := int64_of_u64 tot\<rparr>\<rparr>) PhaseTransmitting) w = (Inr y1, w1) \<and>
        br_Spec y1 = br_Spec br \<and> rep_key y1 = rep_key br \<and>
        NewClient (ps_Address (rp_Peat (pol_Spec policy))) = Inr pc \<and>
        EnsurePeer (env_Http E) pc (tg_EndpointID (rp_Target (pol_Spec policy)))
          (tg_Addresses (rp_Target (pol_Spec policy))) (tg_RelayURL (rp_Target (pol_Spec policy))) w1 = (Inr (), w2) \<and>
        sendBundles (env_Http E) (snd (rep_key y1)) (mapPriority (rp_Priority (pol_Spec policy))) pc 0
          (Pack specs (rp_BundleFileLimit (pol_Spec policy)) (u64_of_int64 (rp_BundleByteLimit (pol_Spec policy))))
          ([], [], True) w2 = Some (Inr (statuses, entries, True), w3) \<and>
        finished E pc store (y1\<lparr>br_Status := (br_Status y1)\<lparr>brt_Bundles := statuses\<rparr>\<rparr>) bslPrefix keys tot entries w3 w')"

definition shippedBy :: "'w Env \<Rightarrow> ReplicationPolicy \<Rightarrow> BackupReplication \<Rightarrow> Config \<Rightarrow> string list \<Rightarrow> 'w list \<Rightarrow>
    BundleStatus list \<Rightarrow> FileEntry list \<Rightarrow> 'w \<Rightarrow> 'w \<Rightarrow> bool" where
  "shippedBy E policy x cfg keys states statuses entries w w' \<longleftrightarrow>
     (\<exists>w1 w2 br1 w3 w4 ms w5 sg specs tot w6.
        k_GetReplication (env_Kube E) (fst (rep_key x)) (snd (rep_key x)) w = (Inr x, w1) \<and>
        k_GetPolicy (env_Kube E) (brs_PolicyName (br_Spec x)) w1 = (Inr policy, w2) \<and>
        markStarted (env_Kube E) x w2 = (br1, w3) \<and>
        resolveStore (env_Kube E) (setPhase br1 PhaseStaging) policy w3 = (Inr cfg, w4) \<and>
        NewStore (env_SDK E) cfg = Inr ms \<and>
        enumerateDelta (minio_Store ms) (setPhase br1 PhaseStaging) w4 = (Inr keys, w5) \<and> keys \<noteq> [] \<and>
        sg = NewStager (ps_OutboxRoot (rp_Peat (pol_Spec policy))) (ps_OutboxPath (rp_Peat (pol_Spec policy))) \<and>
        stageAll E sg (minio_Store ms) keys [] 0 w5 = (Inr (specs, tot), w6) \<and>
        states = stagingStates E sg (minio_Store ms) keys w5 \<and>
        transmitted E (minio_Store ms) (setPhase br1 PhaseStaging) policy (cfg_Prefix cfg) keys specs tot statuses entries w6 w')"


section \<open>The outcomes of a pass\<close>

text \<open>
  Every way a reconcile ends, seen from the stored work items: it writes the work item
  without declaring it replicated, or it went through every step and declared it.
\<close>

context controller_env
begin

lemma now_seen: "k_Now (env_Kube E) w = (t, w1) \<Longrightarrow> st w1 = st w"
  by (rule now_frame)

lemma finish_cases:
  assumes run: "finishReplication E pc S br pfx keys tot entries w = (r, w')"
    and x: "x \<in> ks_rep_seen (st w)" "br_Meta br = br_Meta x"
      "brt_Phase (br_Status br) = PhaseTransmitting" "brt_Phase (br_Status x) = PhaseTransmitting"
    and S: "store_keeps S st"
  obtains (quiet) "repWrites quietStep (rep_key x) (st w) (st w')"
    | (replicated) y where "finished E pc S br pfx keys tot entries w w'"
      "ks_reps (st w) (rep_key x) = Some x" "rep_key y = rep_key x" "br_Spec y = br_Spec x"
      "brt_Phase (br_Status y) = PhaseReplicated" "brt_Bundles (br_Status y) = brt_Bundles (br_Status br)"
      "st w' = put_rep y (st w)"
proof -
  obtain now w1 where now: "k_Now (env_Kube E) w = (now, w1)" by fastforce
  let ?br1 = "br\<lparr>br_Status := (br_Status br)\<lparr>brt_CompletedAt := Some now\<rparr>\<rparr>"
  obtain er w2 where em: "emitManifest (env_Http E) pc ?br1 pfx entries (int64_of_u64 tot) now w1 = (er, w2)" by fastforce
  obtain cr w3 where cm: "commitLedger S ?br1 keys w2 = (cr, w3)" by fastforce
  have st: "st w1 = st w" "st w2 = st w" "st w3 = st w"
    using now_frame [OF now] keepsD [OF emitManifest_keeps [OF http_st] em] keepsD [OF commitLedger_keeps [OF S] cm] by simp_all
  have step: "quietStep (brt_Phase (br_Status x)) (brt_Phase (br_Status ?br1))"
    using x by (simp add: quietStep_def phaseStep.stay)
  have transient: "repWrites quietStep (rep_key x) (st w) (st w')"
    if "transientErr (env_Kube E) ?br1 reason e v = (r, w')" "st v = st w" for reason e v
    using transientErr_write [OF that(1), of x quietStep] that(2) x(1,2) step by simp
  show ?thesis
  proof (cases er)
    case (Inl e)
    then have "transientErr (env_Kube E) ?br1 ''ManifestEmitFailed'' e w2 = (r, w')"
      using run now em by (simp add: finishReplication_def Let_def)
    then show ?thesis using quiet transient st by blast
  next
    case er: (Inr u)
    show ?thesis
    proof (cases cr)
      case (CommitError e)
      then have "transientErr (env_Kube E) ?br1 ''LedgerCommitFailed'' e w3 = (r, w')"
        using run now em cm er by (simp add: finishReplication_def Let_def)
      then show ?thesis using quiet transient st by blast
    next
      case CommitPanic
      then have "w' = w3" using run now em cm er by (simp add: finishReplication_def Let_def)
      then show ?thesis using quiet st by simp
    next
      case Committed
      let ?br2 = "setReady (env_Kube E) (setPhase ?br1 PhaseReplicated) ConditionTrue ''Replicated''
        (Lit ''all bundles transmitted to destination peer'') w3"
      have upd: "updateThen (env_Kube E) ?br2 doneResult w3 = (r, w')"
        using run now em cm er Committed by (simp add: finishReplication_def Let_def)
      then obtain ur where u: "k_UpdateReplicationStatus (env_Kube E) ?br2 w3 = (ur, w')"
        by (auto simp: updateThen_def split: prod.splits sum.splits)
      have "x \<in> ks_rep_seen (st w3)" "br_Meta ?br2 = br_Meta x" using x st by simp_all
      from u this show ?thesis
      proof (cases rule: update_write)
        case failed
        then show ?thesis using quiet st by simp
      next
        case (written y)
        have "finished E pc S br pfx keys tot entries w w'"
          unfolding finished_def
          using now em [unfolded er] cm [unfolded Committed] u [unfolded written(1)] by auto
        then show ?thesis using replicated [of y] written st by simp
      qed
    qed
  qed
qed

lemma transmit_cases:
  assumes run: "transmit E S br policy pfx keys specs tot w = Some (r, w')"
    and x: "x \<in> ks_rep_seen (st w)" "br_Meta br = br_Meta x" "\<not> replicationTerminal (brt_Phase (br_Status x))"
    and spec: "br_Spec br = br_Spec x"
    and S: "store_keeps S st"
  obtains (quiet) "repWrites quietStep (rep_key x) (st w) (st w')"
    | (replicated) statuses entries y1 y where
      "transmitted E S br policy pfx keys specs tot statuses entries w w'"
      "ks_reps (st w) (rep_key x) = Some x" "rep_key y1 = rep_key x" "br_Spec y1 = br_Spec x"
      "brt_Phase (br_Status y1) = PhaseTransmitting" "rep_key y = rep_key x" "br_Spec y = br_Spec x"
      "brt_Phase (br_Status y) = PhaseReplicated" "brt_Bundles (br_Status y) = statuses"
      "st w' = put_rep y (put_rep y1 (st w))"
proof -
  let ?spec = "pol_Spec policy"
  let ?br2 = "setPhase (br\<lparr>br_Status := (br_Status br)\<lparr>brt_ObjectCount := int (length specs),
    brt_TotalBytes := int64_of_u64 tot\<rparr>\<rparr>) PhaseTransmitting"
  obtain ur w1 where u: "k_UpdateReplicationStatus (env_Kube E) ?br2 w = (ur, w1)" by fastforce
  have "br_Meta ?br2 = br_Meta x" using x by simp
  from u x(1) this show ?thesis
  proof (cases rule: update_write)
    case (failed e)
    then have "w' = w1" using run u by (auto simp: transmit_def Let_def)
    then show ?thesis using quiet failed by simp
  next
    case (written y1)
    have y1: "y1 \<in> ks_rep_seen (st w1)" "brt_Phase (br_Status y1) = PhaseTransmitting"
      using written by simp_all
    have name: "om_Name (br_Meta y1) = snd (rep_key x)"
      using written(3) by (simp add: rep_key_def meta_key_def)
    have first: "repWrite quietStep (rep_key x) (st w) (st w1)"
      using written x(3) by (auto intro!: repWrite.intros simp: quietStep_def phaseStep.transmit)
    have later: "repWrites quietStep (rep_key x) (st w) (st w')" if "repWrites quietStep (rep_key y1) (st w1) (st w')"
      using first that written(3) by (simp add: converse_rtranclp_into_rtranclp)
    have transient: "repWrites quietStep (rep_key x) (st w) (st w')"
      if "transientErr (env_Kube E) y1 reason e v = (r, w')" "st v = st w1" for reason e v
      using transientErr_write [OF that(1), of y1 quietStep] that(2) y1 later
      by (simp add: quietStep_def phaseStep.stay)
    show ?thesis
    proof (cases "NewClient (ps_Address (rp_Peat ?spec))")
      case (Inl e)
      then have "transientErr (env_Kube E) y1 ''PeatDialFailed'' e w1 = (r, w')"
        using run u written by (simp add: transmit_def Let_def)
      then show ?thesis using transient quiet by blast
    next
      case pc: (Inr pc)
      obtain er w2 where ens: "EnsurePeer (env_Http E) pc (tg_EndpointID (rp_Target ?spec)) (tg_Addresses (rp_Target ?spec))
          (tg_RelayURL (rp_Target ?spec)) w1 = (er, w2)" by fastforce
      have st2: "st w2 = st w1" using keepsD [OF peat_keeps(1) [OF http_st] ens] .
      show ?thesis
      proof (cases er)
        case (Inl e)
        then have "transientErr (env_Kube E) y1 ''PeerConnectFailed'' e w2 = (r, w')"
          using run u written pc ens by (simp add: transmit_def Let_def)
        then show ?thesis using transient st2 quiet by blast
      next
        case er: (Inr un)
        define batches where "batches = Pack specs (rp_BundleFileLimit ?spec) (u64_of_int64 (rp_BundleByteLimit ?spec))"
        define sb where "sb = sendBundles (env_Http E) (snd (rep_key x)) (mapPriority (rp_Priority ?spec)) pc 0 batches
            ([], [], True) w2"
        have rest: "(case sb of None \<Rightarrow> None
            | Some (Inl (reason, e), w3) \<Rightarrow> Some (transientErr (env_Kube E) y1 reason e w3)
            | Some (Inr (statuses, entries, allDone), w3) \<Rightarrow>
                (let br4 = y1\<lparr>br_Status := (br_Status y1)\<lparr>brt_Bundles := statuses\<rparr>\<rparr>
                 in if \<not> allDone then Some (updateReturn (env_Kube E) br4 retryResult w3)
                    else Some (finishReplication E pc S br4 pfx keys tot entries w3))) = Some (r, w')"
          using run u written pc ens er name by (simp add: transmit_def Let_def batches_def sb_def)
        obtain sr w3 where sent: "sb = Some (sr, w3)" using rest by (cases sb) auto
        have st3: "st w3 = st w1" using sendBundles_keeps [OF http_st sent [unfolded sb_def]] st2 by simp
        show ?thesis
        proof (cases sr)
          case (Inl re)
          then obtain reason e where "transientErr (env_Kube E) y1 reason e w3 = (r, w')"
            using rest sent by (cases re) simp
          then show ?thesis using transient st3 quiet by blast
        next
          case (Inr acc)
          obtain statuses entries allDone where acc: "acc = (statuses, entries, allDone)" by (metis prod_cases3)
          let ?br4 = "y1\<lparr>br_Status := (br_Status y1)\<lparr>brt_Bundles := statuses\<rparr>\<rparr>"
          have y1': "y1 \<in> ks_rep_seen (st w3)" "br_Meta ?br4 = br_Meta y1"
            "brt_Phase (br_Status ?br4) = PhaseTransmitting"
            using y1 st3 by simp_all
          show ?thesis
          proof (cases allDone)
            case False
            then have "updateReturn (env_Kube E) ?br4 retryResult w3 = (r, w')"
              using rest sent Inr acc by simp
            from updateReturn_write [OF this y1'(1,2), of quietStep]
            have "repWrites quietStep (rep_key y1) (st w3) (st w')"
              using y1(2) by (simp add: quietStep_def phaseStep.stay)
            then show ?thesis using quiet later st3 by simp
          next
            case True
            then have "finishReplication E pc S ?br4 pfx keys tot entries w3 = (r, w')"
              using rest sent Inr acc by simp
            from this y1'(1,2,3) y1(2) S show ?thesis
            proof (cases rule: finish_cases)
              case quiet
              then show ?thesis using later st3 \<open>repWrites quietStep (rep_key x) (st w) (st w') \<Longrightarrow> thesis\<close> by simp
            next
              case fin: (replicated y)
              have "rep_key y1 = rep_key br" "br_Spec y1 = br_Spec br"
                using written(3,4) x(2) spec by (simp_all add: rep_key_def)
              then have "transmitted E S br policy pfx keys specs tot statuses entries w w'"
                unfolding transmitted_def
                using u [unfolded written(1)] pc ens [unfolded er] sent [unfolded sb_def batches_def Inr acc \<open>allDone\<close> [THEN eqTrueI]]
                  fin(1) written(3) by (intro exI conjI) simp_all
              then show ?thesis by (rule replicated) (use fin written st3 y1(2) in simp_all)
            qed
          qed
        qed
      qed
    qed
  qed
qed


lemma markStarted_simps:
  assumes "markStarted (env_Kube E) br w = (br1, w1)"
  shows "br_Meta br1 = br_Meta br" "br_Spec br1 = br_Spec br" "st w1 = st w"
  using assms now_frame by (auto simp: markStarted_def split: if_splits prod.splits)

lemma replicate_cases:
  assumes run: "replicate_pass E x policy w = Some (r, w')"
    and x: "x \<in> ks_rep_seen (st w)" "\<not> replicationTerminal (brt_Phase (br_Status x))"
  obtains (quiet) "repWrites quietStep (rep_key x) (st w) (st w')"
    | (replicated) br1 w1 cfg w2 m keys w3 specs tot w4 statuses entries y1 y where
      "markStarted (env_Kube E) x w = (br1, w1)" "resolveStore (env_Kube E) (setPhase br1 PhaseStaging) policy w1 = (Inr cfg, w2)"
      "NewStore (env_SDK E) cfg = Inr m" "enumerateDelta (minio_Store m) (setPhase br1 PhaseStaging) w2 = (Inr keys, w3)"
      "keys \<noteq> []" "stageAll E (NewStager (ps_OutboxRoot (rp_Peat (pol_Spec policy))) (ps_OutboxPath (rp_Peat (pol_Spec policy))))
        (minio_Store m) keys [] 0 w3 = (Inr (specs, tot), w4)"
      "transmitted E (minio_Store m) (setPhase br1 PhaseStaging) policy (cfg_Prefix cfg) keys specs tot statuses entries w4 w'"
      "ks_reps (st w) (rep_key x) = Some x" "rep_key y1 = rep_key x" "br_Spec y1 = br_Spec x"
      "brt_Phase (br_Status y1) = PhaseTransmitting" "rep_key y = rep_key x" "br_Spec y = br_Spec x"
      "brt_Phase (br_Status y) = PhaseReplicated" "brt_Bundles (br_Status y) = statuses"
      "st w' = put_rep y (put_rep y1 (st w))"
proof -
  let ?K = "env_Kube E"
  obtain br1 w1 where ms: "markStarted ?K x w = (br1, w1)" by fastforce
  let ?br2 = "setPhase br1 PhaseStaging"
  have br2: "br_Meta ?br2 = br_Meta x" "br_Spec ?br2 = br_Spec x" "brt_Phase (br_Status ?br2) = PhaseStaging"
    using markStarted_simps [OF ms] by simp_all
  have stage: "quietStep (brt_Phase (br_Status x)) PhaseStaging"
    using x(2) by (simp add: quietStep_def phaseStep.stage)
  have degraded: "repWrites quietStep (rep_key x) (st w) (st w')"
    if "degrade ?K ?br2 reason msg v = (r, w')" "st v = st w" for reason msg v
    using degrade_write [OF that(1) _ br2(1), of quietStep] that(2) x(1) br2(3) stage by simp
  have transient: "repWrites quietStep (rep_key x) (st w) (st w')"
    if "transientErr ?K ?br2 reason e v = (r, w')" "st v = st w" for reason e v
    using transientErr_write [OF that(1) _ br2(1), of quietStep] that(2) x(1) br2(3) stage by simp
  obtain rr w2 where rs: "resolveStore ?K ?br2 policy w1 = (rr, w2)" by fastforce
  have st2: "st w2 = st w" using keepsD [OF resolveStore_keeps [OF reads_st] rs] markStarted_simps(3) [OF ms] by simp
  show ?thesis
  proof (cases rr)
    case (Inl e)
    then have "degrade ?K ?br2 ''ResolveStoreFailed'' (ErrText e) w2 = (r, w')"
      using run ms rs by (simp add: replicate_pass_def Let_def)
    then show ?thesis using degraded st2 quiet by blast
  next
    case cfg: (Inr cfg)
    show ?thesis
    proof (cases "NewStore (env_SDK E) cfg")
      case (Inl e)
      then have "degrade ?K ?br2 ''StoreInitFailed'' (ErrText e) w2 = (r, w')"
        using run ms rs cfg by (simp add: replicate_pass_def Let_def)
      then show ?thesis using degraded st2 quiet by blast
    next
      case store: (Inr m)
      note S = store_st [OF store]
      obtain kr w3 where en: "enumerateDelta (minio_Store m) ?br2 w2 = (kr, w3)" by fastforce
      have st3: "st w3 = st w" using keepsD [OF enumerateDelta_keeps [OF S] en] st2 by simp
      show ?thesis
      proof (cases kr)
        case (Inl e)
        then have "transientErr ?K ?br2 ''EnumerateFailed'' e w3 = (r, w')"
          using run ms rs cfg store en by (simp add: replicate_pass_def Let_def)
        then show ?thesis using transient st3 quiet by blast
      next
        case keys: (Inr keys)
        show ?thesis
        proof (cases "keys = []")
          case True
          let ?br3 = "setReady ?K (setPhase ?br2 PhaseSkipped) ConditionFalse ''NothingToReplicate''
            (Lit ''no replicable objects found for backup (snapshot-only?)'') w3"
          have "updateThen ?K ?br3 doneResult w3 = (r, w')"
            using run ms rs cfg store en keys True by (simp add: replicate_pass_def Let_def)
          from updateThen_write [OF this, of x quietStep]
          have "repWrites quietStep (rep_key x) (st w3) (st w')"
            using x br2 st3 by (simp add: quietStep_def phaseStep.skip)
          then show ?thesis using quiet st3 by simp
        next
          case False
          let ?sg = "NewStager (ps_OutboxRoot (rp_Peat (pol_Spec policy))) (ps_OutboxPath (rp_Peat (pol_Spec policy)))"
          obtain sr w4 where sg: "stageAll E ?sg (minio_Store m) keys [] 0 w3 = (sr, w4)" by fastforce
          have st4: "st w4 = st w" using stageAll_keeps [OF os_st S sg] st3 by simp
          show ?thesis
          proof (cases sr)
            case (Inl e)
            then have "transientErr ?K ?br2 ''StageFailed'' e w4 = (r, w')"
              using run ms rs cfg store en keys False sg by (simp add: replicate_pass_def Let_def)
            then show ?thesis using transient st4 quiet by blast
          next
            case (Inr sp)
            obtain specs tot where sp: "sp = (specs, tot)" by fastforce
            have tr: "transmit E (minio_Store m) ?br2 policy (cfg_Prefix cfg) keys specs tot w4 = Some (r, w')"
              using run ms rs cfg store en keys False sg Inr sp by (simp add: replicate_pass_def Let_def)
            show ?thesis
            proof (rule transmit_cases [OF tr _ br2(1) x(2) br2(2) S])
              show "x \<in> ks_rep_seen (st w4)" using x(1) st4 by simp
            next
              assume "repWrites quietStep (rep_key x) (st w4) (st w')"
              then show thesis using quiet st4 by simp
            next
              fix statuses entries y1 y
              assume tr: "transmitted E (minio_Store m) ?br2 policy (cfg_Prefix cfg) keys specs tot statuses entries w4 w'"
                and 2: "ks_reps (st w4) (rep_key x) = Some x" "rep_key y1 = rep_key x" "br_Spec y1 = br_Spec x"
                "brt_Phase (br_Status y1) = PhaseTransmitting" "rep_key y = rep_key x" "br_Spec y = br_Spec x"
                "brt_Phase (br_Status y) = PhaseReplicated" "brt_Bundles (br_Status y) = statuses"
                "st w' = put_rep y (put_rep y1 (st w4))"
              show thesis
                by (rule replicated [OF ms rs [unfolded cfg] store en [unfolded keys] False sg [unfolded Inr sp] tr])
                  (use 2 st4 in simp_all)
            qed
          qed
        qed
      qed
    qed
  qed
qed

lemma Reconcile_cases:
  assumes run: "ReconcileReplication E ns name w = Some (r, w')"
  obtains (quiet) "repWrites quietStep (ns, name) (st w) (st w')"
    | (replicated) policy x cfg keys states statuses entries y1 y where
      "shippedBy E policy x cfg keys states statuses entries w w'" "\<not> replicationTerminal (brt_Phase (br_Status x))"
      "ks_reps (st w) (ns, name) = Some x" "rep_key y1 = (ns, name)" "br_Spec y1 = br_Spec x"
      "brt_Phase (br_Status y1) = PhaseTransmitting" "rep_key y = (ns, name)" "br_Spec y = br_Spec x"
      "brt_Phase (br_Status y) = PhaseReplicated" "brt_Bundles (br_Status y) = statuses"
      "st w' = put_rep y (put_rep y1 (st w))"
proof -
  let ?K = "env_Kube E"
  obtain gr w1 where get: "k_GetReplication ?K ns name w = (gr, w1)" by fastforce
  have st1: "st w1 = st w" using get_rep_frame [OF get] .
  show ?thesis
  proof (cases "\<exists>x. gr = Inr x \<and> IsZero (om_DeletionTimestamp (br_Meta x)) \<and> \<not> replicationTerminal (brt_Phase (br_Status x))")
    case False
    then have "w' = w1" using run get by (auto simp: ReconcileReplication_def Let_def split: sum.splits if_splits)
    then show ?thesis using quiet st1 by simp
  next
    case True
    then obtain x where x: "gr = Inr x" "IsZero (om_DeletionTimestamp (br_Meta x))"
      "\<not> replicationTerminal (brt_Phase (br_Status x))" by blast
    have seen: "x \<in> ks_rep_seen (st w)" "rep_key x = (ns, name)" using get_rep_seen [OF get [unfolded x(1)]] by auto
    obtain pr w2 where pol: "k_GetPolicy ?K (brs_PolicyName (br_Spec x)) w1 = (pr, w2)" by fastforce
    have st2: "st w2 = st w" using get_policy_frame [OF pol] st1 by simp
    show ?thesis
    proof (cases pr)
      case (Inl e)
      show ?thesis
      proof (cases "is_not_found e")
        case True
        then have "degrade ?K x ''PolicyNotFound''
            (Fmt ''ReplicationPolicy not found'' [] [brs_PolicyName (br_Spec x)]) w2 = (r, w')"
          using run get x pol Inl by (simp add: ReconcileReplication_def Let_def)
        from degrade_write [OF this, of x quietStep]
        have "repWrites quietStep (rep_key x) (st w2) (st w')"
          using seen st2 x(3) by (cases "brt_Phase (br_Status x)") (auto simp: quietStep_def phaseStep.stay)
        then show ?thesis using quiet seen st2 by simp
      next
        case False
        then have "w' = w2" using run get x pol Inl by (simp add: ReconcileReplication_def Let_def)
        then show ?thesis using quiet st2 by simp
      qed
    next
      case (Inr policy)
      show ?thesis
      proof (cases "rp_Paused (pol_Spec policy)")
        case True
        then have "w' = w2" using run get x pol Inr by (simp add: ReconcileReplication_def Let_def)
        then show ?thesis using quiet st2 by simp
      next
        case False
        then have rep: "replicate_pass E x policy w2 = Some (r, w')"
          using run get x pol Inr by (simp add: ReconcileReplication_def Let_def)
        have "x \<in> ks_rep_seen (st w2)" using seen st2 by simp
        from rep this x(3) show ?thesis
        proof (cases rule: replicate_cases)
          case quiet
          then show ?thesis using seen st2 \<open>repWrites quietStep (ns, name) (st w) (st w') \<Longrightarrow> thesis\<close> by simp
        next
          case rp: (replicated br1 v1 cfg v2 m keys v3 specs tot v4 statuses entries y1 y)
          define sg where "sg = NewStager (ps_OutboxRoot (rp_Peat (pol_Spec policy))) (ps_OutboxPath (rp_Peat (pol_Spec policy)))"
          have "shippedBy E policy x cfg keys (stagingStates E sg (minio_Store m) keys v3) statuses entries w w'"
            unfolding shippedBy_def using get [unfolded x(1)] pol [unfolded Inr] rp(1-7) seen(2) sg_def
            by (intro exI conjI) simp_all
          then show ?thesis by (rule replicated [OF _ x(3)]) (use rp seen st2 in simp_all)
        qed
      qed
    qed
  qed
qed

end

end
