(* ===== verification/Replication_Shipping.thy ===== *)
theory Replication_Shipping
  imports Replication_Controller
begin

text \<open>
  What a reconcile of the replication controller achieves: the phase machine of its work items,
  the ledger as a map that grows by compare-and-swap, the manifest that covers what was staged,
  and that a backup is declared replicated only when manifest and ledger are in place.
\<close>


section \<open>Writes\<close>

lemma repWrite_frame:
  assumes "repWrite P k s s'"
  shows "k' \<noteq> k \<Longrightarrow> ks_reps s' k' = ks_reps s k'" "ks_imps s' = ks_imps s" "ks_imp_seen s' = ks_imp_seen s"
  using assms by (auto elim!: repWriteE)

lemma repWrites_frame:
  assumes "repWrites P k s s'"
  shows "(k' \<noteq> k \<longrightarrow> ks_reps s' k' = ks_reps s k') \<and> ks_imps s' = ks_imps s \<and> ks_imp_seen s' = ks_imp_seen s"
  using assms by (induction rule: rtranclp_induct) (auto simp: repWrite_frame)

text \<open>A chain of writes starts from the stored item, unless there are none.\<close>

lemma repWrites_terminal:
  assumes "repWrites P k s s'" and "ks_reps s k' = Some x" and "replicationTerminal (brt_Phase (br_Status x))"
    and "\<And>p q. P p q \<Longrightarrow> \<not> replicationTerminal p"
  shows "ks_reps s' k' = Some x"
  using assms(1,2)
proof (induction rule: rtranclp_induct)
  case (step t u)
  then show ?case using assms(3,4) by (cases "k' = k") (auto elim!: repWriteE)
qed

lemma repWrites_phase:
  assumes "repWrites P k s s'" and "ks_reps s' k = Some y" and "brt_Phase (br_Status y) = p"
    and "\<And>q. \<not> P q p"
  shows "ks_reps s k = Some y"
  using assms(1,2)
proof (induction rule: rtranclp_induct)
  case (step t u)
  from step.hyps(2) step.prems assms(3,4) have False by (auto elim!: repWriteE)
  then show ?case ..
qed

lemma repWrites_spec:
  assumes "repWrites P k s s'" and "ks_reps s k' = Some x"
  shows "\<exists>y. ks_reps s' k' = Some y \<and> br_Spec y = br_Spec x"
  using assms
proof (induction rule: rtranclp_induct)
  case (step t u)
  then show ?case by (cases "k' = k") (auto elim!: repWriteE)
qed simp

lemma quiet_phaseStep: "repWrites quietStep k s s' \<Longrightarrow> repWrites phaseStep k s s'"
  by (erule repWrites_mono) (simp add: quietStep_def)

context controller_env
begin

lemma Reconcile_writes:
  assumes "ReconcileReplication E ns name w = Some (r, w')"
  shows "repWrites phaseStep (ns, name) (st w) (st w')"
  using assms
proof (cases rule: Reconcile_cases)
  case (replicated policy x cfg keys states statuses entries y1 y)
  have "repWrite phaseStep (ns, name) (st w) (put_rep y1 (st w))"
    using replicated phaseStep.transmit [of "brt_Phase (br_Status x)"] by (intro repWrite.intros) auto
  moreover have "repWrite phaseStep (ns, name) (put_rep y1 (st w)) (put_rep y (put_rep y1 (st w)))"
    using replicated by (intro repWrite.intros [of _ _ y1]) (simp_all add: phaseStep.finish)
  ultimately show ?thesis using replicated(11) by (metis rtranclp.rtrancl_into_rtrancl rtranclp.rtrancl_refl)
qed (rule quiet_phaseStep)

end


section \<open>The ledger\<close>

lemma recordKeys_map: "map_of (recordKeys keys l) = (\<lambda>k. if k \<in> set keys then Some zeroLedgerEntry else map_of l k)"
  unfolding recordKeys_def
proof (induction keys arbitrary: l)
  case (Cons k keys)
  then show ?case by (simp add: fun_eq_iff)
qed simp

lemma recordKeys_distinct: "distinct (map fst (recordKeys keys l)) \<longleftrightarrow> distinct (map fst l)"
  unfolding recordKeys_def by (induction keys arbitrary: l) (simp_all add: distinct_kv_set)

lemma recordKeys_keys: "fst ` set (recordKeys keys l) = set keys \<union> fst ` set l"
  unfolding recordKeys_def by (induction keys arbitrary: l) (simp_all add: keys_kv_set)

text \<open>Ledgers that JSON can carry.\<close>

definition ledgerOk :: "ledger \<Rightarrow> bool" where
  "ledgerOk l \<longleftrightarrow> distinct (map fst l) \<and>
     (\<forall>(k, e) \<in> set l. valid_utf8 k \<and> valid_utf8 (le_ETag e) \<and> in_int64 (le_Size e))"

lemma recordKeys_ok:
  assumes "list_all valid_utf8 keys" and "ledgerOk l"
  shows "ledgerOk (recordKeys keys l)"
proof -
  have "valid_utf8 k \<and> valid_utf8 (le_ETag e) \<and> in_int64 (le_Size e)" if e: "(k, e) \<in> set (recordKeys keys l)" for k e
  proof -
    have "distinct (map fst (recordKeys keys l))" using assms(2) by (simp add: recordKeys_distinct ledgerOk_def)
    then have "map_of (recordKeys keys l) k = Some e" using e by simp
    then show ?thesis
      using assms by (auto simp: recordKeys_map ledgerOk_def list_all_iff zeroLedgerEntry_def in_int64_def
          split: if_splits dest!: map_of_SomeD)
  qed
  then show ?thesis using assms(2) by (auto simp: ledgerOk_def recordKeys_distinct)
qed

lemma dec_encLedgerEntry:
  assumes "valid_utf8 (le_ETag e)" and "in_int64 (le_Size e)"
  shows "dec_struct ledgerEntryFields (encLedgerEntry e) zeroLedgerEntry = (e, None)"
proof -
  have "dec_struct ledgerEntryFields (encLedgerEntry e) zeroLedgerEntry = (\<lparr>le_ETag = le_ETag e, le_Size = le_Size e\<rparr>, None)"
    using assms by (simp add: encLedgerEntry_def ledgerEntryFields_def zeroLedgerEntry_def dec_member_def find_field_def field_def)
  then show ?thesis by simp
qed

lemma read_encLedger:
  assumes "ledgerOk l"
  shows "\<exists>l'. readLedger (json_print (encLedger (Some l))) = Inr (Some l') \<and> map_of l' = map_of l"
proof -
  let ?enc = "map (\<lambda>(k, e). (k, encLedgerEntry e))"
  let ?s = "sort_key fst l"
  have sorted: "sort_key fst (?enc l) = ?enc ?s"
    by (simp add: sort_key_map split_beta)
  have ok: "json_ok (encLedger (Some l))"
    using assms by (auto simp: encLedger_def ledgerOk_def list_all_iff encLedgerEntry_def)
  have "json_depth (encLedgerEntry e) = 1" for e by (simp add: encLedgerEntry_def)
  then have depth: "json_depth (encLedger (Some l)) \<le> maxNestingDepth"
    unfolding encLedger_def option.case
    by (intro order_trans [OF json_depth_map_le [of _ 1]]) (auto simp: maxNestingDepth_def)
  have "distinct (map fst ?s)"
    using assms by (simp add: ledgerOk_def distinct_map inj_on_def)
  moreover have "\<forall>x \<in> set ?s. dec_struct ledgerEntryFields (encLedgerEntry (snd x)) zeroLedgerEntry = (snd x, None)"
    using assms dec_encLedgerEntry by (auto simp: ledgerOk_def simp del: dec_struct.simps)
  ultimately obtain l' where "dec_entries (dec_struct ledgerEntryFields) zeroLedgerEntry (?enc ?s) [] = (l', None)"
    "map_of l' = map_of ?s"
    using dec_entries_image [of ?s "dec_struct ledgerEntryFields" encLedgerEntry zeroLedgerEntry "[]"] by auto
  moreover have "map_of ?s = map_of l" using assms by (simp add: ledgerOk_def map_of_sort_key)
  moreover have "json_print (encLedger (Some l)) \<noteq> []" by (simp add: encLedger_def json_map_def)
  ultimately show ?thesis
    using sorted by (simp add: readLedger_def json_unmarshal_print [OF ok depth])
      (simp add: encLedger_def json_map_def)
qed


text \<open>
  A committed ledger, over a client that behaves as S3 documents: it was read, the keys were
  recorded in it, and it was written back; nothing else changed. The body read is empty when
  there is no ledger object.
\<close>

definition storedLedger :: "(string \<rightharpoonup> bytes) \<Rightarrow> string \<Rightarrow> bytes" where
  "storedLedger os loc = (case os (ledgerKey loc) of None \<Rightarrow> [] | Some b \<Rightarrow> b)"

lemma commitLedger_s3:
  assumes "s3_client (ms_client ms) (ms_bucket ms) store etag"
    and "commitLedger (minio_Store ms) br keys w = (r, w')" and "keys \<noteq> []"
  shows "(r = Committed \<longrightarrow> (\<exists>l. readLedger (storedLedger (store w) (brs_StorageLocation (br_Spec br))) = Inr (Some l) \<and>
      store w' = (store w)(ledgerKey (brs_StorageLocation (br_Spec br)) \<mapsto> json_print (encLedger (Some (recordKeys keys l)))))) \<and>
    (r = CommitError ErrLedgerConflict \<longrightarrow> store w' = store w) \<and>
    (r = CommitPanic \<longrightarrow> readLedger (storedLedger (store w) (brs_StorageLocation (br_Spec br))) = Inr None \<and> store w' = store w)"
proof (cases ms)
  case (fields C b p)
  let ?key = "ledgerKey (brs_StorageLocation (br_Spec br))"
  have s3: "s3_store C b store etag" using assms(1) fields by (simp add: s3_store_def)
  obtain gr w1 where get: "GetLedger_minio ms ?key w = (gr, w1)" by fastforce
  show ?thesis
  proof (cases gr)
    case (Inl e)
    then have "e \<noteq> ErrLedgerConflict"
      using get by (auto simp: GetLedger_minio_def ErrLedgerConflict_def split: prod.splits sum.splits if_splits option.splits)
    then show ?thesis using assms(2) get Inl by (auto simp: commitLedger_def minio_Store_def Let_def)
  next
    case (Inr bt)
    obtain body tag where bt: "bt = (body, tag)" by fastforce
    have got: "store w1 = store w" "storedLedger (store w) (brs_StorageLocation (br_Spec br)) = body"
      using s3_store.GetLedger_ok [OF s3, of p ?key w body tag w1] get Inr bt fields
      by (auto simp: storedLedger_def split: if_splits)
    show ?thesis
      using assms(2,3) get Inr bt got
        s3_store.PutLedger_ok [OF s3, of p ?key _ tag w1 _ w'] s3_store.PutLedger_conflict [OF s3, of p ?key _ tag w1 w']
      by (auto simp: commitLedger_def minio_Store_def Let_def fields split: sum.splits prod.splits if_splits)
  qed
qed


section \<open>Bundles\<close>

text \<open>Staging, with the states in which the objects were staged.\<close>

lemma stagingStates_length [simp]: "length (stagingStates E sg S ks w) = length ks"
  by (induction ks arbitrary: w) simp_all

lemma stageAll_ok:
  assumes "\<And>k w fs w'. StageObject (env_sha256 E) (env_OS E) sg S k w = (Inr fs, w') \<Longrightarrow> P k w fs"
  shows "stageAll E sg S ks specs tot w = (Inr (specs', tot'), w') \<Longrightarrow>
    \<exists>new. specs' = specs @ new \<and> list_all2 (\<lambda>(k, v) fs. P k v fs) (zip ks (stagingStates E sg S ks w)) new \<and>
      tot' = tot + (\<Sum>f \<leftarrow> new. fs_Size f)"
proof (induction ks arbitrary: specs tot w)
  case (Cons k ks)
  obtain fs w1 where so: "StageObject (env_sha256 E) (env_OS E) sg S k w = (Inr fs, w1)"
    and rest: "stageAll E sg S ks (specs @ [fs]) (tot + fs_Size fs) w1 = (Inr (specs', tot'), w')"
    using Cons.prems by (auto split: prod.splits sum.splits)
  obtain new where "specs' = (specs @ [fs]) @ new"
    "list_all2 (\<lambda>(k, v) fs. P k v fs) (zip ks (stagingStates E sg S ks w1)) new"
    "tot' = tot + fs_Size fs + (\<Sum>f \<leftarrow> new. fs_Size f)"
    using Cons.IH [OF rest] by blast
  then show ?case using assms [OF so] so by (intro exI [of _ "fs # new"]) (simp add: algebra_simps)
qed simp

lemma bundleIdent_inject: "bundleIdent n i = bundleIdent n' i' \<longleftrightarrow> n = n' \<and> i = i'"
proof
  assume "bundleIdent n i = bundleIdent n' i'"
  then have "n @ CHR ''-'' # dec04 i = n' @ CHR ''-'' # dec04 i'" by (simp add: bundleIdent_def)
  moreover have "CHR ''-'' \<notin> set (dec04 j)" for j using dec04_digits [of "CHR ''-''" j] by (auto simp: is_digit_def)
  ultimately show "n = n' \<and> i = i'"
    using sep_append_inject_last [of n "CHR ''-''" "dec04 i" n' "dec04 i'"] by simp
qed simp

text \<open>
  One handle for each file of every batch, in order, gives one entry for each file, in order.
\<close>

lemma handleEntries_filter:
  "handleEntries files hs [] = map (\<lambda>h. handleEntry (files ! unat (ah_FileIndex h)) h)
     (filter (\<lambda>h. unat (ah_FileIndex h) < length files) hs)"
proof (induction hs)
  case (Cons h hs)
  then show ?case
    using handleEntries_append [of files hs "[handleEntry (files ! unat (ah_FileIndex h)) h]"] by (simp add: not_le)
qed simp

lemma handleEntries_in_order:
  assumes "length hs = length files" and "\<forall>i < length files. unat (ah_FileIndex (hs ! i)) = i"
  shows "list_all2 (\<lambda>f e. \<exists>h. e = handleEntry f h) files (handleEntries files hs [])"
proof -
  have "filter (\<lambda>h. unat (ah_FileIndex h) < length files) hs = hs"
    using assms by (auto simp: filter_id_conv in_set_conv_nth)
  then show ?thesis using assms by (auto simp: handleEntries_filter list_all2_conv_all_nth)
qed

lemma entries_in_order:
  assumes "peat_attachments http" and "valid_utf8 name" and "list_all fileSpecOk (concat (map b_Files bs))"
    and "length (concat (map b_Files bs)) < 2 ^ 32" and "bundleResponses http name prio i bs hss"
  shows "list_all2 (\<lambda>f e. \<exists>h. e = handleEntry f h) (concat (map b_Files bs))
    (concat (map2 (\<lambda>b hs. handleEntries (b_Files b) hs []) bs hss))"
  using assms(3-5)
proof (induction bs arbitrary: i hss)
  case (Cons b bs)
  then obtain hss' pc w res pc' w' where b: "hss = sr_Handles res # hss'" "bundleResponses http name prio (Suc i) bs hss'"
    "SendAttachments http pc (bundleIdent name i) (b_Files b) \<lparr>sc_AllNodes = True, sc_NodeIDs = []\<rparr> prio w = (Inr res, pc', w')"
    by auto
  have id: "bundleIdent name i \<noteq> ''''" "valid_utf8 (bundleIdent name i)"
    using assms(2) valid_utf8_append [of "''-''" "dec04 i"] by (simp_all add: bundleIdent_def valid_utf8_append)
  have fs: "list_all fileSpecOk (b_Files b)" "length (b_Files b) < 2 ^ 32" using Cons.prems by simp_all
  have "list_all2 (\<lambda>f e. \<exists>h. e = handleEntry f h) (b_Files b) (handleEntries (b_Files b) (sr_Handles res) [])"
    using peat_attachments.handle_count [OF assms(1) id fs b(3)] peat_attachments.handle_index [OF assms(1) id fs b(3)]
    by (intro handleEntries_in_order) auto
  moreover have "list_all2 (\<lambda>f e. \<exists>h. e = handleEntry f h) (concat (map b_Files bs))
      (concat (map2 (\<lambda>b hs. handleEntries (b_Files b) hs []) bs hss'))"
    using Cons.IH [OF _ _ b(2)] Cons.prems(1,2) by simp
  ultimately show ?case using b(1) by (simp add: list_all2_appendI)
qed simp

lemma Pack_nonempty: "files \<noteq> [] \<Longrightarrow> Pack files mf mb \<noteq> []"
  using Pack_concat_files [of files mf mb] by (cases "Pack files mf mb") auto



section \<open>What a complete pass leaves behind\<close>

text \<open>
  A manifest entry that describes the object under the key \<open>k\<close> in the state \<open>v\<close>: it names the safe
  path of the key, and the size and the SHA-256 of the content of the object in that state.
\<close>

definition describes :: "'w Env \<Rightarrow> (Config \<Rightarrow> 'w \<Rightarrow> string \<rightharpoonup> bytes) \<Rightarrow> Config \<Rightarrow> string \<Rightarrow> 'w \<Rightarrow> FileEntry \<Rightarrow> bool" where
  "describes E objects cfg k v e \<longleftrightarrow>
     (\<exists>ms b. NewStore (env_SDK E) cfg = Inr ms \<and> objects cfg v (fullKey (ms_prefix ms) k) = Some b \<and>
        safeRelPath k = Inr (fe_Key e) \<and> fe_Basename e = path_base (fe_Key e) \<and>
        fe_SHA256 e = hex_encode (sum32 (env_sha256 E b)) \<and> fe_Size e = wrap64 (int (length b)))"

text \<open>The entries describe the keys, in order, each in the state in which its object was staged.\<close>

abbreviation describeAll :: "'w Env \<Rightarrow> (Config \<Rightarrow> 'w \<Rightarrow> string \<rightharpoonup> bytes) \<Rightarrow> Config \<Rightarrow> string list \<Rightarrow> 'w list \<Rightarrow>
    FileEntry list \<Rightarrow> bool" where
  "describeAll E objects cfg keys states \<equiv> list_all2 (\<lambda>(k, v) e. describes E objects cfg k v e) (zip keys states)"

definition stagedFor :: "'w Env \<Rightarrow> (Config \<Rightarrow> 'w \<Rightarrow> string \<rightharpoonup> bytes) \<Rightarrow> Config \<Rightarrow> string \<Rightarrow> string \<Rightarrow> 'w \<Rightarrow> FileSpec \<Rightarrow> bool" where
  "stagedFor E objects cfg root k v f \<longleftrightarrow> fs_RootName f = root \<and> safeRelPath k = Inr (fs_RelativePath f) \<and>
     fs_ContentType f = '''' \<and> fs_DisplayName f = path_base (fs_RelativePath f) \<and>
     (\<exists>ms b. NewStore (env_SDK E) cfg = Inr ms \<and> objects cfg v (fullKey (ms_prefix ms) k) = Some b \<and>
        fs_Size f = u64_of_int64 (int (length b)) \<and> fs_SHA256 f = sum32 (env_sha256 E b))"

text \<open>Keys whose paths JSON can carry.\<close>

definition shippable :: "string \<Rightarrow> bool" where
  "shippable k \<longleftrightarrow> (\<forall>rel. safeRelPath k = Inr rel \<longrightarrow> valid_utf8 rel \<and> valid_utf8 (path_base rel))"

lemma stagedFor_ok: "stagedFor E objects cfg root k v f \<Longrightarrow> valid_utf8 root \<Longrightarrow> shippable k \<Longrightarrow> fileSpecOk f"
  by (simp add: stagedFor_def shippable_def fileSpecOk_def)

lemma int64_round: "int64_of_u64 (u64_of_int64 i) = wrap64 i"
  by (simp add: int64_of_u64_def u64_of_int64_def wrap64_def sint_sbintrunc' signed_take_bit_eq_take_bit_shift take_bit_eq_mod)

lemma stagedFor_describes: "stagedFor E objects cfg root k v f \<Longrightarrow> describes E objects cfg k v (handleEntry f h)"
  by (auto simp: stagedFor_def describes_def handleEntry_def int64_round)

text \<open>Manifests that JSON can carry: the total and the time always can.\<close>

definition carriable :: "BackupReplication \<Rightarrow> string \<Rightarrow> FileEntry list \<Rightarrow> bool" where
  "carriable br bslPrefix entries \<longleftrightarrow> valid_utf8 (brs_BackupName (br_Spec br)) \<and>
     valid_utf8 (brs_StorageLocation (br_Spec br)) \<and> valid_utf8 bslPrefix \<and> length entries < 2 ^ 63 \<and>
     list_all fileEntryOk entries"

lemma int64_of_u64_range: "in_int64 (int64_of_u64 u)"
  using sint_greater_eq [of u] sint_less [of u] by (simp add: int64_of_u64_def in_int64_def)

lemma carriable_manifest:
  assumes "carriable br pfx entries"
  shows "manifestOk (replicationManifest br pfx entries (int64_of_u64 tot) now)"
    and "valid_utf8 (DocID (brs_StorageLocation (br_Spec br)) (brs_BackupName (br_Spec br)))"
proof -
  have "int (length entries) < 2 ^ 63" using assms by (simp add: carriable_def)
  then show "manifestOk (replicationManifest br pfx entries (int64_of_u64 tot) now)"
    using assms int64_of_u64_range [of tot]
    by (simp add: carriable_def manifestOk_def replicationManifest_def SchemaVersion_def in_int64_def)
  show "valid_utf8 (DocID (brs_StorageLocation (br_Spec br)) (brs_BackupName (br_Spec br)))"
    using assms valid_utf8_append [of "''/''"] by (simp add: carriable_def DocID_def valid_utf8_append)
qed

context controller_env
begin

lemma emitManifest_docs:
  assumes "emitManifest (env_Http E) pc br pfx entries tot now w = (Inr u, w')"
    and "manifestOk (replicationManifest br pfx entries tot now)"
    and "valid_utf8 (DocID (brs_StorageLocation (br_Spec br)) (brs_BackupName (br_Spec br)))"
  shows "docs (cc_baseURL pc) w' (Collection, DocID (brs_StorageLocation (br_Spec br)) (brs_BackupName (br_Spec br))) =
    Some (json_print (encManifest (replicationManifest br pfx entries tot now)))"
proof -
  let ?m = "replicationManifest br pfx entries tot now"
  have "PutDocument (env_Http E) pc Collection (DocID (brs_StorageLocation (br_Spec br)) (brs_BackupName (br_Spec br)))
      (json_print (encManifest ?m)) w = (Inr (), w')"
    using assms(1) by (auto simp: emitManifest_def Marshal_def Let_def split: prod.splits sum.splits)
  moreover have "valid_utf8 (json_print (encManifest ?m))"
    by (rule json_print_utf8) (rule encManifest_ok [OF assms(2)])
  moreover have "valid_utf8 Collection" by (simp add: Collection_def)
  ultimately show ?thesis using peat_documents.PutDocument_ok [OF peat] assms(3) by simp
qed

lemma stageAll_describes:
  assumes "NewStore (env_SDK E) cfg = Inr ms"
    and "stageAll E sg (minio_Store ms) keys [] 0 w = (Inr (specs, tot), w')"
  shows "list_all2 (\<lambda>(k, v) f. stagedFor E objects cfg (sg_RootName sg) k v f)
      (zip keys (stagingStates E sg (minio_Store ms) keys w)) specs"
    and "tot = (\<Sum>f \<leftarrow> specs. fs_Size f)"
proof -
  have "stagedFor E objects cfg (sg_RootName sg) k v fs"
    if "StageObject (env_sha256 E) (env_OS E) sg (minio_Store ms) k v = (Inr fs, v')" for k v fs v'
    by (rule staging_env.StageObject_cases [OF staging [OF assms(1)] that])
      (use assms(1) in \<open>auto simp: stagedFor_def\<close>)
  from stageAll_ok [of E sg "minio_Store ms" "stagedFor E objects cfg (sg_RootName sg)", OF this assms(2)]
  show "list_all2 (\<lambda>(k, v) f. stagedFor E objects cfg (sg_RootName sg) k v f)
      (zip keys (stagingStates E sg (minio_Store ms) keys w)) specs" and "tot = (\<Sum>f \<leftarrow> specs. fs_Size f)"
    by simp_all
qed

text \<open>The steps of a reconcile that ships a backup, with what is needed of each for its effects.\<close>

lemma shipped_steps:
  assumes "shippedBy E policy x cfg keys states statuses entries w w'"
  obtains ms v1 specs tot v2 sg pc v3 v4 br now w1 w2 w3 z y where
    "NewStore (env_SDK E) cfg = Inr ms" "keys \<noteq> []" "stageAll E sg (minio_Store ms) keys [] 0 v1 = (Inr (specs, tot), v2)"
    "sg = NewStager (ps_OutboxRoot (rp_Peat (pol_Spec policy))) (ps_OutboxPath (rp_Peat (pol_Spec policy)))"
    "states = stagingStates E sg (minio_Store ms) keys v1"
    "NewClient (ps_Address (rp_Peat (pol_Spec policy))) = Inr pc"
    "sendBundles (env_Http E) (snd (rep_key x)) (mapPriority (rp_Priority (pol_Spec policy))) pc 0
      (Pack specs (rp_BundleFileLimit (pol_Spec policy)) (u64_of_int64 (rp_BundleByteLimit (pol_Spec policy))))
      ([], [], True) v3 = Some (Inr (statuses, entries, True), v4)"
    "br_Spec br = br_Spec x"
    "emitManifest (env_Http E) pc br (cfg_Prefix cfg) entries (int64_of_u64 tot) now w1 = (Inr (), w2)"
    "commitLedger (minio_Store ms) br keys w2 = (Committed, w3)"
    "k_UpdateReplicationStatus (env_Kube E) z w3 = (Inr y, w')"
proof -
  obtain u0 br1 w0 ms v1 sg specs tot v2 where mark: "markStarted (env_Kube E) x u0 = (br1, w0)"
    and pre: "NewStore (env_SDK E) cfg = Inr ms" "keys \<noteq> []" "stageAll E sg (minio_Store ms) keys [] 0 v1 = (Inr (specs, tot), v2)"
      "sg = NewStager (ps_OutboxRoot (rp_Peat (pol_Spec policy))) (ps_OutboxPath (rp_Peat (pol_Spec policy)))"
      "states = stagingStates E sg (minio_Store ms) keys v1"
    and tr: "transmitted E (minio_Store ms) (setPhase br1 PhaseStaging) policy (cfg_Prefix cfg) keys specs tot statuses entries v2 w'"
    using assms unfolding shippedBy_def by blast
  obtain y1 pc v3 v4 where y1: "br_Spec y1 = br_Spec x" "rep_key y1 = rep_key x"
    and send: "NewClient (ps_Address (rp_Peat (pol_Spec policy))) = Inr pc"
      "sendBundles (env_Http E) (snd (rep_key x)) (mapPriority (rp_Priority (pol_Spec policy))) pc 0
        (Pack specs (rp_BundleFileLimit (pol_Spec policy)) (u64_of_int64 (rp_BundleByteLimit (pol_Spec policy))))
        ([], [], True) v3 = Some (Inr (statuses, entries, True), v4)"
    and fin: "finished E pc (minio_Store ms) (y1\<lparr>br_Status := (br_Status y1)\<lparr>brt_Bundles := statuses\<rparr>\<rparr>) (cfg_Prefix cfg)
        keys tot entries v4 w'"
    using tr markStarted_simps(1,2) [OF mark] unfolding transmitted_def rep_key_def by auto
  obtain now br w1 w2 w3 z y where br: "br = y1\<lparr>br_Status := (br_Status y1)\<lparr>brt_Bundles := statuses, brt_CompletedAt := Some now\<rparr>\<rparr>"
    and last: "emitManifest (env_Http E) pc br (cfg_Prefix cfg) entries (int64_of_u64 tot) now w1 = (Inr (), w2)"
      "commitLedger (minio_Store ms) br keys w2 = (Committed, w3)"
      "k_UpdateReplicationStatus (env_Kube E) z w3 = (Inr y, w')"
    using fin unfolding finished_def by (elim exE conjE) simp
  have "br_Spec br = br_Spec x" using y1(1) by (simp add: br)
  then show ?thesis using last by (rule that [OF pre send])
qed

lemma shipped_effects:
  assumes "shippedBy E policy x cfg keys states statuses entries w w'"
  shows "keys \<noteq> []"
    and "statuses \<noteq> []" and "\<forall>s \<in> set statuses. bs_Phase s = BundleCompleted"
    and "map bs_BundleID statuses = map (bundleIdent (snd (rep_key x))) [0 ..< length statuses]"
    and "\<exists>l. objects cfg w' (ledgerKey (brs_StorageLocation (br_Spec x))) = Some (json_print (encLedger (Some l))) \<and>
      (\<forall>k \<in> set keys. map_of l k = Some zeroLedgerEntry)"
    and "\<exists>pc tot now. NewClient (ps_Address (rp_Peat (pol_Spec policy))) = Inr pc \<and>
      (carriable x (cfg_Prefix cfg) entries \<longrightarrow>
       docs (cc_baseURL pc) w' (Collection, DocID (brs_StorageLocation (br_Spec x)) (brs_BackupName (br_Spec x))) =
         Some (json_print (encManifest (replicationManifest x (cfg_Prefix cfg) entries (int64_of_u64 tot) now))))"
    and "peat_attachments (env_Http E) \<Longrightarrow> valid_utf8 (snd (rep_key x)) \<Longrightarrow>
      valid_utf8 (ps_OutboxRoot (rp_Peat (pol_Spec policy))) \<Longrightarrow> list_all shippable keys \<Longrightarrow> length keys < 2 ^ 32 \<Longrightarrow>
      length states = length keys \<and> describeAll E objects cfg keys states entries"
proof -
  let ?name = "snd (rep_key x)" and ?prio = "mapPriority (rp_Priority (pol_Spec policy))"
  let ?loc = "brs_StorageLocation (br_Spec x)"
  obtain ms v1 specs tot v2 sg pc v3 v4 br1 now w1 w2 w3 br2 y where run:
    "NewStore (env_SDK E) cfg = Inr ms" "keys \<noteq> []"
    "stageAll E sg (minio_Store ms) keys [] 0 v1 = (Inr (specs, tot), v2)"
    "sg = NewStager (ps_OutboxRoot (rp_Peat (pol_Spec policy))) (ps_OutboxPath (rp_Peat (pol_Spec policy)))"
    and states: "states = stagingStates E sg (minio_Store ms) keys v1"
    and run': "NewClient (ps_Address (rp_Peat (pol_Spec policy))) = Inr pc"
    "sendBundles (env_Http E) ?name ?prio pc 0
      (Pack specs (rp_BundleFileLimit (pol_Spec policy)) (u64_of_int64 (rp_BundleByteLimit (pol_Spec policy))))
      ([], [], True) v3 = Some (Inr (statuses, entries, True), v4)"
    "br_Spec br1 = br_Spec x"
    "emitManifest (env_Http E) pc br1 (cfg_Prefix cfg) entries (int64_of_u64 tot) now w1 = (Inr (), w2)"
    "commitLedger (minio_Store ms) br1 keys w2 = (Committed, w3)"
    "k_UpdateReplicationStatus (env_Kube E) br2 w3 = (Inr y, w')"
    by (rule shipped_steps [OF assms])
  note run = run run'
  define bs where "bs = Pack specs (rp_BundleFileLimit (pol_Spec policy)) (u64_of_int64 (rp_BundleByteLimit (pol_Spec policy)))"
  have staged: "list_all2 (\<lambda>(k, v) f. stagedFor E objects cfg (ps_OutboxRoot (rp_Peat (pol_Spec policy))) k v f) (zip keys states) specs"
    using stageAll_describes(1) [OF run(1,3)] by (simp add: run(4) states NewStager_def)
  have lens: "length states = length keys" "length specs = length keys"
    using list_all2_lengthD [OF staged] by (simp_all add: states)
  then have "specs \<noteq> []" using run(2) by auto
  obtain hss where sent: "map bs_BundleID statuses = map (bundleIdent ?name) [0 ..< length bs]"
    "bundleResponses (env_Http E) ?name ?prio 0 bs hss"
    "entries = concat (map2 (\<lambda>b hs. handleEntries (b_Files b) hs []) bs hss)"
    "\<forall>s \<in> set statuses. bs_Phase s = BundleCompleted"
    using sendBundles_ok [OF run(6) [folded bs_def]] by auto
  have len: "length statuses = length bs" using arg_cong [OF sent(1), of length] by simp
  show "keys \<noteq> []" by fact
  show "statuses \<noteq> []" using len Pack_nonempty [OF \<open>specs \<noteq> []\<close>] by (auto simp: bs_def)
  show "\<forall>s \<in> set statuses. bs_Phase s = BundleCompleted" by fact
  show "map bs_BundleID statuses = map (bundleIdent ?name) [0 ..< length statuses]" using sent(1) len by simp
  note com = commitLedger_s3 [OF s3 [OF run(1)] run(9) run(2), unfolded run(7)]
  then obtain l where "objects cfg w3 = (objects cfg w2)(ledgerKey ?loc \<mapsto> json_print (encLedger (Some (recordKeys keys l))))"
    by blast
  then show "\<exists>l. objects cfg w' (ledgerKey ?loc) = Some (json_print (encLedger (Some l))) \<and>
      (\<forall>k \<in> set keys. map_of l k = Some zeroLedgerEntry)"
    using keepsD [OF kube_keepsD(2) [OF kube_objects] run(10)]
    by (intro exI [of _ "recordKeys keys l"]) (simp add: recordKeys_map)
  have same: "replicationManifest br1 = replicationManifest x" by (simp add: fun_eq_iff replicationManifest_def run(7))
  have "docs a w' = docs a w2" for a
    using keepsD [OF kube_keepsD(2) [OF kube_docs] run(10)] keepsD [OF commitLedger_keeps [OF store_docs [OF run(1)]] run(9)]
    by simp
  then show "\<exists>pc tot now. NewClient (ps_Address (rp_Peat (pol_Spec policy))) = Inr pc \<and>
      (carriable x (cfg_Prefix cfg) entries \<longrightarrow>
       docs (cc_baseURL pc) w' (Collection, DocID ?loc (brs_BackupName (br_Spec x))) =
         Some (json_print (encManifest (replicationManifest x (cfg_Prefix cfg) entries (int64_of_u64 tot) now))))"
    using emitManifest_docs [OF run(8)] run(5) carriable_manifest [of x "cfg_Prefix cfg" entries]
    unfolding run(7) same by metis
  show "length states = length keys \<and> describeAll E objects cfg keys states entries"
    if "peat_attachments (env_Http E)" "valid_utf8 ?name" "valid_utf8 (ps_OutboxRoot (rp_Peat (pol_Spec policy)))"
      "list_all shippable keys" "length keys < 2 ^ 32"
  proof -
    have files: "concat (map b_Files bs) = specs" by (simp add: bs_def Pack_concat_files)
    have "list_all fileSpecOk specs"
      using staged that(3,4) stagedFor_ok lens
      by (fastforce simp: list_all_length list_all2_conv_all_nth)
    then have "list_all2 (\<lambda>f e. \<exists>h. e = handleEntry f h) specs entries"
      using entries_in_order [of "env_Http E" ?name bs ?prio 0 hss] that(1,2,5) sent(2,3) lens(2)
      by (simp add: files)
    with staged have "describeAll E objects cfg keys states entries"
      by (rule list_all2_trans [rotated]) (auto intro: stagedFor_describes)
    then show ?thesis using lens(1) by blast
  qed
qed

end
end
