(* ===== verification/Example_Run.thy ===== *)
theory Example_Run
  imports Replication_Shipping
begin

text \<open>
  A complete pass of the replication controller on the in-memory cluster, step by step, for the
  witnesses: the work item of the example backup is replicated.
\<close>

definition exItem :: BackupReplication where
  "exItem = \<lparr>br_Meta = (newMeta ''b'' ''velero'')\<lparr>om_ResourceVersion := ''0''\<rparr>,
     br_Spec = \<lparr>brs_BackupName = ''b'', brs_PolicyName = ''p'', brs_StorageLocation = ''default''\<rparr>,
     br_Status = zeroReplicationStatus\<rparr>"

definition exQueued :: kubeworld where
  "exQueued = exCluster\<lparr>kw_reps := [exItem]\<rparr>"

definition exEnv :: "kubeworld Env" where
  "exEnv = mem_env exSum"

lemma exEnv_simps [simp]:
  "env_Kube exEnv = mem_kube" "env_OS exEnv = mem_os" "env_Http exEnv = mem_http"
  "env_SDK exEnv = mem_sdk ''velero''" "env_sha256 exEnv = exSum"
  by (simp_all add: exEnv_def mem_env_def)

definition exStoreConfig :: Config where
  "exStoreConfig = zeroConfig\<lparr>cfg_Endpoint := ''https://minio.svc:9000'', cfg_Bucket := ''velero'', cfg_Prefix := ''backups''\<rparr>"

definition exMinio :: "kubeworld minioStore" where
  "exMinio = \<lparr>ms_client = mem_client ''velero'', ms_bucket = ''velero'', ms_prefix = ''backups''\<rparr>"

definition exKeys :: "string list" where
  "exKeys = [''backups/b/velero-backup.json'', ''kopia/p0'']"

definition exSpecOf :: "string \<Rightarrow> nat \<Rightarrow> string \<Rightarrow> FileSpec" where
  "exSpecOf rel n name = \<lparr>fs_RootName = ''outbox'', fs_RelativePath = rel, fs_Size = u64_of_int64 (int n),
     fs_SHA256 = replicate 32 (CHR ''s''), fs_ContentType = '''', fs_DisplayName = name\<rparr>"

definition exSpecs :: "FileSpec list" where
  "exSpecs = [exSpecOf ''backups/b/velero-backup.json'' 2 ''velero-backup.json'', exSpecOf ''kopia/p0'' 3 ''p0'']"

lemma exGet: "k_GetReplication mem_kube ''velero'' ''b'' exQueued = (Inr exItem, exQueued)"
  by code_simp

lemma exGetPolicy: "k_GetPolicy mem_kube ''p'' exQueued = (Inr exPolicy, exQueued)"
  by code_simp

definition exStagingItem :: BackupReplication where
  "exStagingItem = setPhase (exItem\<lparr>br_Status := (br_Status exItem)\<lparr>brt_StartedAt := Some 0\<rparr>\<rparr>) PhaseStaging"

lemma exStarted: "markStarted mem_kube exItem exQueued = (exItem\<lparr>br_Status := (br_Status exItem)\<lparr>brt_StartedAt := Some 0\<rparr>\<rparr>, exQueued)"
  by code_simp

lemma exResolve: "resolveStore mem_kube exStagingItem exPolicy exQueued = (Inr exStoreConfig, exQueued)"
  by code_simp

lemma exNewStore: "NewStore (mem_sdk ''velero'') exStoreConfig = Inr exMinio"
proof -
  have "normalizeEndpoint ''https://minio.svc:9000'' = (''minio.svc:9000'', True)" "trim ''backups'' ''/'' = ''backups''"
    by code_simp+
  then show ?thesis
    by (simp add: NewStore_def tlsOptions_def mem_sdk_def exStoreConfig_def exMinio_def zeroConfig_def)
qed

lemma exEnumerate: "enumerateDelta (minio_Store exMinio) exStagingItem exQueued = (Inr exKeys, exQueued)"
  by code_simp

definition exFiles :: "(string \<times> bytes) list" where
  "exFiles = [(''/outbox/backups/b/velero-backup.json'', ''{}''), (''/outbox/kopia/p0'', ''abc'')]"

abbreviation exStageRun where
  "exStageRun \<equiv> stageAll exEnv (NewStager ''outbox'' ''/outbox'') (minio_Store exMinio) exKeys [] 0 exQueued"

lemma exStage: "exStageRun = (Inr (exSpecs, u64_of_int64 5), exQueued\<lparr>mf_files := exFiles\<rparr>)"
proof -
  have "fst exStageRun = Inr (exSpecs, u64_of_int64 5)" by code_simp
  moreover have "snd exStageRun = exQueued\<lparr>mf_files := exFiles\<rparr>" by code_simp
  ultimately show ?thesis by (simp add: prod_eq_iff)
qed

definition exCounted :: BackupReplication where
  "exCounted = setPhase (exStagingItem\<lparr>br_Status := (br_Status exStagingItem)\<lparr>brt_ObjectCount := 2, brt_TotalBytes := 5\<rparr>\<rparr>)
     PhaseTransmitting"

definition exTransmitting :: BackupReplication where
  "exTransmitting = exCounted\<lparr>br_Meta := (br_Meta exCounted)\<lparr>om_ResourceVersion := ''1''\<rparr>\<rparr>"

definition exSending :: kubeworld where
  "exSending = exQueued\<lparr>mf_files := exFiles, kw_reps := [exTransmitting, exItem]\<rparr>"

lemma exUpdate: "k_UpdateReplicationStatus mem_kube exCounted (exQueued\<lparr>mf_files := exFiles\<rparr>) = (Inr exTransmitting, exSending)"
  by code_simp

definition exPeat :: connectClient where
  "exPeat = \<lparr>cc_baseURL = ''http://peat:50051'', cc_pollInterval = 2000000000, cc_bundles = []\<rparr>"

lemma exPeat_new: "NewClient ''http://peat:50051'' = Inr exPeat"
  by code_simp

lemma exEnsure: "EnsurePeer mem_http exPeat ''dest'' [] '''' w = (Inr (), w)"
proof -
  have "EnsurePeer mem_http exPeat ''dest'' [] '''' w = call_unit mem_http exPeat ''ConnectPeer'' (json_map [(''endpointId'', JStr ''dest'')]) w"
    by (simp add: EnsurePeer_def)
  also have "\<dots> = (Inr (), w)"
  proof (rule call_unit_mem_http [where resp = "JObj []"])
    show "json_depth (json_map [(''endpointId'', JStr ''dest'')]) \<le> maxNestingDepth"
      by (rule order_trans [OF json_depth_map_le [of _ 0]]) (simp_all add: maxNestingDepth_def)
  qed (simp_all add: node_call_def maxNestingDepth_def)
  finally show ?thesis .
qed

definition exBatch :: Batch where
  "exBatch = \<lparr>b_Files = exSpecs, b_Bytes = u64_of_int64 5\<rparr>"

lemma exPack: "Pack exSpecs 64 (u64_of_int64 0) = [exBatch]"
  by code_simp

definition exLanded :: "(string \<times> bytes) list" where
  "exLanded = [(''/inbox/b-0000-d0/velero-backup.json'', ''{}''), (''/inbox/b-0000-d1/p0'', ''abc'')]"

definition exSentWorld :: kubeworld where
  "exSentWorld = exSending\<lparr>mf_files := exFiles @ exLanded, pn_dists := [''b-0000-d0'', ''b-0000-d1'']\<rparr>"

lemma fileJSON_path: "json_str (json_member (fileJSON f) ''relativePath'') = fs_RelativePath f"
  by (simp add: fileJSON_def json_member_map json_str_def)

lemma exDeliver: "snd (node_deliver ''b-0000'' 0 (map fileJSON exSpecs) exSending) = exSentWorld"
proof -
  have d: "path_base ''backups/b/velero-backup.json'' = ''velero-backup.json''" "path_base ''kopia/p0'' = ''p0''"
    "dec 0 = ''0''" "dec 1 = ''1''" by code_simp+
  then show ?thesis
    by (simp add: exSpecs_def exSpecOf_def fileJSON_path Let_def exSending_def exSentWorld_def
      exQueued_def exCluster_def exFiles_def exLanded_def memfs_set_def memfs_del_def)
qed

definition exScope :: Scope where
  "exScope = \<lparr>sc_AllNodes = True, sc_NodeIDs = []\<rparr>"

definition exHandle :: "nat \<Rightarrow> AttachmentHandle" where
  "exHandle k = \<lparr>ah_FileIndex = of_nat k, ah_BlobToken = '''', ah_DistributionID = node_dist ''b-0000'' k\<rparr>"

definition exSentPeat :: connectClient where
  "exSentPeat = exPeat\<lparr>cc_bundles := kv_set ''b-0000'' (map (node_dist ''b-0000'') [0, 1]) (cc_bundles exPeat)\<rparr>"

lemma exSend: "SendAttachments mem_http exPeat ''b-0000'' exSpecs exScope prio exSending =
    (Inr \<lparr>sr_BundleID = ''b-0000'', sr_Handles = map exHandle [0, 1]\<rparr>, exSentPeat, exSentWorld)"
proof -
  have "list_all fileSpecOk exSpecs" by (simp add: exSpecs_def exSpecOf_def fileSpecOk_def)
  moreover have "[0 ..< length exSpecs] = [0, 1]" "length exSpecs < 2 ^ 32" by (simp_all add: exSpecs_def upt_rec)
  moreover have "node_deliver ''b-0000'' 0 (map fileJSON exSpecs) exSending =
      (fst (node_deliver ''b-0000'' 0 (map fileJSON exSpecs) exSending), exSentWorld)"
    by (simp only: prod_eq_iff fst_conv snd_conv exDeliver)
  ultimately show ?thesis
    using SendAttachments_mem_http [of "''b-0000''" exSpecs exScope exSending _ exSentWorld exPeat prio]
    by (simp add: exScope_def exHandle_def [abs_def] exSentPeat_def)
qed

definition exReport :: "nat \<Rightarrow> Progress" where
  "exReport k = \<lparr>pr_DistributionID = node_dist ''b-0000'' k, pr_Status = StatusCompleted,
     pr_BytesTransferred = 0, pr_BytesTotal = 0, pr_Err = ''''\<rparr>"

lemma exDists: "node_dist ''b-0000'' 0 = ''b-0000-d0''" "node_dist ''b-0000'' 1 = ''b-0000-d1''"
  by code_simp+

lemma exWait: "WaitBundle mem_http exSentPeat ''b-0000'' exSentWorld = Some ((map exReport [0, 1], None), exSentWorld)"
proof -
  have report: "GetDistribution mem_http exSentPeat (node_dist ''b-0000'' k) exSentWorld = (Inr (exReport k), exSentWorld)"
    if "k = 0 \<or> k = 1" for k
    unfolding exReport_def
    by (rule GetDistribution_mem_http) (use that exDists in \<open>auto simp: exSentWorld_def\<close>)
  have dists: "bundleDistributions exSentPeat ''b-0000'' = map (node_dist ''b-0000'') [0, 1]"
    unfolding exSentPeat_def kv_get_bundles by simp
  have "waitRound mem_http exSentPeat (map (node_dist ''b-0000'') [0, 1]) exSentWorld =
      Inl ((map exReport [0, 1], None), exSentWorld)"
    using report [of 0] report [of 1] by (simp add: waitRound_def exReport_def)
  then show ?thesis by (simp add: WaitBundle_def dists waitLoop.simps)
qed

definition exBundleStatus :: BundleStatus where
  "exBundleStatus = (newBundleStatus ''b-0000'' exBatch)\<lparr>bs_Phase := BundleCompleted, bs_BytesTransferred := 0,
     bs_DistributionIDs := map (node_dist ''b-0000'') [0, 1]\<rparr>"

definition exEntries :: "FileEntry list" where
  "exEntries = [handleEntry (exSpecs ! 0) (exHandle 0), handleEntry (exSpecs ! 1) (exHandle 1)]"

lemma exSendBundles: "sendBundles mem_http ''b'' PriorityBulk exPeat 0 [exBatch] ([], [], True) exSending =
    Some (Inr ([exBundleStatus], exEntries, True), exSentWorld)"
proof -
  have ident: "bundleIdent ''b'' 0 = ''b-0000''" by code_simp
  have sum: "summarize (map exReport [0, 1]) = (BundleCompleted, 0, map (node_dist ''b-0000'') [0, 1])"
    by (simp add: summarize_def exReport_def int64_of_u64_def)
  have entries: "handleEntries exSpecs (map exHandle [0, 1]) [] = exEntries"
    by (simp add: exSpecs_def exHandle_def exEntries_def)
  show ?thesis
    using exSend [of PriorityBulk] exWait sum entries
    by (simp add: ident exBatch_def exScope_def exBundleStatus_def Let_def del: handleEntries.simps upt.simps)
qed


definition exCompleted :: BackupReplication where
  "exCompleted = exTransmitting\<lparr>br_Status := (br_Status exTransmitting)\<lparr>brt_Bundles := [exBundleStatus],
     brt_CompletedAt := Some 0\<rparr>\<rparr>"

definition runManifest :: Manifest where
  "runManifest = replicationManifest exItem ''backups'' exEntries 5 0"

definition exLedger :: string where
  "exLedger = json_print (encLedger (Some (recordKeys exKeys [])))"

definition exPublished :: kubeworld where
  "exPublished = exSentWorld\<lparr>pn_docs := [((Collection, ''default/b''), json_print (encManifest runManifest))]\<rparr>"

definition exCommitted :: kubeworld where
  "exCommitted = exPublished\<lparr>mw_objs := mw_objs exQueued @ [(''snapback/ledger/default.json'', (exLedger, 3))],
     mw_ver := 4, mw_puts := [''snapback/ledger/default.json'']\<rparr>"

lemma exBases: "path_base ''backups/b/velero-backup.json'' = ''velero-backup.json''" "path_base ''kopia/p0'' = ''p0''"
  by code_simp+

lemma exEntries_ok: "manifestOk runManifest" "mn_SchemaVersion runManifest = SchemaVersion"
  by (simp_all add: exBases node_dist_def valid_utf8_append runManifest_def replicationManifest_def manifestOk_def SchemaVersion_def in_int64_def exItem_def
      exEntries_def handleEntry_def fileEntryOk_def exSpecs_def exSpecOf_def exHandle_def int64_round)

lemma exSpec_eq [simp]: "br_Spec exCompleted = br_Spec exItem" "br_Spec exTransmitting = br_Spec exItem"
  by (simp_all add: exCompleted_def exTransmitting_def exCounted_def exStagingItem_def)

lemma exEmit: "emitManifest mem_http exPeat exCompleted ''backups'' exEntries 5 0 exSentWorld = (Inr (), exPublished)"
proof -
  have m: "replicationManifest exCompleted ''backups'' exEntries 5 0 = runManifest"
    by (simp add: runManifest_def replicationManifest_def)
  have id: "DocID (brs_StorageLocation (br_Spec exItem)) (brs_BackupName (br_Spec exItem)) = ''default/b''"
    by (simp add: DocID_def exItem_def)
  have "valid_utf8 (json_print (encManifest runManifest))" by (rule json_print_utf8) (rule encManifest_ok [OF exEntries_ok(1)])
  then have "PutDocument mem_http exPeat Collection ''default/b'' (json_print (encManifest runManifest)) exSentWorld =
      (Inr (), exSentWorld\<lparr>pn_docs := AList.update (Collection, ''default/b'') (json_print (encManifest runManifest)) (pn_docs exSentWorld)\<rparr>)"
    by (intro PutDocument_mem_http) (simp_all add: Collection_def)
  also have "pn_docs exSentWorld = []" by (simp add: exSentWorld_def exSending_def exQueued_def exCluster_def)
  finally show ?thesis by (simp add: emitManifest_def Marshal_def m id exPublished_def Let_def del: json_print.simps)
qed

lemma exCommit: "commitLedger (minio_Store exMinio) exCompleted exKeys exPublished = (Committed, exCommitted)"
proof -
  have key: "ledgerKey (brs_StorageLocation (br_Spec exItem)) = ''snapback/ledger/default.json''"
    by (simp add: ledgerKey_def exItem_def)
  have w: "mw_objs exPublished = mw_objs exQueued" "mw_ver exPublished = 3" "mw_puts exPublished = []"
    by (simp_all add: exPublished_def exSentWorld_def exSending_def exQueued_def exCluster_def)
  have absent: "map_of (mw_objs exQueued) ''snapback/ledger/default.json'' = None"
    "AList.update ''snapback/ledger/default.json'' v (mw_objs exQueued) = mw_objs exQueued @ [(''snapback/ledger/default.json'', v)]" for v
    by (simp_all add: exQueued_def exCluster_def)
  have get: "GetLedger_minio exMinio ''snapback/ledger/default.json'' exPublished = (Inr ('''', ''''), exPublished)"
    by (simp add: GetLedger_minio_def exMinio_def mem_client_def mem_stat_def noSuchKey_def isNotFound_def w absent)
  have put: "PutLedger_minio exMinio ''snapback/ledger/default.json'' exLedger '''' exPublished = (Inr (dec 3), exCommitted)"
    by (simp add: PutLedger_minio_def exMinio_def mem_client_def mem_put_def bytes_reader_def noPutOpts_def Let_def w absent
        exCommitted_def)
  show ?thesis
    using get put by (simp add: commitLedger_def minio_Store_def key readLedger_def Let_def exLedger_def exKeys_def del: json_print.simps)
qed

definition exDeclared :: BackupReplication where
  "exDeclared = setReady mem_kube (setPhase exCompleted PhaseReplicated) ConditionTrue ''Replicated''
     (Lit ''all bundles transmitted to destination peer'') exCommitted"

definition exReplicated :: BackupReplication where
  "exReplicated = exDeclared\<lparr>br_Meta := (br_Meta exDeclared)\<lparr>om_ResourceVersion := ''2''\<rparr>\<rparr>"

definition exShipped :: kubeworld where
  "exShipped = exCommitted\<lparr>kw_reps := [exReplicated, exTransmitting, exItem]\<rparr>"

lemma exFinalUpdate: "k_UpdateReplicationStatus mem_kube exDeclared exCommitted = (Inr exReplicated, exShipped)"
proof -
  have reps: "kw_reps exCommitted = [exTransmitting, exItem]"
    by (simp add: exCommitted_def exPublished_def exSentWorld_def exSending_def)
  have stamped: "exTransmitting\<lparr>br_Meta := stamp 1 (br_Meta exTransmitting)\<rparr> = exTransmitting" by code_simp
  have meta: "br_Meta exDeclared = br_Meta exTransmitting" "br_Spec exDeclared = br_Spec exTransmitting"
    by (simp_all add: exDeclared_def exCompleted_def)
  have "findRep exCommitted (rep_key exDeclared) = Some exTransmitting"
    using stamped by (simp add: findRep_def reps rep_key_def meta)
  moreover have "exTransmitting\<lparr>br_Meta := stamp 2 (br_Meta exTransmitting), br_Status := br_Status exDeclared\<rparr> = exReplicated"
  proof -
    have "dec 2 = ''2''" by code_simp
    then show ?thesis using meta by (simp add: exReplicated_def stamp_def)
  qed
  ultimately show ?thesis
    by (simp add: mem_kube_def mem_UpdateReplicationStatus_def meta reps exShipped_def Let_def numeral_2_eq_2)
qed

lemma exFinish: "finishReplication exEnv exPeat (minio_Store exMinio)
    (exTransmitting\<lparr>br_Status := (br_Status exTransmitting)\<lparr>brt_Bundles := [exBundleStatus]\<rparr>\<rparr>) ''backups'' exKeys
    (u64_of_int64 5) exEntries exSentWorld = ((doneResult, None), exShipped)"
proof -
  have "k_Now mem_kube exSentWorld = (0, exSentWorld)"
    by (simp add: mem_kube_def exSentWorld_def exSending_def exQueued_def exCluster_def)
  moreover have "int64_of_u64 (u64_of_int64 5) = 5" by (simp add: int64_round in_int64_def)
  ultimately show ?thesis
    using exEmit exCommit exFinalUpdate
    by (simp add: finishReplication_def Let_def exCompleted_def [symmetric] updateThen_def exDeclared_def [symmetric])
qed

lemma exTransmit: "transmit exEnv (minio_Store exMinio) exStagingItem exPolicy ''backups'' exKeys exSpecs (u64_of_int64 5)
    (exQueued\<lparr>mf_files := exFiles\<rparr>) = Some ((doneResult, None), exShipped)"
proof -
  have name: "om_Name (br_Meta exTransmitting) = ''b''" by code_simp
  have len: "length exSpecs = 2" by (simp add: exSpecs_def)
  have tot: "int64_of_u64 (u64_of_int64 5) = 5" by (simp add: int64_round in_int64_def)
  have prio: "mapPriority ''Bulk'' = PriorityBulk" by (simp add: mapPriority_def)
  show ?thesis
    using exUpdate exFinish exSendBundles
    by (simp add: transmit_def Let_def exCounted_def [symmetric] len tot exPolicy_def exPeat_new exEnsure exPack name prio)
qed

lemma runPass: "ReconcileReplication exEnv ''velero'' ''b'' exQueued = Some ((doneResult, None), exShipped)"
proof -
  have item: "om_DeletionTimestamp (br_Meta exItem) = None" "brt_Phase (br_Status exItem) = PhaseUnset"
    "brs_PolicyName (br_Spec exItem) = ''p''"
    by (simp_all add: exItem_def newMeta_def zeroReplicationStatus_def)
  have pol: "\<not> rp_Paused (pol_Spec exPolicy)" "rp_Peat (pol_Spec exPolicy) =
      \<lparr>ps_Address = ''http://peat:50051'', ps_OutboxRoot = ''outbox'', ps_OutboxPath = ''/outbox''\<rparr>"
    by (simp_all add: exPolicy_def)
  have keys: "exKeys \<noteq> []" by (simp add: exKeys_def)
  have prefix: "cfg_Prefix exStoreConfig = ''backups''" by (simp add: exStoreConfig_def)
  have "replicate_pass exEnv exItem exPolicy exQueued = Some ((doneResult, None), exShipped)"
    using exStarted exResolve exNewStore exEnumerate exStage exTransmit
    by (simp add: replicate_pass_def Let_def exStagingItem_def [symmetric] pol keys prefix)
  then show ?thesis
    using exGet exGetPolicy pol by (simp add: ReconcileReplication_def Let_def item IsZero_def)
qed

end
