(* ===== verification/Replication_Properties.thy ===== *)
theory Replication_Properties
  imports Example_Run
begin

text \<open>
  The theorems on the replication controller: its phase machine, what holds when a backup is
  declared replicated, the manifest and the ledger it leaves behind, when it stops, and the
  accounting of bundles. The example run on the in-memory cluster serves as the witness.
\<close>


section \<open>The example run\<close>

lemma exEnv_contract: "controller_env exEnv mem_st (\<lambda>w. map_of (mf_files w)) (\<lambda>a. mem_docs)
    (mem_objects ''velero'') (mem_tags ''velero'')"
  unfolding exEnv_def by (rule mem_cluster.controller_env_axioms)

lemma exReplicated_simps:
  "brt_Phase (br_Status exReplicated) = PhaseReplicated" "brt_Bundles (br_Status exReplicated) = [exBundleStatus]"
  "br_Spec exReplicated = br_Spec exItem" "rep_key exReplicated = (''velero'', ''b'')"
  by (simp_all add: exReplicated_def exDeclared_def exCompleted_def exTransmitting_def exCounted_def
      exStagingItem_def exItem_def rep_key_def meta_key_def newMeta_def)

lemma exShipped_item: "ks_reps (mem_st exShipped) (''velero'', ''b'') = Some exReplicated"
proof -
  have "dec 2 = ''2''" by code_simp
  then have "exReplicated\<lparr>br_Meta := stamp 2 (br_Meta exReplicated)\<rparr> = exReplicated"
    by (simp add: exReplicated_def stamp_def)
  then show ?thesis
    using exReplicated_simps(4) by (simp add: mem_st_def findRep_def exShipped_def numeral_2_eq_2)
qed

lemma exQueued_item: "ks_reps (mem_st exQueued) (''velero'', ''b'') = Some exItem"
proof -
  have "stamp 0 (br_Meta exItem) = br_Meta exItem" by code_simp
  then have "exItem\<lparr>br_Meta := stamp 0 (br_Meta exItem)\<rparr> = exItem" by simp
  then show ?thesis by (simp add: mem_st_def findRep_def exQueued_def exItem_def rep_key_def meta_key_def newMeta_def)
qed

lemma exItem_phase: "brt_Phase (br_Status exItem) = PhaseUnset"
  by (simp add: exItem_def zeroReplicationStatus_def)


text \<open>The states in which the example run stages its two objects.\<close>

definition exStates :: "kubeworld list" where
  "exStates = stagingStates exEnv (NewStager ''outbox'' ''/outbox'') (minio_Store exMinio) exKeys exQueued"

lemma exStates_objs: "length exStates = 2" "i < 2 \<Longrightarrow> mw_objs (exStates ! i) = mw_objs exQueued"
proof -
  show len: "length exStates = 2" by (simp add: exStates_def exKeys_def)
  have "map mw_objs exStates = [mw_objs exQueued, mw_objs exQueued]" by code_simp
  then have "map mw_objs exStates ! i = [mw_objs exQueued, mw_objs exQueued] ! i" by simp
  then show "i < 2 \<Longrightarrow> mw_objs (exStates ! i) = mw_objs exQueued" using len by (auto simp: less_2_cases_iff)
qed

lemma exTransmitted: "transmitted exEnv (minio_Store exMinio) exStagingItem exPolicy ''backups'' exKeys exSpecs (u64_of_int64 5)
    [exBundleStatus] exEntries (exQueued\<lparr>mf_files := exFiles\<rparr>) exShipped"
proof -
  have tot: "int64_of_u64 (u64_of_int64 5) = 5" by (simp add: int64_round in_int64_def)
  have "k_Now mem_kube exSentWorld = (0, exSentWorld)"
    by (simp add: mem_kube_def exSentWorld_def exSending_def exQueued_def exCluster_def)
  then have fin: "finished exEnv exPeat (minio_Store exMinio)
      (exTransmitting\<lparr>br_Status := (br_Status exTransmitting)\<lparr>brt_Bundles := [exBundleStatus]\<rparr>\<rparr>) ''backups'' exKeys
      (u64_of_int64 5) exEntries exSentWorld exShipped"
    unfolding finished_def using exEmit exCommit exFinalUpdate
    by (intro exI [of _ 0] exI [of _ exSentWorld] exI [of _ exCompleted] exI [of _ exPublished] exI [of _ exCommitted]
        exI [of _ exReplicated]) (simp add: tot exCompleted_def exDeclared_def)
  have meta: "rep_key exTransmitting = rep_key exStagingItem" "snd (rep_key exTransmitting) = ''b''"
    "br_Spec exTransmitting = br_Spec exStagingItem"
    by (simp_all add: rep_key_def meta_key_def exTransmitting_def exCounted_def exStagingItem_def exItem_def newMeta_def)
  have "length exSpecs = 2" "mapPriority ''Bulk'' = PriorityBulk" by (simp_all add: exSpecs_def mapPriority_def)
  then show ?thesis
    unfolding transmitted_def
    using exUpdate exSendBundles fin meta
    by (intro exI [of _ exTransmitting] exI [of _ exSending] exI [of _ exPeat] exI [of _ exSending] exI [of _ exSentWorld])
      (simp add: tot exCounted_def [symmetric] exPolicy_def exPeat_new exEnsure exPack)
qed

lemma exShippedBy: "shippedBy exEnv exPolicy exItem exStoreConfig exKeys exStates [exBundleStatus] exEntries exQueued exShipped"
proof -
  have name: "rep_key exItem = (''velero'', ''b'')" "brs_PolicyName (br_Spec exItem) = ''p''"
    by (simp_all add: exItem_def rep_key_def meta_key_def newMeta_def)
  have pol: "rp_Peat (pol_Spec exPolicy) =
      \<lparr>ps_Address = ''http://peat:50051'', ps_OutboxRoot = ''outbox'', ps_OutboxPath = ''/outbox''\<rparr>"
    by (simp add: exPolicy_def)
  have "exKeys \<noteq> []" "cfg_Prefix exStoreConfig = ''backups''" by (simp_all add: exKeys_def exStoreConfig_def)
  then show ?thesis
    unfolding shippedBy_def
    using exGet exGetPolicy exStarted exResolve exNewStore exEnumerate exStage exTransmitted
    by (intro exI [of _ exQueued] exI [of _ "exItem\<lparr>br_Status := (br_Status exItem)\<lparr>brt_StartedAt := Some 0\<rparr>\<rparr>"]
        exI [of _ exMinio] exI [of _ "NewStager ''outbox'' ''/outbox''"] exI [of _ exSpecs] exI [of _ "u64_of_int64 5"]
        exI [of _ "exQueued\<lparr>mf_files := exFiles\<rparr>"])
      (simp add: name pol exStates_def exStagingItem_def [symmetric])
qed


section \<open>Stopping\<close>

text \<open>A reconcile that asks for nothing more has settled the work item, or found nothing to do.\<close>

definition settled :: "kubeState \<Rightarrow> okey \<Rightarrow> bool" where
  "settled s k \<longleftrightarrow> (\<exists>y. ks_reps s k = Some y \<and> replicationTerminal (brt_Phase (br_Status y)))"

context kube_api
begin

lemma updateThen_end:
  assumes "updateThen K br res w = ((res', None), w')"
  shows "res' = res \<and> (replicationTerminal (brt_Phase (br_Status br)) \<longrightarrow> settled (st w') (rep_key br))"
proof -
  obtain y where "k_UpdateReplicationStatus K br w = (Inr y, w')" "res' = res"
    using assms by (auto simp: updateThen_def split: prod.splits sum.splits)
  then show ?thesis using update_rep_ok [of br w y w'] by (auto simp: settled_def)
qed

lemma updateReturn_end: "updateReturn K br res w = ((res', None), w') \<Longrightarrow> res' = res"
  by (auto simp: updateReturn_def split: prod.splits sum.splits)

lemma transient_end: "transientErr K br reason e w = ((res, None), w') \<Longrightarrow> res = retryResult"
  using updateThen_end by (auto simp: transientErr_def Let_def)

lemma degrade_end: "degrade K br reason msg w = ((res, None), w') \<Longrightarrow> res = retryResult"
  using updateThen_end by (auto simp: degrade_def Let_def)

end

lemma rep_key_meta: "br_Meta x = br_Meta y \<Longrightarrow> rep_key x = rep_key y"
  by (simp add: rep_key_def)

context controller_env
begin

lemma finish_end:
  assumes "finishReplication E pc S br pfx keys tot entries w = ((res, None), w')"
  shows "res = retryResult \<or> settled (st w') (rep_key br)"
proof -
  let ?K = "env_Kube E"
  obtain now w1 where now: "k_Now ?K w = (now, w1)" by fastforce
  let ?br1 = "br\<lparr>br_Status := (br_Status br)\<lparr>brt_CompletedAt := Some now\<rparr>\<rparr>"
  obtain er w2 where em: "emitManifest (env_Http E) pc ?br1 pfx entries (int64_of_u64 tot) now w1 = (er, w2)" by fastforce
  obtain cr w3 where cm: "commitLedger S ?br1 keys w2 = (cr, w3)" by fastforce
  let ?br2 = "setReady ?K (setPhase ?br1 PhaseReplicated) ConditionTrue ''Replicated''
    (Lit ''all bundles transmitted to destination peer'') w3"
  have key: "rep_key ?br2 = rep_key br" by (rule rep_key_meta) simp
  show ?thesis
    using assms now em cm transient_end updateThen_end [of ?br2 doneResult w3 res w'] key
    by (cases er; cases cr) (auto simp: finishReplication_def Let_def)
qed

lemma transmit_end:
  assumes "transmit E S br policy pfx keys specs tot w = Some ((res, None), w')"
  shows "res = retryResult \<or> settled (st w') (rep_key br)"
proof -
  let ?K = "env_Kube E" and ?spec = "pol_Spec policy"
  let ?br2 = "setPhase (br\<lparr>br_Status := (br_Status br)\<lparr>brt_ObjectCount := int (length specs),
      brt_TotalBytes := int64_of_u64 tot\<rparr>\<rparr>) PhaseTransmitting"
  obtain ur w1 where u: "k_UpdateReplicationStatus ?K ?br2 w = (ur, w1)" by fastforce
  then obtain y where y: "ur = Inr y" using assms by (cases ur) (auto simp: transmit_def Let_def)
  have key: "rep_key y = rep_key br" using update_rep_ok [OF u [unfolded y]] by (auto simp: rep_key_def)
  obtain pc where pc: "NewClient (ps_Address (rp_Peat ?spec)) = Inr pc" by (simp add: NewClient_def Let_def)
  obtain er w2 where e: "EnsurePeer (env_Http E) pc (tg_EndpointID (rp_Target ?spec)) (tg_Addresses (rp_Target ?spec))
          (tg_RelayURL (rp_Target ?spec)) w1 = (er, w2)" by fastforce
  define sb where "sb = sendBundles (env_Http E) (om_Name (br_Meta y)) (mapPriority (rp_Priority ?spec)) pc 0
      (Pack specs (rp_BundleFileLimit ?spec) (u64_of_int64 (rp_BundleByteLimit ?spec))) ([], [], True) w2"
  have run: "(case er of Inl e \<Rightarrow> Some (transientErr ?K y ''PeerConnectFailed'' e w2)
      | Inr _ \<Rightarrow> (case sb of None \<Rightarrow> None
          | Some (Inl (reason, e), w3) \<Rightarrow> Some (transientErr ?K y reason e w3)
          | Some (Inr (statuses, entries, allDone), w3) \<Rightarrow>
              (let br4 = y\<lparr>br_Status := (br_Status y)\<lparr>brt_Bundles := statuses\<rparr>\<rparr>
               in if \<not> allDone then Some (updateReturn ?K br4 retryResult w3)
                  else Some (finishReplication E pc S br4 pfx keys tot entries w3)))) = Some ((res, None), w')"
    using assms u y pc e by (simp add: transmit_def Let_def sb_def split: sum.splits)
  have key4: "rep_key (y\<lparr>br_Status := s\<rparr>) = rep_key br" for s using key by (simp add: rep_key_def)
  have finish: "res = retryResult \<or> settled (st w') (rep_key br)"
    if "finishReplication E pc S (y\<lparr>br_Status := s\<rparr>) pfx keys tot entries w3 = ((res, None), w')" for s entries w3
    using finish_end [OF that] key4 by simp
  show ?thesis
    using run by (auto simp: Let_def split: sum.splits option.splits prod.splits if_splits
        dest: transient_end finish updateReturn_end)
qed

lemma markStarted_key: "markStarted (env_Kube E) br w = (br1, w1) \<Longrightarrow> rep_key (setPhase br1 p) = rep_key br"
  by (rule rep_key_meta) (simp add: markStarted_simps)

lemma pass_end:
  assumes run: "replicate_pass E x policy w = Some ((res, None), w')"
  shows "res = retryResult \<or> settled (st w') (rep_key x)"
proof -
  let ?K = "env_Kube E"
  obtain br1 w1 where ms: "markStarted ?K x w = (br1, w1)" by fastforce
  let ?br2 = "setPhase br1 PhaseStaging"
  have key: "rep_key ?br2 = rep_key x" using markStarted_key [OF ms] .
  have skip: "settled (st w') (rep_key x)"
    if "updateThen ?K (setReady ?K (setPhase ?br2 PhaseSkipped) s reason msg v) doneResult w3 = ((res, None), w')"
    for s reason msg v w3
  proof -
    have "rep_key (setReady ?K (setPhase ?br2 PhaseSkipped) s reason msg v) = rep_key x"
      unfolding key [symmetric] by (rule rep_key_meta) simp
    then show ?thesis using updateThen_end [OF that] by simp
  qed
  have tr: "res = retryResult \<or> settled (st w') (rep_key x)"
    if "transmit E S ?br2 policy pfx keys specs tot v = Some ((res, None), w')" for S pfx keys specs tot v
    using transmit_end [OF that] key by simp
  show ?thesis
    using run ms by (auto simp: replicate_pass_def Let_def split: sum.splits prod.splits if_splits
        dest: transient_end degrade_end skip tr)
qed

lemma Reconcile_end:
  assumes run: "ReconcileReplication E ns name w = Some ((res, None), w')"
  shows "res = retryResult \<or> settled (st w') (ns, name) \<or>
    (case fst (k_GetReplication (env_Kube E) ns name w) of
       Inl e \<Rightarrow> is_not_found e
     | Inr x \<Rightarrow> \<not> IsZero (om_DeletionTimestamp (br_Meta x)) \<or> replicationTerminal (brt_Phase (br_Status x)))"
proof -
  obtain gr w1 where get: "k_GetReplication (env_Kube E) ns name w = (gr, w1)" by fastforce
  have "rep_key x = (ns, name)" if "gr = Inr x" for x using get_rep_seen [OF get [unfolded that]] by simp
  then have pass: "res = retryResult \<or> settled (st w') (ns, name)"
    if "gr = Inr x" "replicate_pass E x policy v = Some ((res, None), w')" for x policy v
    using pass_end [OF that(2)] that(1) by metis
  show ?thesis
    using run get by (auto simp: ReconcileReplication_def Let_def ignore_not_found_def split: sum.splits prod.splits if_splits
        dest: degrade_end pass)
qed

end


section \<open>Properties\<close>

text \<open>
  C11: the phase machine of a backup: whatever the services answer, a reconcile changes only the
  named work item, and it changes it by a sequence of writes that follow the phase machine: no
  item leaves a terminal phase, only the transmission is followed by success, and the phase
  \<open>Failed\<close> is never entered. Specifications, other items and all imports are left as they were.
\<close>

theorem replication_phase_machine:
  assumes "controller_env E st files docs objects tags"
    and "ReconcileReplication E ns name w = Some (res, w')"
  shows "repWrites phaseStep (ns, name) (st w) (st w') \<and> ks_imps (st w') = ks_imps (st w) \<and>
    (\<forall>k x. ks_reps (st w) k = Some x \<longrightarrow> (\<exists>y. ks_reps (st w') k = Some y \<and> br_Spec y = br_Spec x \<and>
       (k \<noteq> (ns, name) \<or> replicationTerminal (brt_Phase (br_Status x)) \<longrightarrow> y = x))) \<and>
    (\<forall>k y. ks_reps (st w') k = Some y \<and> brt_Phase (br_Status y) = PhaseFailed \<longrightarrow> ks_reps (st w) k = Some y)"
proof -
  have writes: "repWrites phaseStep (ns, name) (st w) (st w')"
    by (rule controller_env.Reconcile_writes [OF assms])
  have frame: "k \<noteq> (ns, name) \<Longrightarrow> ks_reps (st w') k = ks_reps (st w) k" for k
    using repWrites_frame [OF writes] by blast
  have "y = x" if "ks_reps (st w) k = Some x" "ks_reps (st w') k = Some y"
    "k \<noteq> (ns, name) \<or> replicationTerminal (brt_Phase (br_Status x))" for k x y
    using that frame [of k] repWrites_terminal [OF writes, of k x] phaseStep_not_terminal by fastforce
  then have items: "\<exists>y. ks_reps (st w') k = Some y \<and> br_Spec y = br_Spec x \<and>
      (k \<noteq> (ns, name) \<or> replicationTerminal (brt_Phase (br_Status x)) \<longrightarrow> y = x)"
    if "ks_reps (st w) k = Some x" for k x
    using repWrites_spec [OF writes that] that by blast
  have "ks_reps (st w) k = Some y" if "ks_reps (st w') k = Some y" "brt_Phase (br_Status y) = PhaseFailed" for k y
  proof (cases "k = (ns, name)")
    case True
    then show ?thesis
      using repWrites_phase [OF writes _ that(2)] that(1) by (auto simp: phaseStep_to_failed)
  qed (use frame that in simp)
  then show ?thesis using writes items repWrites_frame [OF writes] by blast
qed

theorem replication_phase_machine_witness:
  "repWrites phaseStep (''velero'', ''b'') (mem_st exQueued) (mem_st exShipped) \<and>
   (\<exists>y. ks_reps (mem_st exShipped) (''velero'', ''b'') = Some y \<and> br_Spec y = br_Spec exItem)"
  using replication_phase_machine [OF exEnv_contract runPass] exQueued_item by blast

text \<open>
  C2: a backup is never declared replicated before it has been shipped: when a reconcile leaves a
  work item in the phase \<open>Replicated\<close> that was not stored like this before, then it went through
  all steps of a pass, from the state it started in to the state it left (\<open>shippedBy\<close>): it listed
  at least one object and sent them in bundles, all of which are recorded as completed, under the
  identifiers of this backup in sequence; the complete manifest of the shipped files is the
  document of the backup in the peat sidecar (when JSON can carry its text), and the ledger
  of the location records every shipped key.
\<close>

theorem replicated_only_after_shipping:
  assumes "controller_env E st files docs objects tags"
    and "ReconcileReplication E ns name w = Some (res, w')"
    and "ks_reps (st w') k = Some y" and "brt_Phase (br_Status y) = PhaseReplicated" and "ks_reps (st w) k \<noteq> Some y"
  shows "k = (ns, name) \<and>
    (\<exists>policy x cfg keys states entries pc tot now l.
       ks_reps (st w) k = Some x \<and> br_Spec y = br_Spec x \<and>
       shippedBy E policy x cfg keys states (brt_Bundles (br_Status y)) entries w w' \<and> keys \<noteq> [] \<and>
       brt_Bundles (br_Status y) \<noteq> [] \<and> (\<forall>s \<in> set (brt_Bundles (br_Status y)). bs_Phase s = BundleCompleted) \<and>
       map bs_BundleID (brt_Bundles (br_Status y)) = map (bundleIdent name) [0 ..< length (brt_Bundles (br_Status y))] \<and>
       NewClient (ps_Address (rp_Peat (pol_Spec policy))) = Inr pc \<and>
       (carriable y (cfg_Prefix cfg) entries \<longrightarrow>
        docs (cc_baseURL pc) w' (Collection, DocID (brs_StorageLocation (br_Spec y)) (brs_BackupName (br_Spec y))) =
          Some (json_print (encManifest (replicationManifest y (cfg_Prefix cfg) entries (int64_of_u64 tot) now)))) \<and>
       objects cfg w' (ledgerKey (brs_StorageLocation (br_Spec y))) = Some (json_print (encLedger (Some l))) \<and>
       (\<forall>k \<in> set keys. map_of l k = Some zeroLedgerEntry))"
proof (cases rule: controller_env.Reconcile_cases [OF assms(1,2), case_names quiet replicated])
  case quiet
  have "k = (ns, name)" using repWrites_frame [OF quiet, of k] assms(3,5) by auto
  then have "ks_reps (st w) k = Some y"
    using repWrites_phase [OF quiet _ assms(4)] assms(3) by (auto simp: quietStep_def)
  then show ?thesis using assms(5) by simp
next
  case (replicated policy x cfg keys states statuses entries y1 z)
  have key: "k = (ns, name)"
    using replicated(4,7,11) assms(3,5) by (auto split: if_splits)
  then have z: "z = y" using replicated(7,11) assms(3) by simp
  have x: "snd (rep_key x) = name"
    using kube_api.rep_stored [OF controller_env.axioms(1) [OF assms(1)] replicated(3)] by simp
  note effects = controller_env.shipped_effects [OF assms(1) replicated(1)]
  have same: "replicationManifest x = replicationManifest y" "carriable x = carriable y"
    "br_Spec x = br_Spec y"
    using replicated(8) z by (simp_all add: fun_eq_iff replicationManifest_def carriable_def)
  obtain l where "objects cfg w' (ledgerKey (brs_StorageLocation (br_Spec y))) = Some (json_print (encLedger (Some l)))"
    "\<forall>k \<in> set keys. map_of l k = Some zeroLedgerEntry"
    using effects(5) unfolding same by blast
  moreover obtain pc tot now where "NewClient (ps_Address (rp_Peat (pol_Spec policy))) = Inr pc"
    "carriable y (cfg_Prefix cfg) entries \<longrightarrow>
     docs (cc_baseURL pc) w' (Collection, DocID (brs_StorageLocation (br_Spec y)) (brs_BackupName (br_Spec y))) =
       Some (json_print (encManifest (replicationManifest y (cfg_Prefix cfg) entries (int64_of_u64 tot) now)))"
    using effects(6) unfolding same by blast
  ultimately show ?thesis
    using effects(1-4) replicated(1,3) replicated(10) key same(3) unfolding z x
    by (intro conjI [OF key] exI [of _ policy] exI [of _ x] exI [of _ cfg] exI [of _ keys] exI [of _ states] exI [of _ entries]
        exI [of _ pc] exI [of _ tot] exI [of _ now] exI [of _ l]) simp
qed

theorem replicated_only_after_shipping_witness:
  "\<exists>policy cfg keys states entries. keys \<noteq> [] \<and>
     shippedBy exEnv policy exItem cfg keys states (brt_Bundles (br_Status exReplicated)) entries exQueued exShipped"
proof -
  have "ks_reps (mem_st exQueued) (''velero'', ''b'') \<noteq> Some exReplicated"
    using exQueued_item exItem_phase exReplicated_simps(1) by auto
  from replicated_only_after_shipping [OF exEnv_contract runPass exShipped_item exReplicated_simps(1) this]
  obtain policy x cfg keys states entries where x: "ks_reps (mem_st exQueued) (''velero'', ''b'') = Some x"
    and run: "keys \<noteq> []" "shippedBy exEnv policy x cfg keys states (brt_Bundles (br_Status exReplicated)) entries exQueued exShipped"
    by blast
  have "x = exItem" using x exQueued_item by simp
  then show ?thesis using run by blast
qed

text \<open>
  C10: completeness of the manifest: over a sidecar that answers a send with one handle for each
  file in request order, the manifest of a shipped backup has exactly one entry for each listed
  object, in order, and that entry is true of it: its safe path, its base name, the size and the
  SHA-256 of the content that the object had in the state in which the pass staged it (\<open>states\<close>,
  which \<open>shippedBy\<close> determines from the run).
\<close>

theorem manifest_describes_every_key:
  assumes "controller_env E st files docs objects tags" and "peat_attachments (env_Http E)"
    and "shippedBy E policy x cfg keys states statuses entries w w'"
    and "valid_utf8 (snd (rep_key x))" and "valid_utf8 (ps_OutboxRoot (rp_Peat (pol_Spec policy)))"
    and "list_all shippable keys" and "length keys < 2 ^ 32"
  shows "length states = length keys \<and> length entries = length keys \<and>
    (\<forall>i < length keys. describes E objects cfg (keys ! i) (states ! i) (entries ! i))"
  using controller_env.shipped_effects(7) [OF assms(1,3,2,4-7)] by (auto simp: list_all2_conv_all_nth)

theorem manifest_describes_every_key_witness:
  "length exEntries = 2 \<and> fe_Size (exEntries ! 0) = int (length (the (mem_store exQueued (fullKey ''backups'' (exKeys ! 0))))) \<and>
   fe_Size (exEntries ! 1) = int (length (the (mem_store exQueued (fullKey ''backups'' (exKeys ! 1)))))"
proof -
  have att: "peat_attachments (env_Http exEnv)" using mem_attachments.peat_attachments_axioms by simp
  have utf: "valid_utf8 (snd (rep_key exItem))" "valid_utf8 (ps_OutboxRoot (rp_Peat (pol_Spec exPolicy)))"
    by (simp_all add: exItem_def rep_key_def meta_key_def newMeta_def exPolicy_def)
  have "safeRelPath ''backups/b/velero-backup.json'' = Inr ''backups/b/velero-backup.json''"
    "safeRelPath ''kopia/p0'' = Inr ''kopia/p0''" by code_simp+
  then have "list_all shippable exKeys" by (simp add: exKeys_def shippable_def exBases)
  moreover have keys: "length exKeys = 2" by (simp add: exKeys_def)
  ultimately have described: "length exEntries = 2"
    "\<And>i. i < 2 \<Longrightarrow> describes exEnv (mem_objects ''velero'') exStoreConfig (exKeys ! i) (exStates ! i) (exEntries ! i)"
    using manifest_describes_every_key [OF exEnv_contract att exShippedBy utf] by simp_all
  have each: "fe_Size (exEntries ! i) = int (length (the (mem_store exQueued (fullKey ''backups'' (exKeys ! i)))))" if i: "i < 2" for i
  proof -
    obtain b where b: "mem_store exQueued (fullKey ''backups'' (exKeys ! i)) = Some b" "fe_Size (exEntries ! i) = wrap64 (int (length b))"
      using described(2) [OF i] exNewStore exStates_objs(2) [OF i]
      by (auto simp: describes_def mem_objects_def mem_store_def exStoreConfig_def exMinio_def zeroConfig_def)
    have "length b < 4" using b(1) i by (auto simp: mem_store_def exQueued_def exCluster_def less_2_cases_iff split: if_splits)
    then show ?thesis using b by (simp add: in_int64_def)
  qed
  show ?thesis using described(1) each [of 0] each [of 1] by simp
qed

text \<open>
  C15: no work item is stranded: a reconcile that ends without an error asks to be run again in
  thirty seconds, or it leaves the work item in a terminal phase, or it read that there is
  nothing to do: no such item, one that is being deleted, or one in a terminal phase.
\<close>

theorem replication_never_stranded:
  assumes "controller_env E st files docs objects tags"
    and "ReconcileReplication E ns name w = Some ((res, None), w')"
  shows "res = \<lparr>RequeueAfter = 30 * 10 ^ 9\<rparr> \<or> settled (st w') (ns, name) \<or>
    (case fst (k_GetReplication (env_Kube E) ns name w) of
       Inl e \<Rightarrow> is_not_found e
     | Inr x \<Rightarrow> \<not> IsZero (om_DeletionTimestamp (br_Meta x)) \<or> replicationTerminal (brt_Phase (br_Status x)))"
proof -
  have retry: "retryResult = \<lparr>RequeueAfter = 30 * 10 ^ 9\<rparr>" by (simp add: retryResult_def requeueAfterTransient_def)
  show ?thesis using controller_env.Reconcile_end [OF assms] unfolding retry .
qed

theorem replication_never_stranded_witness:
  "settled (mem_st exShipped) (''velero'', ''b'')"
proof -
  have "doneResult \<noteq> \<lparr>RequeueAfter = 30 * 10 ^ 9\<rparr>" by (simp add: doneResult_def)
  moreover have "fst (k_GetReplication (env_Kube exEnv) ''velero'' ''b'' exQueued) = Inr exItem" by (simp add: exGet)
  moreover have "IsZero (om_DeletionTimestamp (br_Meta exItem))" by (simp add: exItem_def newMeta_def IsZero_def)
  ultimately show ?thesis
    using replication_never_stranded [OF exEnv_contract runPass] exItem_phase by simp
qed

text \<open>
  The summary of a bundle: failed exactly when some distribution failed or was cancelled,
  completed exactly when there are distributions and all of them completed, in progress
  otherwise; the identifiers are those of the reports in order, and the bytes their sum while it
  is below 2^63.
\<close>

theorem bundle_summary:
  "case summarize ps of (phase, bytes, ids) \<Rightarrow>
     (phase = BundleFailed \<longleftrightarrow> (\<exists>p \<in> set ps. pr_Status p = StatusFailed \<or> pr_Status p = StatusCancelled)) \<and>
     (phase = BundleCompleted \<longleftrightarrow> ps \<noteq> [] \<and> (\<forall>p \<in> set ps. pr_Status p = StatusCompleted)) \<and>
     phase \<in> {BundleFailed, BundleCompleted, BundleInProgress} \<and> ids = map pr_DistributionID ps \<and>
     ((\<Sum>p \<leftarrow> ps. unat (pr_BytesTransferred p)) < 2 ^ 63 \<longrightarrow> bytes = int (\<Sum>p \<leftarrow> ps. unat (pr_BytesTransferred p)))"
  using sumProgress_bytes [of 0 ps] by (auto simp: summarize_def sumProgress_spec)

text \<open>
  The identifiers of bundles, under which the peat sidecar recognises a repeated send, are
  never shared: they determine the name of the work item and the index of the bundle.
\<close>

theorem bundle_ids_distinct:
  "bundleIdent name i = bundleIdent name' i' \<longleftrightarrow> name = name' \<and> i = i'"
  by (rule bundleIdent_inject)

text \<open>
  Committing the ledger merges: over a client that behaves as S3 documents, a successful
  commit of shipped keys to a ledger that was read leaves the ledger object readable, recording
  every key of the commit, and every other entry as it was; nothing else in the bucket changes.
\<close>

theorem ledger_commit_merges:
  assumes "s3_client (ms_client ms) (ms_bucket ms) store etag"
    and "commitLedger (minio_Store ms) br keys w = (Committed, w')"
    and "readLedger (storedLedger (store w) (brs_StorageLocation (br_Spec br))) = Inr (Some l)"
    and "keys \<noteq> []" and "list_all valid_utf8 keys" and "ledgerOk l"
  shows "\<exists>l'. readLedger (storedLedger (store w') (brs_StorageLocation (br_Spec br))) = Inr (Some l') \<and>
    map_of l' = (\<lambda>k. if k \<in> set keys then Some \<lparr>le_ETag = '''', le_Size = 0\<rparr> else map_of l k) \<and>
    (\<forall>k. k \<noteq> ledgerKey (brs_StorageLocation (br_Spec br)) \<longrightarrow> store w' k = store w k)"
proof -
  let ?key = "ledgerKey (brs_StorageLocation (br_Spec br))"
  have w': "store w' = (store w)(?key \<mapsto> json_print (encLedger (Some (recordKeys keys l))))"
    using commitLedger_s3 [OF assms(1,2,4)] assms(3) by auto
  have "ledgerOk (recordKeys keys l)" using assms(5,6) by (rule recordKeys_ok)
  from read_encLedger [OF this] obtain l' where
    "readLedger (json_print (encLedger (Some (recordKeys keys l)))) = Inr (Some l')" "map_of l' = map_of (recordKeys keys l)"
    by blast
  then show ?thesis
    unfolding w' by (intro exI [of _ l']) (auto simp: storedLedger_def recordKeys_map zeroLedgerEntry_def fun_eq_iff)
qed

theorem ledger_commit_merges_witness:
  "\<exists>l'. readLedger (storedLedger (mem_store exCommitted) ''default'') = Inr (Some l') \<and>
     map_of l' ''kopia/p0'' = Some \<lparr>le_ETag = '''', le_Size = 0\<rparr>"
proof -
  have "s3_client (ms_client exMinio) (ms_bucket exMinio) mem_store mem_etag"
    using mem_s3.s3_client_axioms by (simp add: exMinio_def)
  moreover have "brs_StorageLocation (br_Spec exCompleted) = ''default''" by (simp add: exItem_def)
  moreover have "mem_store exPublished (ledgerKey ''default'') = None"
    by (simp add: mem_store_def exPublished_def exSentWorld_def exSending_def exQueued_def exCluster_def ledgerKey_def)
  then have "readLedger (storedLedger (mem_store exPublished) ''default'') = Inr (Some [])"
    by (simp add: storedLedger_def readLedger_def)
  moreover have "exKeys \<noteq> []" "list_all valid_utf8 exKeys" "ledgerOk []" by (simp_all add: exKeys_def ledgerOk_def)
  ultimately obtain l' where "readLedger (storedLedger (mem_store exCommitted) ''default'') = Inr (Some l')"
    "map_of l' = (\<lambda>k. if k \<in> set exKeys then Some \<lparr>le_ETag = '''', le_Size = 0\<rparr> else map_of [] k)"
    using ledger_commit_merges [OF _ exCommit, of mem_store mem_etag "[]"] by auto
  then show ?thesis by (simp add: exKeys_def)
qed

text \<open>
  C39: the delta never misses an object, and it also never shrinks: when the ledger read is one
  that a commit of \<open>keys\<close> wrote, an enumeration returns the key of every listed repository object
  that the ledger does not record, and also of every committed object whose entity tag is not
  empty, because the commit records empty entity tags. So objects that have been shipped are
  shipped again by every later backup.
\<close>

theorem delta_reships_committed_objects:
  assumes "ledgerOk l" and "list_all valid_utf8 keys"
    and "st_GetLedger S (ledgerKey (brs_StorageLocation (br_Spec br))) w =
      (Inr (json_print (encLedger (Some (recordKeys keys l))), tag), w1)"
    and "enumerateDelta S br w = (Inr again, w')"
  shows "\<exists>metas v1 kopia v2 restic.
    st_List S (''backups/'' @ brs_BackupName (br_Spec br) @ ''/'') w1 = (Inr metas, v1) \<and>
    st_List S ''kopia/'' v1 = (Inr kopia, v2) \<and> st_List S ''restic/'' v2 = (Inr restic, w') \<and>
    oi_Key ` set metas \<subseteq> set again \<and>
    (\<forall>o' \<in> set (kopia @ restic). map_of (recordKeys keys l) (oi_Key o') = None \<longrightarrow> oi_Key o' \<in> set again) \<and>
    (\<forall>o' \<in> set (kopia @ restic). oi_Key o' \<in> set keys \<and> oi_ETag o' \<noteq> '''' \<longrightarrow> oi_Key o' \<in> set again)"
proof -
  from read_encLedger [OF recordKeys_ok [OF assms(2,1)]] obtain l' where l':
    "readLedger (json_print (encLedger (Some (recordKeys keys l)))) = Inr (Some l')" "map_of l' = map_of (recordKeys keys l)"
    by blast
  obtain metas v1 kopia v2 restic where run:
    "st_List S (''backups/'' @ brs_BackupName (br_Spec br) @ ''/'') w1 = (Inr metas, v1)"
    "st_List S ''kopia/'' v1 = (Inr kopia, v2)" "st_List S ''restic/'' v2 = (Inr restic, w')"
    "again = map oi_Key metas @ map oi_Key (filter (\<lambda>o'. \<not> seenUnchanged (Some l') o') kopia) @
      map oi_Key (filter (\<lambda>o'. \<not> seenUnchanged (Some l') o') restic)"
    using assms(3,4) l'(1) by (auto simp: enumerateDelta_def split: prod.splits sum.splits)
  have "\<not> seenUnchanged (Some l') o'"
    if "map_of (recordKeys keys l) (oi_Key o') = None \<or> oi_Key o' \<in> set keys \<and> oi_ETag o' \<noteq> ''''" for o'
    using that l'(2) by (auto simp: seenUnchanged_def ledgerGet_def recordKeys_map zeroLedgerEntry_def)
  then show ?thesis
    unfolding run(4)
    by (intro exI [of _ metas] exI [of _ v1] exI [of _ kopia] exI [of _ v2] exI [of _ restic] conjI run)
      auto
qed

lemma exShipped_objs: "mw_objs exShipped = [(''backups/kopia/p0'', (''abc'', 1)),
    (''backups/backups/b/velero-backup.json'', (''{}'', 2)), (''snapback/ledger/default.json'', (exLedger, 3))]"
  by (simp add: exShipped_def exCommitted_def exQueued_def exCluster_def)

definition exListed :: "string \<Rightarrow> nat \<Rightarrow> nat \<Rightarrow> ObjectInfo" where
  "exListed k n v = \<lparr>oi_Key = k, oi_Size = int n, oi_ETag = dec v, oi_LastModified = 0\<rparr>"

lemma exLists:
  "st_List (minio_Store exMinio) ''backups/b/'' exShipped = (Inr [exListed ''backups/b/velero-backup.json'' 2 2], exShipped)"
  "st_List (minio_Store exMinio) ''kopia/'' exShipped = (Inr [exListed ''kopia/p0'' 3 1], exShipped)"
  "st_List (minio_Store exMinio) ''restic/'' exShipped = (Inr [], exShipped)"
proof -
  have full: "fullKey ''backups'' ''backups/b/'' = ''backups/backups/b/''" "fullKey ''backups'' ''kopia/'' = ''backups/kopia/''"
    "fullKey ''backups'' ''restic/'' = ''backups/restic/''" by code_simp+
  have rel: "relKey ''backups'' ''backups/kopia/p0'' = ''kopia/p0''"
    "relKey ''backups'' ''backups/backups/b/velero-backup.json'' = ''backups/b/velero-backup.json''" by code_simp+
  note list = minio_Store_def List_minio_def exMinio_def mem_client_def full rel exShipped_objs mem_obj_def
    exListed_def Let_def
  show "st_List (minio_Store exMinio) ''backups/b/'' exShipped = (Inr [exListed ''backups/b/velero-backup.json'' 2 2], exShipped)"
    by (simp add: list)
  show "st_List (minio_Store exMinio) ''kopia/'' exShipped = (Inr [exListed ''kopia/p0'' 3 1], exShipped)"
    by (simp add: list)
  show "st_List (minio_Store exMinio) ''restic/'' exShipped = (Inr [], exShipped)"
    by (simp add: list)
qed

theorem delta_reships_committed_objects_witness:
  "\<exists>again. enumerateDelta (minio_Store exMinio) exItem exShipped = (Inr again, exShipped) \<and> ''kopia/p0'' \<in> set again"
proof -
  let ?S = "minio_Store exMinio"
  have item: "brs_StorageLocation (br_Spec exItem) = ''default''" "brs_BackupName (br_Spec exItem) = ''b''"
    by (simp_all add: exItem_def)
  have ok: "ledgerOk []" "list_all valid_utf8 exKeys" by (simp_all add: ledgerOk_def exKeys_def)
  have "map_of (mw_objs exShipped) ''snapback/ledger/default.json'' = Some (exLedger, 3)" by (simp add: exShipped_objs)
  then have get: "st_GetLedger ?S (ledgerKey ''default'') exShipped =
      (Inr (json_print (encLedger (Some (recordKeys exKeys []))), dec 3), exShipped)"
    by (simp add: minio_Store_def GetLedger_minio_def exMinio_def mem_client_def mem_stat_def mem_read_def mem_obj_def
        ledgerKey_def exLedger_def del: json_print.simps)
  from read_encLedger [OF recordKeys_ok [OF ok(2,1)]] obtain l' where
    "readLedger (json_print (encLedger (Some (recordKeys exKeys [])))) = Inr (Some l')" by blast
  then obtain again where again: "enumerateDelta ?S exItem exShipped = (Inr again, exShipped)"
    using get exLists by (simp add: enumerateDelta_def item)
  have "dec 1 \<noteq> ''''" by (rule dec_neq_Nil)
  then show ?thesis
    using delta_reships_committed_objects [OF ok _ again, unfolded item, OF get] again exLists
    by (auto simp: exListed_def exKeys_def)
qed

end
