(* ===== verification/Import_Controller.thy ===== *)
theory Import_Controller
  imports Replication_Controller
begin

text \<open>
  The destination role (\<open>src/src/internal/controller/backupimport_controller.go\<close>): the bridge
  that turns the manifests of the local peat document plane into import work items, and the
  controller that reconstructs a backup from a manifest and the landed files. Log lines are
  left out, but for the failures that a poll of the bridge only logs: these are its result.
\<close>


section \<open>Options\<close>

record ImportOptions =
  io_PeatAddress :: string
  io_InboxRoot :: string
  io_ManifestCollection :: string
  io_Namespace :: string
  io_PollInterval :: int
  io_DestStore :: Config
  io_SourceEndpointID :: string
  io_SourceAddresses :: "string list"
  io_SourceRelayURL :: string


section \<open>The manifest bridge\<close>

definition importName :: "string \<Rightarrow> string \<Rightarrow> string" where
  "importName storageLocation backupName =
     (let n = storageLocation @ ''-'' @ backupName in if length n > 253 then take 253 n else n)"

definition importSpec :: "Manifest \<Rightarrow> BackupImportSpec" where
  "importSpec m = \<lparr>bis_BackupName = mn_BackupName m, bis_StorageLocation = mn_StorageLocation m,
     bis_ManifestDocID = DocID (mn_StorageLocation m) (mn_BackupName m)\<rparr>"

definition ensureBackupImport :: "'w Kube \<Rightarrow> ImportOptions \<Rightarrow> Manifest \<Rightarrow> 'w \<Rightarrow> goerr option \<times> 'w" where
  "ensureBackupImport K opts m w =
     (case k_CreateOrUpdateImport K (newImport (importName (mn_StorageLocation m) (mn_BackupName m)) (io_Namespace opts))
             (\<lambda>bi. Inr (bi\<lparr>bi_Spec := importSpec m\<rparr>)) w of
        (Inl e, w1) \<Rightarrow> (Some e, w1)
      | (Inr _, w1) \<Rightarrow> (None, w1))"

text \<open>What a poll logs.\<close>

datatype bridgeEvent =
    ReversePeerPending goerr
  | ListFailed goerr
  | GetFailed string goerr
  | Unparseable string goerr
  | EnsureFailed string goerr

definition ensureReversePeer :: "'w Http \<Rightarrow> ImportOptions \<Rightarrow> connectClient \<Rightarrow> 'w \<Rightarrow> bridgeEvent list \<times> 'w" where
  "ensureReversePeer http opts pc w =
     (if io_SourceEndpointID opts = '''' then ([], w)
      else case EnsurePeer http pc (io_SourceEndpointID opts) (io_SourceAddresses opts) (io_SourceRelayURL opts) w of
          (Inl e, w1) \<Rightarrow> ([ReversePeerPending e], w1)
        | (Inr _, w1) \<Rightarrow> ([], w1))"

text \<open>The body of the loop over the document ids.\<close>

definition pollDocument :: "'w Env \<Rightarrow> ImportOptions \<Rightarrow> connectClient \<Rightarrow> string \<Rightarrow> 'w \<Rightarrow> bridgeEvent list \<times> 'w" where
  "pollDocument E opts pc d w =
     (case GetDocument (env_Http E) pc (io_ManifestCollection opts) d w of
        (Inl e, w1) \<Rightarrow> ([GetFailed d e], w1)
      | (Inr None, w1) \<Rightarrow> ([], w1)
      | (Inr (Some data), w1) \<Rightarrow>
          (case Parse data of
             Inl e \<Rightarrow> ([Unparseable d e], w1)
           | Inr m \<Rightarrow>
               if \<not> mn_Complete m then ([], w1)
               else case ensureBackupImport (env_Kube E) opts m w1 of
                   (Some e, w2) \<Rightarrow> ([EnsureFailed d e], w2)
                 | (None, w2) \<Rightarrow> ([], w2)))"

fun pollDocuments :: "'w Env \<Rightarrow> ImportOptions \<Rightarrow> connectClient \<Rightarrow> string list \<Rightarrow> 'w \<Rightarrow> bridgeEvent list \<times> 'w" where
  "pollDocuments E opts pc [] w = ([], w)"
| "pollDocuments E opts pc (d # ds) w =
     (case pollDocument E opts pc d w of (evs, w1) \<Rightarrow>
      case pollDocuments E opts pc ds w1 of (evs', w2) \<Rightarrow> (evs @ evs', w2))"

definition poll :: "'w Env \<Rightarrow> ImportOptions \<Rightarrow> connectClient \<Rightarrow> 'w \<Rightarrow> bridgeEvent list \<times> 'w" where
  "poll E opts pc w =
     (case ensureReversePeer (env_Http E) opts pc w of (evs, w1) \<Rightarrow>
      case ListDocuments (env_Http E) pc (io_ManifestCollection opts) w1 of
        (Inl e, w2) \<Rightarrow> (evs @ [ListFailed e], w2)
      | (Inr ids, w2) \<Rightarrow>
          (case pollDocuments E opts pc ids w2 of (evs', w3) \<Rightarrow> (evs @ evs', w3)))"

text \<open>
  The loop of \<open>Start\<close>: the \<open>select\<close> waits for the end of the context (\<open>True\<close>) or the next
  tick. \<open>None\<close>: the bridge runs for ever.
\<close>

partial_function (option) bridgeLoop :: "('w \<Rightarrow> bool \<times> 'w) \<Rightarrow> ('w \<Rightarrow> 'w) \<Rightarrow> 'w \<Rightarrow> 'w option" where
  "bridgeLoop sel body w =
     (case sel w of (ended, w1) \<Rightarrow> if ended then Some w1 else bridgeLoop sel body (body w1))"

definition StartBridge :: "'w Env \<Rightarrow> (int \<Rightarrow> 'w \<Rightarrow> bool \<times> 'w) \<Rightarrow> ImportOptions \<Rightarrow> 'w \<Rightarrow> (goerr option \<times> 'w) option" where
  "StartBridge E sel opts w =
     (case NewClient (io_PeatAddress opts) of
        Inl e \<Rightarrow> Some (Some (Wrapf ''manifest bridge: dial peat'' [] e), w)
      | Inr pc \<Rightarrow>
          (let body = (\<lambda>w. snd (poll E opts pc w)) in
           map_option (Pair None) (bridgeLoop (sel (io_PollInterval opts)) body (body w))))"


section \<open>Status\<close>

definition setImportPhase :: "BackupImport \<Rightarrow> ImportPhase \<Rightarrow> BackupImport" where
  "setImportPhase bi p = bi\<lparr>bi_Status := (bi_Status bi)\<lparr>bit_Phase := p,
     bit_ObservedGeneration := om_Generation (bi_Meta bi)\<rparr>\<rparr>"

definition setImportReady :: "'w Kube \<Rightarrow> BackupImport \<Rightarrow> ConditionStatus \<Rightarrow> string \<Rightarrow> message \<Rightarrow> 'w \<Rightarrow> BackupImport" where
  "setImportReady K bi s reason msg w = bi\<lparr>bi_Status := (bi_Status bi)\<lparr>bit_Conditions :=
     k_SetCondition K (bit_Conditions (bi_Status bi)) (readyCondition s reason msg (om_Generation (bi_Meta bi))) w\<rparr>\<rparr>"

definition updateImportThen :: "'w Kube \<Rightarrow> BackupImport \<Rightarrow> ctrlResult \<Rightarrow> 'w \<Rightarrow> 'w reconciled" where
  "updateImportThen K bi res w =
     (case k_UpdateImportStatus K bi w of
        (Inl e, w1) \<Rightarrow> ((doneResult, Some e), w1)
      | (Inr _, w1) \<Rightarrow> ((res, None), w1))"

definition importWait :: "'w Kube \<Rightarrow> BackupImport \<Rightarrow> string \<Rightarrow> message \<Rightarrow> 'w \<Rightarrow> 'w reconciled" where
  "importWait K bi reason msg w =
     updateImportThen K (setImportReady K bi ConditionFalse reason msg w) retryResult w"

definition importTransient :: "'w Kube \<Rightarrow> BackupImport \<Rightarrow> string \<Rightarrow> goerr \<Rightarrow> 'w \<Rightarrow> 'w reconciled" where
  "importTransient K bi reason cause w =
     (let bi1 = bi\<lparr>bi_Status := (bi_Status bi)\<lparr>bit_LastError := ErrText cause,
            bit_RetryCount := wrap32 (bit_RetryCount (bi_Status bi) + 1)\<rparr>\<rparr>
      in updateImportThen K (setImportReady K bi1 ConditionFalse reason (ErrText cause) w) retryResult w)"

definition importFailed :: "'w Kube \<Rightarrow> BackupImport \<Rightarrow> string \<Rightarrow> goerr \<Rightarrow> 'w \<Rightarrow> 'w reconciled" where
  "importFailed K bi reason cause w =
     (let bi1 = bi\<lparr>bi_Status := (bi_Status bi)\<lparr>bit_LastError := ErrText cause\<rparr>\<rparr>;
          bi2 = setImportPhase bi1 ImportFailed
      in updateImportThen K (setImportReady K bi2 ConditionFalse reason (ErrText cause) w) doneResult w)"


section \<open>Reconciling\<close>

definition markImportStarted :: "'w Kube \<Rightarrow> BackupImport \<Rightarrow> 'w \<Rightarrow> BackupImport \<times> 'w" where
  "markImportStarted K bi w =
     (if bit_StartedAt (bi_Status bi) = None then
        (case k_Now K w of (now, w1) \<Rightarrow> (bi\<lparr>bi_Status := (bi_Status bi)\<lparr>bit_StartedAt := Some now\<rparr>\<rparr>, w1))
      else (bi, w))"

definition inboxImporter :: "ImportOptions \<Rightarrow> 'w minioStore \<Rightarrow> 'w Importer" where
  "inboxImporter opts ms = \<lparr>im_InboxRoot = io_InboxRoot opts, im_Store = minio_Store ms\<rparr>"

text \<open>Steps 3 and 4 of the reconcile: one import pass and its record in the status.\<close>

definition runImport :: "'w Env \<Rightarrow> ImportOptions \<Rightarrow> BackupImport \<Rightarrow> Manifest \<Rightarrow> 'w minioStore \<Rightarrow> 'w \<Rightarrow>
    'w reconciled" where
  "runImport E opts bi m ms w =
     (let K = env_Kube E in
      case markImportStarted K bi w of (bi1, w1) \<Rightarrow>
      let bi2 = setImportPhase bi1 ImportImporting;
          bi3 = bi2\<lparr>bi_Status := (bi_Status bi2)\<lparr>bit_FilesTotal := int (length (mn_Files m))\<rparr>\<rparr> in
      case Import (env_sha256 E) (env_OS E) (inboxImporter opts ms) m w1 of
        ((res, Some e), w2) \<Rightarrow> importTransient K bi3 ''ImportFailed'' e w2
      | ((res, None), w2) \<Rightarrow>
          (let bi4 = bi3\<lparr>bi_Status := (bi_Status bi3)\<lparr>bit_FilesImported := res_FilesImported res,
                 bit_BytesImported := res_BytesImported res\<rparr>\<rparr> in
           if \<not> res_Committed res then
             updateImportThen K (setImportReady K bi4 ConditionFalse ''AwaitingBytes''
               (Fmt ''files imported, pending'' [res_FilesImported res, int (length (mn_Files m)), res_Pending res] []) w2)
               retryResult w2
           else case k_Now K w2 of (now, w3) \<Rightarrow>
             (let bi5 = bi4\<lparr>bi_Status := (bi_Status bi4)\<lparr>bit_CompletedAt := Some now, bit_Committed := True\<rparr>\<rparr>
              in updateImportThen K (setImportReady K (setImportPhase bi5 ImportImported) ConditionTrue ''Imported''
                   (Lit ''backup reconstructed into destination store and committed'') w3) doneResult w3)))"

definition ReconcileImport :: "'w Env \<Rightarrow> ImportOptions \<Rightarrow> string \<Rightarrow> string \<Rightarrow> 'w \<Rightarrow> 'w reconciled" where
  "ReconcileImport E opts ns name w =
     (let K = env_Kube E in
      case k_GetImport K ns name w of
        (Inl e, w1) \<Rightarrow> ((doneResult, ignore_not_found e), w1)
      | (Inr bi, w1) \<Rightarrow>
          if \<not> IsZero (om_DeletionTimestamp (bi_Meta bi)) then ((doneResult, None), w1)
          else if importTerminal (bit_Phase (bi_Status bi)) then ((doneResult, None), w1)
          else case NewClient (io_PeatAddress opts) of
              Inl e \<Rightarrow> importTransient K bi ''PeatDialFailed'' e w1
            | Inr pc \<Rightarrow>
                (case GetDocument (env_Http E) pc (io_ManifestCollection opts) (bis_ManifestDocID (bi_Spec bi)) w1 of
                   (Inl e, w2) \<Rightarrow> importTransient K bi ''ManifestFetchFailed'' e w2
                 | (Inr None, w2) \<Rightarrow>
                     importWait K (setImportPhase bi ImportPending) ''ManifestNotSynced''
                       (Lit ''manifest document not yet synced from source'') w2
                 | (Inr (Some data), w2) \<Rightarrow>
                     (case Parse data of
                        Inl e \<Rightarrow> importFailed K bi ''ManifestParseFailed'' e w2
                      | Inr m \<Rightarrow>
                          if \<not> mn_Complete m then
                            importWait K (setImportPhase bi ImportPending) ''ManifestIncomplete''
                              (Lit ''source has not committed the manifest yet'') w2
                          else case NewStore (env_SDK E) (io_DestStore opts) of
                              Inl e \<Rightarrow> importTransient K bi ''DestStoreInitFailed'' e w2
                            | Inr ms \<Rightarrow> runImport E opts bi m ms w2)))"


section \<open>The phase machine\<close>

text \<open>
  A pass of an import that is not terminal may leave its phase alone, wait for the manifest,
  run, and commit or reject it.
\<close>

inductive importStep :: "ImportPhase \<Rightarrow> ImportPhase \<Rightarrow> bool" where
  stay: "\<not> importTerminal p \<Longrightarrow> importStep p p"
| wait: "\<not> importTerminal p \<Longrightarrow> importStep p ImportPending"
| run: "\<not> importTerminal p \<Longrightarrow> importStep p ImportImporting"
| commit: "\<not> importTerminal p \<Longrightarrow> importStep p ImportImported"
| reject: "\<not> importTerminal p \<Longrightarrow> importStep p ImportFailed"

inductive_cases importStepE: "importStep p q"
inductive_simps importStep_to_unset: "importStep p ImportUnset"

lemma importStep_not_terminal: "importStep p q \<Longrightarrow> \<not> importTerminal p"
  by (auto elim: importStepE)

text \<open>The stored import \<open>x\<close> gets a new status that satisfies \<open>Q\<close>, or nothing is written.\<close>

definition storesStatus :: "BackupImport \<Rightarrow> (BackupImportStatus \<Rightarrow> bool) \<Rightarrow> kubeState \<Rightarrow> kubeState \<Rightarrow> bool" where
  "storesStatus x Q s s' \<longleftrightarrow> s' = s \<or>
     (\<exists>y. ks_imps s (imp_key x) = Some x \<and> imp_key y = imp_key x \<and> bi_Spec y = bi_Spec x \<and> Q (bi_Status y) \<and>
        s' = put_imp y s)"

lemma storesStatus_mono: "storesStatus x P s s' \<Longrightarrow> (\<And>t. P t \<Longrightarrow> Q t) \<Longrightarrow> storesStatus x Q s s'"
  unfolding storesStatus_def by blast

lemma setImportPhase_simps [simp]:
  "bi_Meta (setImportPhase bi p) = bi_Meta bi" "bi_Spec (setImportPhase bi p) = bi_Spec bi"
  "bit_Phase (bi_Status (setImportPhase bi p)) = p"
  "bit_Committed (bi_Status (setImportPhase bi p)) = bit_Committed (bi_Status bi)"
  "bit_LastError (bi_Status (setImportPhase bi p)) = bit_LastError (bi_Status bi)"
  by (simp_all add: setImportPhase_def)

lemma setImportReady_simps [simp]:
  "bi_Meta (setImportReady K bi s reason msg w) = bi_Meta bi" "bi_Spec (setImportReady K bi s reason msg w) = bi_Spec bi"
  "bit_Phase (bi_Status (setImportReady K bi s reason msg w)) = bit_Phase (bi_Status bi)"
  "bit_Committed (bi_Status (setImportReady K bi s reason msg w)) = bit_Committed (bi_Status bi)"
  "bit_LastError (bi_Status (setImportReady K bi s reason msg w)) = bit_LastError (bi_Status bi)"
  by (simp_all add: setImportReady_def)

context kube_api
begin

lemma updateImportThen_stores:
  assumes "updateImportThen K bi res w = (r, w')" and "x \<in> ks_imp_seen (st w)" and "bi_Meta bi = bi_Meta x"
    and "Q (bi_Status bi)"
  shows "storesStatus x Q (st w) (st w')"
proof -
  obtain ur where u: "k_UpdateImportStatus K bi w = (ur, w')"
    using assms(1) by (auto simp: updateImportThen_def split: prod.splits sum.splits)
  have key: "imp_key x = imp_key bi" using assms(3) by (simp add: imp_key_def)
  show ?thesis
  proof (cases ur)
    case (Inl e)
    then show ?thesis using update_imp_err u by (auto simp: storesStatus_def)
  next
    case (Inr y)
    then show ?thesis
      using update_imp_current [OF u [unfolded Inr] assms(2) key] assms(3,4)
      by (auto simp: storesStatus_def key)
  qed
qed

lemma importWait_stores:
  assumes "importWait K bi reason msg w = (r, w')" and "x \<in> ks_imp_seen (st w)" and "bi_Meta bi = bi_Meta x"
  shows "storesStatus x (\<lambda>s. bit_Phase s = bit_Phase (bi_Status bi)) (st w) (st w')"
  by (rule updateImportThen_stores [OF assms(1) [unfolded importWait_def] assms(2)]) (simp_all add: assms(3))

lemma importTransient_stores:
  assumes "importTransient K bi reason cause w = (r, w')" and "x \<in> ks_imp_seen (st w)" and "bi_Meta bi = bi_Meta x"
  shows "storesStatus x (\<lambda>s. bit_Phase s = bit_Phase (bi_Status bi)) (st w) (st w')"
  by (rule updateImportThen_stores [OF assms(1) [unfolded importTransient_def Let_def] assms(2)]) (simp_all add: assms(3))

lemma importFailed_stores:
  assumes "importFailed K bi reason cause w = (r, w')" and "x \<in> ks_imp_seen (st w)" and "bi_Meta bi = bi_Meta x"
  shows "storesStatus x (\<lambda>s. bit_Phase s = ImportFailed \<and> bit_LastError s = ErrText cause) (st w) (st w')"
  by (rule updateImportThen_stores [OF assms(1) [unfolded importFailed_def Let_def] assms(2)]) (simp_all add: assms(3))

end

lemma updateImportThen_keeps [frames]: "kube_keeps K f \<Longrightarrow> keeps f (updateImportThen K bi res)"
  by (rule keepsI) (auto simp: updateImportThen_def split: prod.splits sum.splits dest: keepsD [OF kube_keepsD(4)])

lemma import_ends_keep:
  assumes "kube_keeps K f"
  shows "importWait K bi reason msg w = (r, w') \<Longrightarrow> f w' = f w"
    and "importTransient K bi reason e w = (r, w') \<Longrightarrow> f w' = f w"
    and "importFailed K bi reason e w = (r, w') \<Longrightarrow> f w' = f w"
  unfolding importWait_def importTransient_def importFailed_def Let_def
  by (erule keepsD [OF updateImportThen_keeps [OF assms]])+

lemma markImportStarted_simps:
  assumes "markImportStarted K bi w = (bi1, w1)"
  shows "bi_Meta bi1 = bi_Meta bi" "kube_reads_keep K f \<Longrightarrow> f w1 = f w"
  using assms by (auto simp: markImportStarted_def split: if_splits prod.splits dest: keepsD [OF kube_readsD(1)])


section \<open>The outcomes of a reconcile\<close>

text \<open>
  The document that a reconcile acts on was read from the local peat sidecar during the pass and
  is still there at its end.
\<close>

definition fetched :: "'w Env \<Rightarrow> ImportOptions \<Rightarrow> (string \<Rightarrow> 'w \<Rightarrow> string \<times> string \<rightharpoonup> string) \<Rightarrow> string \<Rightarrow> bytes \<Rightarrow>
    'w \<Rightarrow> bool" where
  "fetched E opts docs d s w' \<longleftrightarrow> (\<exists>pc v v1. NewClient (io_PeatAddress opts) = Inr pc \<and>
     GetDocument (env_Http E) pc (io_ManifestCollection opts) d v = (Inr (Some s), v1) \<and>
     (\<forall>a. docs a w' = docs a v1))"

text \<open>A committed pass of the importer, whose result is what the destination store holds.\<close>

definition importedBy :: "'w Env \<Rightarrow> ImportOptions \<Rightarrow> (Config \<Rightarrow> 'w \<Rightarrow> string \<rightharpoonup> bytes) \<Rightarrow> Manifest \<Rightarrow> 'w \<Rightarrow> bool" where
  "importedBy E opts objects m w' \<longleftrightarrow> (\<exists>ms v res v'. NewStore (env_SDK E) (io_DestStore opts) = Inr ms \<and>
     Import (env_sha256 E) (env_OS E) (inboxImporter opts ms) m v = ((res, None), v') \<and> res_Committed res \<and>
     objects (io_DestStore opts) w' = objects (io_DestStore opts) v')"

text \<open>What the new status of an import may be.\<close>

definition importOutcome :: "'w Env \<Rightarrow> ImportOptions \<Rightarrow> (string \<Rightarrow> 'w \<Rightarrow> string \<times> string \<rightharpoonup> string) \<Rightarrow>
    (Config \<Rightarrow> 'w \<Rightarrow> string \<rightharpoonup> bytes) \<Rightarrow> BackupImport \<Rightarrow> 'w \<Rightarrow> BackupImportStatus \<Rightarrow> bool" where
  "importOutcome E opts docs objects x w' s \<longleftrightarrow> importStep (bit_Phase (bi_Status x)) (bit_Phase s) \<and>
     (bit_Phase s = ImportImported \<longrightarrow> bit_Committed s \<and>
       (\<exists>d m. fetched E opts docs (bis_ManifestDocID (bi_Spec x)) d w' \<and> Parse d = Inr m \<and> mn_Complete m \<and>
          importedBy E opts objects m w')) \<and>
     (bit_Phase s = ImportFailed \<longrightarrow>
       (\<exists>d e. fetched E opts docs (bis_ManifestDocID (bi_Spec x)) d w' \<and> Parse d = Inl e \<and>
          bit_LastError s = ErrText e))"

text \<open>The destination store is touched by a pass of the importer over a complete manifest only.\<close>

definition storeTouched :: "'w Env \<Rightarrow> ImportOptions \<Rightarrow> (string \<Rightarrow> 'w \<Rightarrow> string \<times> string \<rightharpoonup> string) \<Rightarrow>
    (Config \<Rightarrow> 'w \<Rightarrow> string \<rightharpoonup> bytes) \<Rightarrow> string \<Rightarrow> 'w \<Rightarrow> 'w \<Rightarrow> bool" where
  "storeTouched E opts docs objects d w w' \<longleftrightarrow>
     (\<exists>s m ms v res err v'. fetched E opts docs d s w' \<and> Parse s = Inr m \<and> mn_Complete m \<and>
        NewStore (env_SDK E) (io_DestStore opts) = Inr ms \<and>
        Import (env_sha256 E) (env_OS E) (inboxImporter opts ms) m v = ((res, err), v') \<and>
        objects (io_DestStore opts) v = objects (io_DestStore opts) w \<and>
        objects (io_DestStore opts) w' = objects (io_DestStore opts) v')"

context controller_env
begin

lemma runImport_stores:
  assumes run: "runImport E opts x m ms w = (r, w')" and "NewStore (env_SDK E) (io_DestStore opts) = Inr ms"
    and x: "x \<in> ks_imp_seen (st w)"
  shows "storesStatus x (\<lambda>s. bit_Phase s = ImportImporting \<or>
      bit_Phase s = ImportImported \<and> bit_Committed s \<and> importedBy E opts objects m w') (st w) (st w')"
    and "\<exists>v res err v'. Import (env_sha256 E) (env_OS E) (inboxImporter opts ms) m v = ((res, err), v') \<and>
      objects cfg v = objects cfg w \<and> objects cfg w' = objects cfg v'"
proof -
  let ?K = "env_Kube E" and ?Q = "\<lambda>s. bit_Phase s = ImportImporting \<or>
      bit_Phase s = ImportImported \<and> bit_Committed s \<and> importedBy E opts objects m w'"
  obtain bi1 w1 where ms: "markImportStarted ?K x w = (bi1, w1)" by fastforce
  let ?bi3 = "setImportPhase bi1 ImportImporting
    \<lparr>bi_Status := (bi_Status (setImportPhase bi1 ImportImporting))\<lparr>bit_FilesTotal := int (length (mn_Files m))\<rparr>\<rparr>"
  obtain res err w2 where im: "Import (env_sha256 E) (env_OS E) (inboxImporter opts ms) m w1 = ((res, err), w2)"
    by (metis prod.exhaust)
  have "store_keeps (im_Store (inboxImporter opts ms)) st" using store_st [OF assms(2)] by (simp add: inboxImporter_def)
  from keepsD [OF Import_keeps [OF this] im] have st2: "st w2 = st w"
    using markImportStarted_simps(2) [OF ms reads_st] by simp
  note started = markImportStarted_simps [OF ms]
  have objs1: "objects c w1 = objects c w" for c by (rule started(2)) (rule kube_keepsD(1) [OF kube_objects])
  have seen: "x \<in> ks_imp_seen (st v)" if "st v = st w" for v using x that by simp
  have "storesStatus x ?Q (st w) (st w') \<and> objects cfg w' = objects cfg w2"
  proof (cases err)
    case (Some e)
    then have t: "importTransient ?K ?bi3 ''ImportFailed'' e w2 = (r, w')"
      using run ms im by (simp add: runImport_def Let_def)
    show ?thesis
      using storesStatus_mono [OF importTransient_stores [OF t seen [OF st2]], of ?Q] started(1) st2
        import_ends_keep(2) [OF kube_objects t] by simp
  next
    case None
    let ?bi4 = "?bi3\<lparr>bi_Status := (bi_Status ?bi3)\<lparr>bit_FilesImported := res_FilesImported res,
      bit_BytesImported := res_BytesImported res\<rparr>\<rparr>"
    show ?thesis
    proof (cases "res_Committed res")
      case False
      then have t: "updateImportThen ?K (setImportReady ?K ?bi4 ConditionFalse ''AwaitingBytes''
            (Fmt ''files imported, pending'' [res_FilesImported res, int (length (mn_Files m)), res_Pending res] []) w2)
          retryResult w2 = (r, w')"
        using run ms im None by (simp add: runImport_def Let_def)
      show ?thesis
        using updateImportThen_stores [OF t seen [OF st2], of ?Q] started(1) st2
          keepsD [OF updateImportThen_keeps [OF kube_objects] t] by simp
    next
      case True
      obtain now w3 where now: "k_Now ?K w2 = (now, w3)" by fastforce
      let ?bi5 = "?bi4\<lparr>bi_Status := (bi_Status ?bi4)\<lparr>bit_CompletedAt := Some now, bit_Committed := True\<rparr>\<rparr>"
      have t: "updateImportThen ?K (setImportReady ?K (setImportPhase ?bi5 ImportImported) ConditionTrue ''Imported''
          (Lit ''backup reconstructed into destination store and committed'') w3) doneResult w3 = (r, w')"
        using run ms im None True now by (simp add: runImport_def Let_def)
      have st3: "st w3 = st w" using now_frame [OF now] st2 by simp
      have objs: "objects c w' = objects c w2" for c
        using keepsD [OF updateImportThen_keeps [OF kube_objects] t] keepsD [OF kube_readsD(1) [OF kube_keepsD(1) [OF kube_objects]] now]
        by simp
      then have "importedBy E opts objects m w'"
        unfolding importedBy_def using assms(2) im None True by blast
      then show ?thesis
        using updateImportThen_stores [OF t seen [OF st3], of ?Q] started(1) st3 objs by simp
    qed
  qed
  then show "storesStatus x ?Q (st w) (st w')"
    and "\<exists>v res err v'. Import (env_sha256 E) (env_OS E) (inboxImporter opts ms) m v = ((res, err), v') \<and>
      objects cfg v = objects cfg w \<and> objects cfg w' = objects cfg v'"
    using im objs1 by blast+
qed

lemma runImport_docs:
  assumes run: "runImport E opts x m ms w = (r, w')" and "NewStore (env_SDK E) (io_DestStore opts) = Inr ms"
  shows "docs a w' = docs a w"
proof -
  have "keeps (docs a) (Import (env_sha256 E) (env_OS E) (inboxImporter opts ms) m)"
    using store_docs [OF assms(2)] by (intro Import_keeps) (simp add: inboxImporter_def)
  note fr = keepsD [OF this] keepsD [OF kube_readsD(1) [OF kube_keepsD(1) [OF kube_docs [where a = a]]]]
    import_ends_keep [OF kube_docs [where a = a]] keepsD [OF updateImportThen_keeps [OF kube_docs [where a = a]]]
    markImportStarted_simps(2) [OF _ kube_keepsD(1) [OF kube_docs [where a = a]]]
  show ?thesis
    using run by (auto simp: runImport_def Let_def split: prod.splits option.splits if_splits dest!: fr)
qed

lemma ReconcileImport_cases:
  assumes run: "ReconcileImport E opts ns name w = (r, w')"
  obtains (idle) "st w' = st w" "\<And>cfg. objects cfg w' = objects cfg w"
    | (acted) x where "x \<in> ks_imp_seen (st w)" "imp_key x = (ns, name)" "\<not> importTerminal (bit_Phase (bi_Status x))"
      "storesStatus x (importOutcome E opts docs objects x w') (st w) (st w')"
      "objects (io_DestStore opts) w' = objects (io_DestStore opts) w \<or>
       storeTouched E opts docs objects (bis_ManifestDocID (bi_Spec x)) w w'"
proof -
  let ?K = "env_Kube E" and ?cfg = "io_DestStore opts"
  obtain gr w1 where get: "k_GetImport ?K ns name w = (gr, w1)" by fastforce
  have st1: "st w1 = st w" using get_imp_frame [OF get] .
  have objs1: "objects cfg w1 = objects cfg w" for cfg
    using keepsD [OF kube_readsD(8) [OF kube_keepsD(1) [OF kube_objects]] get] .
  show ?thesis
  proof (cases "\<exists>x. gr = Inr x \<and> IsZero (om_DeletionTimestamp (bi_Meta x)) \<and> \<not> importTerminal (bit_Phase (bi_Status x))")
    case False
    then have "w' = w1" using run get by (auto simp: ReconcileImport_def Let_def split: sum.splits if_splits)
    then show ?thesis using idle st1 objs1 by simp
  next
    case True
    then obtain x where x: "gr = Inr x" "IsZero (om_DeletionTimestamp (bi_Meta x))"
      "\<not> importTerminal (bit_Phase (bi_Status x))" by blast
    let ?d = "bis_ManifestDocID (bi_Spec x)" and ?Q = "importOutcome E opts docs objects x w'"
    have seen: "x \<in> ks_imp_seen (st w)" "imp_key x = (ns, name)" using get_imp_seen [OF get [unfolded x(1)]] by auto
    obtain pc where pc: "NewClient (io_PeatAddress opts) = Inr pc" by (simp add: NewClient_def Let_def)
    obtain dr w2 where doc: "GetDocument (env_Http E) pc (io_ManifestCollection opts) ?d w1 = (dr, w2)" by fastforce
    have st2: "st w2 = st w" using keepsD [OF peat_keeps(3) [OF http_st] doc] st1 by simp
    have objs2: "objects cfg w2 = objects cfg w" for cfg
      using keepsD [OF peat_keeps(3) [OF http_objects] doc] objs1 by simp
    have x2: "x \<in> ks_imp_seen (st w2)" using seen st2 by simp
    have fetched: "fetched E opts docs ?d s w'" if "dr = Inr (Some s)" "\<And>a. docs a w' = docs a w2" for s
      unfolding fetched_def using pc doc that by blast
    note ends = import_ends_keep [OF kube_objects] import_ends_keep [OF kube_docs]
    have quiet: ?thesis if "storesStatus x ?Q (st w2) (st w')" "objects ?cfg w' = objects ?cfg w2"
      by (rule acted [OF seen x(3)]) (use that st2 objs2 in simp_all)
    have wait: ?thesis if t: "importWait ?K (setImportPhase x ImportPending) reason msg w2 = (r, w')" for reason msg
      by (rule quiet [OF storesStatus_mono [OF importWait_stores [OF t x2]]])
        (use x(3) ends(1) [OF t] in \<open>simp_all add: importOutcome_def importStep.wait\<close>)
    have transient: ?thesis if t: "importTransient ?K x reason e w2 = (r, w')" for reason e
      by (rule quiet [OF storesStatus_mono [OF importTransient_stores [OF t x2]]])
        (use x(3) ends(2) [OF t] in \<open>auto simp: importOutcome_def importStep.stay\<close>)
    consider (err) e where "dr = Inl e" | (absent) "dr = Inr None" | (found) s where "dr = Inr (Some s)"
      by (cases dr) (auto simp: split_option_ex)
    then show ?thesis
    proof cases
      case err
      then show ?thesis using run get x pc doc by (intro transient) (simp add: ReconcileImport_def Let_def)
    next
      case absent
      then show ?thesis using run get x pc doc by (intro wait) (simp add: ReconcileImport_def Let_def)
    next
      case (found s)
      show ?thesis
      proof (cases "Parse s")
        case (Inl e)
        then have t: "importFailed ?K x ''ManifestParseFailed'' e w2 = (r, w')"
          using run get x pc doc found by (simp add: ReconcileImport_def Let_def)
        show ?thesis
          by (rule quiet [OF storesStatus_mono [OF importFailed_stores [OF t x2]]])
            (use x(3) Inl fetched [OF found ends(6) [OF t]] ends(3) [OF t] in \<open>auto simp: importOutcome_def importStep.reject\<close>)
      next
        case m: (Inr m)
        consider (incomplete) "\<not> mn_Complete m" | (nostore) e where "mn_Complete m" "NewStore (env_SDK E) ?cfg = Inl e"
          | (store) ms where "mn_Complete m" "NewStore (env_SDK E) ?cfg = Inr ms"
          by (cases "NewStore (env_SDK E) ?cfg") auto
        then show ?thesis
        proof cases
          case incomplete
          then show ?thesis using run get x pc doc found m by (intro wait) (simp add: ReconcileImport_def Let_def)
        next
          case (nostore e)
          then show ?thesis using run get x pc doc found m by (intro transient) (simp add: ReconcileImport_def Let_def)
        next
          case (store ms)
          then have t: "runImport E opts x m ms w2 = (r, w')"
            using run get x pc doc found m by (simp add: ReconcileImport_def Let_def)
          have f: "fetched E opts docs ?d s w'" by (rule fetched [OF found runImport_docs [OF t store(2)]])
          show ?thesis
          proof (rule acted [OF seen x(3)])
            show "storesStatus x ?Q (st w) (st w')"
              unfolding st2 [symmetric]
              by (rule storesStatus_mono [OF runImport_stores(1) [OF t store(2) x2]])
                (use x(3) f m store(1) in \<open>auto simp: importOutcome_def importStep.run importStep.commit\<close>)
            show "objects ?cfg w' = objects ?cfg w \<or> storeTouched E opts docs objects ?d w w'"
              using runImport_stores(2) [OF t store(2) x2, of ?cfg] f m store objs2
              unfolding storeTouched_def by (metis (no_types))
          qed
        qed
      qed
    qed
  qed
qed

end


section \<open>Polling\<close>

text \<open>
  An import is due when it names a complete manifest of the collection; the bridge writes due
  imports only, and leaves the status of an existing one as it is.
\<close>

definition dueImport :: "string \<Rightarrow> (string \<times> string \<rightharpoonup> string) \<Rightarrow> string \<Rightarrow> BackupImport \<Rightarrow> bool" where
  "dueImport ns D coll j \<longleftrightarrow> (\<exists>d data m. D (coll, d) = Some data \<and> Parse data = Inr m \<and> mn_Complete m \<and>
     imp_key j = (ns, importName (mn_StorageLocation m) (mn_BackupName m)) \<and> bi_Spec j = importSpec m)"

inductive bridgeWrite :: "string \<Rightarrow> (string \<times> string \<rightharpoonup> string) \<Rightarrow> string \<Rightarrow> kubeState \<Rightarrow> kubeState \<Rightarrow> bool"
  for ns D coll where
  "dueImport ns D coll j \<Longrightarrow>
   bi_Status j = (case ks_imps s (imp_key j) of None \<Rightarrow> zeroImportStatus | Some i \<Rightarrow> bi_Status i) \<Longrightarrow>
   bridgeWrite ns D coll s (put_imp j s)"

inductive_cases bridgeWriteE: "bridgeWrite ns D coll s s'"

abbreviation bridgeWrites :: "string \<Rightarrow> (string \<times> string \<rightharpoonup> string) \<Rightarrow> string \<Rightarrow> kubeState \<Rightarrow> kubeState \<Rightarrow> bool" where
  "bridgeWrites ns D coll \<equiv> (bridgeWrite ns D coll)\<^sup>*\<^sup>*"

lemma bridgeWrites_due:
  assumes "bridgeWrites ns D coll s s'" and "ks_imps s k = Some j" and "dueImport ns D coll j"
  shows "\<exists>j'. ks_imps s' k = Some j' \<and> dueImport ns D coll j'"
  using assms(1)
proof (induction rule: rtranclp_induct)
  case base
  then show ?case using assms(2,3) by blast
next
  case (step t u)
  then show ?case by (auto elim!: bridgeWriteE)
qed

lemma bridgeWrites_frame:
  assumes "bridgeWrites ns D coll s s'"
  shows "ks_reps s' = ks_reps s \<and> ks_rep_seen s' = ks_rep_seen s \<and>
    (\<forall>k i. ks_imps s k = Some i \<longrightarrow> (\<exists>j. ks_imps s' k = Some j \<and> bi_Status j = bi_Status i))"
  using assms
proof (induction rule: rtranclp_induct)
  case (step t u)
  from step.hyps(2) obtain j where j: "u = put_imp j t"
    "bi_Status j = (case ks_imps t (imp_key j) of None \<Rightarrow> zeroImportStatus | Some i \<Rightarrow> bi_Status i)"
    by (auto elim: bridgeWriteE)
  have "\<exists>j'. ks_imps u k = Some j' \<and> bi_Status j' = bi_Status i" if "ks_imps s k = Some i" for k i
  proof -
    from step.IH that have "\<exists>i'. ks_imps t k = Some i' \<and> bi_Status i' = bi_Status i" by blast
    then show ?thesis using j by (cases "k = imp_key j") auto
  qed
  then show ?case using step.IH j(1) by simp
qed simp

context controller_env
begin

lemma ensureBackupImport_stores:
  assumes "ensureBackupImport (env_Kube E) opts m w = (er, w')"
  shows "(\<forall>e. er = Some e \<longrightarrow> st w' = st w) \<and>
    (er = None \<longrightarrow> (\<exists>j. imp_key j = (io_Namespace opts, importName (mn_StorageLocation m) (mn_BackupName m)) \<and>
       bi_Spec j = importSpec m \<and>
       bi_Status j = (case ks_imps (st w) (imp_key j) of None \<Rightarrow> zeroImportStatus | Some i \<Rightarrow> bi_Status i) \<and>
       st w' = put_imp j (st w)))"
proof -
  let ?i = "newImport (importName (mn_StorageLocation m) (mn_BackupName m)) (io_Namespace opts)"
  let ?g = "\<lambda>bi. Inr (bi\<lparr>bi_Spec := importSpec m\<rparr>) :: BackupImport result"
  have key: "imp_key ?i = (io_Namespace opts, importName (mn_StorageLocation m) (mn_BackupName m))"
    by (simp add: imp_key_def meta_key_def newImport_def newMeta_def)
  obtain cr where c: "k_CreateOrUpdateImport (env_Kube E) ?i ?g w = (cr, w')" "er = None \<longleftrightarrow> \<not> isl cr"
    using assms by (auto simp: ensureBackupImport_def split: prod.splits sum.splits)
  show ?thesis
  proof (cases cr)
    case (Inl e)
    then show ?thesis using c ensure_imp_err by auto
  next
    case (Inr op)
    then obtain z j where "?g (case ks_imps (st w) (imp_key ?i) of None \<Rightarrow> ?i | Some old \<Rightarrow> old) = Inr z"
      "imp_key j = imp_key ?i" "bi_Spec j = bi_Spec z"
      "bi_Status j = (case ks_imps (st w) (imp_key ?i) of None \<Rightarrow> zeroImportStatus | Some old \<Rightarrow> bi_Status old)"
      "st w' = put_imp j (st w)"
      using ensure_imp_ok [OF c(1) [unfolded Inr]] by blast
    then show ?thesis using c(2) Inr key by (intro conjI impI exI [of _ j]) auto
  qed
qed

lemma ensureBackupImport_docs:
  "ensureBackupImport (env_Kube E) opts m w = (er, w') \<Longrightarrow> docs a w' = docs a w"
  by (auto simp: ensureBackupImport_def split: prod.splits sum.splits
      dest: keepsD [OF kube_keepsD(5) [OF kube_docs [where a = a]]])

text \<open>One document: what it writes is due, and a complete manifest gets its import unless a logged call failed.\<close>

lemma pollDocument_outcome:
  assumes run: "pollDocument E opts pc d w = (evs, w')"
    and "valid_utf8 (io_ManifestCollection opts)" and "valid_utf8 d"
    and D: "D = docs (cc_baseURL pc) w"
  shows "docs (cc_baseURL pc) w' = D"
    and "bridgeWrites (io_Namespace opts) D (io_ManifestCollection opts) (st w) (st w')"
    and "D (io_ManifestCollection opts, d) = Some data \<Longrightarrow> Parse data = Inr m \<Longrightarrow> mn_Complete m \<Longrightarrow>
      (\<exists>e. GetFailed d e \<in> set evs) \<or> (\<exists>e. EnsureFailed d e \<in> set evs) \<or>
      (\<exists>j. ks_imps (st w') (io_Namespace opts, importName (mn_StorageLocation m) (mn_BackupName m)) = Some j \<and>
         dueImport (io_Namespace opts) D (io_ManifestCollection opts) j)"
proof -
  let ?col = "io_ManifestCollection opts" and ?ns = "io_Namespace opts"
  let ?done = "\<lambda>data m. (\<exists>e. GetFailed d e \<in> set evs) \<or> (\<exists>e. EnsureFailed d e \<in> set evs) \<or>
      (\<exists>j. ks_imps (st w') (?ns, importName (mn_StorageLocation m) (mn_BackupName m)) = Some j \<and> dueImport ?ns D ?col j)"
  obtain dr w1 where doc: "GetDocument (env_Http E) pc ?col d w = (dr, w1)" by fastforce
  have st1: "st w1 = st w" using keepsD [OF peat_keeps(3) [OF http_st] doc] .
  have docs1: "docs (cc_baseURL pc) w1 = D" using peat_documents.reads_docs(1) [OF peat refl doc] D by simp
  have got: "D (?col, d) = x" if "dr = Inr x" for x
    using peat_documents.GetDocument_ok [OF peat doc [unfolded that] refl assms(2,3)] D by simp
  have "docs (cc_baseURL pc) w' = D \<and> bridgeWrites ?ns D ?col (st w) (st w') \<and>
    (\<forall>data m. D (?col, d) = Some data \<longrightarrow> Parse data = Inr m \<longrightarrow> mn_Complete m \<longrightarrow> ?done data m)"
  proof (cases "\<exists>data m. dr = Inr (Some data) \<and> Parse data = Inr m \<and> mn_Complete m")
    case False
    then have "w' = w1" using run doc by (auto simp: pollDocument_def split: sum.splits option.splits if_splits)
    moreover have "\<exists>e. evs = [GetFailed d e]" if "dr = Inl e" for e using run doc that by (auto simp: pollDocument_def)
    ultimately show ?thesis using False st1 docs1 got by (cases dr) auto
  next
    case True
    then obtain data m where m: "dr = Inr (Some data)" "Parse data = Inr m" "mn_Complete m" by blast
    obtain er w2 where e: "ensureBackupImport (env_Kube E) opts m w1 = (er, w2)" by fastforce
    have w': "w' = w2" "er = Some err \<Longrightarrow> evs = [EnsureFailed d err]" for err
      using run doc m e by (auto simp: pollDocument_def split: option.splits)
    note ens = ensureBackupImport_stores [OF e]
    show ?thesis
    proof (cases er)
      case (Some err)
      then show ?thesis using w' ens st1 docs1 ensureBackupImport_docs [OF e] got m by auto
    next
      case None
      then obtain j where j: "imp_key j = (?ns, importName (mn_StorageLocation m) (mn_BackupName m))"
        "bi_Spec j = importSpec m"
        "bi_Status j = (case ks_imps (st w1) (imp_key j) of None \<Rightarrow> zeroImportStatus | Some i \<Rightarrow> bi_Status i)"
        "st w' = put_imp j (st w1)" using ens w' by blast
      have due: "dueImport ?ns D ?col j" unfolding dueImport_def using got [OF m(1)] m(2,3) j(1,2) by blast
      then have "bridgeWrite ?ns D ?col (st w) (st w')" using j(3,4) st1 by (auto intro: bridgeWrite.intros)
      then show ?thesis using got [OF m(1)] m due j(1,4) docs1 ensureBackupImport_docs [OF e] w' by auto
    qed
  qed
  then show "docs (cc_baseURL pc) w' = D" "bridgeWrites ?ns D ?col (st w) (st w')"
    and "D (?col, d) = Some data \<Longrightarrow> Parse data = Inr m \<Longrightarrow> mn_Complete m \<Longrightarrow> ?done data m"
    by blast+
qed

lemma pollDocuments_outcome:
  assumes "valid_utf8 (io_ManifestCollection opts)"
  shows "pollDocuments E opts pc ids w = (evs, w') \<Longrightarrow> list_all valid_utf8 ids \<Longrightarrow> docs (cc_baseURL pc) w = D \<Longrightarrow>
    docs (cc_baseURL pc) w' = D \<and>
    bridgeWrites (io_Namespace opts) D (io_ManifestCollection opts) (st w) (st w') \<and>
    (\<forall>d data m. d \<in> set ids \<and> D (io_ManifestCollection opts, d) = Some data \<and> Parse data = Inr m \<and> mn_Complete m \<longrightarrow>
      (\<exists>e. GetFailed d e \<in> set evs) \<or> (\<exists>e. EnsureFailed d e \<in> set evs) \<or>
      (\<exists>j. ks_imps (st w') (io_Namespace opts, importName (mn_StorageLocation m) (mn_BackupName m)) = Some j \<and>
         dueImport (io_Namespace opts) D (io_ManifestCollection opts) j))"
proof (induction ids arbitrary: evs w)
  case (Cons d ds)
  let ?ns = "io_Namespace opts" and ?col = "io_ManifestCollection opts"
  obtain evs1 w1 evs2 where run: "pollDocument E opts pc d w = (evs1, w1)" "pollDocuments E opts pc ds w1 = (evs2, w')"
    "evs = evs1 @ evs2" using Cons.prems(1) by (auto split: prod.splits)
  have utf: "valid_utf8 d" "list_all valid_utf8 ds" using Cons.prems(2) by simp_all
  note one = pollDocument_outcome [OF run(1) assms utf(1) Cons.prems(3) [symmetric]]
  note IH = Cons.IH [OF run(2) utf(2) one(1)]
  have head: "(\<exists>e. GetFailed d e \<in> set evs) \<or> (\<exists>e. EnsureFailed d e \<in> set evs) \<or>
      (\<exists>j. ks_imps (st w') (?ns, importName (mn_StorageLocation m) (mn_BackupName m)) = Some j \<and> dueImport ?ns D ?col j)"
    if "D (?col, d) = Some data" "Parse data = Inr m" "mn_Complete m" for data m
    using one(3) [OF that] bridgeWrites_due [OF conjunct1 [OF conjunct2 [OF IH]]] run(3) by fastforce
  have writes: "bridgeWrites ?ns D ?col (st w) (st w')"
    by (rule rtranclp_trans [OF one(2) conjunct1 [OF conjunct2 [OF IH]]])
  have tail: "(\<exists>e. GetFailed d' e \<in> set evs) \<or> (\<exists>e. EnsureFailed d' e \<in> set evs) \<or>
      (\<exists>j. ks_imps (st w') (?ns, importName (mn_StorageLocation m) (mn_BackupName m)) = Some j \<and> dueImport ?ns D ?col j)"
    if "d' \<in> set ds" "D (?col, d') = Some data" "Parse data = Inr m" "mn_Complete m" for d' data m
    using conjunct2 [OF conjunct2 [OF IH], rule_format, of d' data m] that run(3) by auto
  show ?case using conjunct1 [OF IH] writes head tail by (metis set_ConsD)
qed simp

lemma poll_outcome:
  assumes run: "poll E opts pc w = (evs, w')" and "valid_utf8 (io_ManifestCollection opts)"
    and D: "D = docs (cc_baseURL pc) w"
    and "\<forall>d. D (io_ManifestCollection opts, d) \<noteq> None \<longrightarrow> valid_utf8 d"
  shows "docs (cc_baseURL pc) w' = D"
    and "bridgeWrites (io_Namespace opts) D (io_ManifestCollection opts) (st w) (st w')"
    and "D (io_ManifestCollection opts, d) = Some data \<Longrightarrow> Parse data = Inr m \<Longrightarrow> mn_Complete m \<Longrightarrow>
      (\<exists>e. ListFailed e \<in> set evs \<or> GetFailed d e \<in> set evs \<or> EnsureFailed d e \<in> set evs) \<or>
      (\<exists>j. ks_imps (st w') (io_Namespace opts, importName (mn_StorageLocation m) (mn_BackupName m)) = Some j \<and>
         dueImport (io_Namespace opts) D (io_ManifestCollection opts) j)"
proof -
  obtain evs0 w1 where peer: "ensureReversePeer (env_Http E) opts pc w = (evs0, w1)" by fastforce
  have st1: "st w1 = st w" and docs1: "docs (cc_baseURL pc) w1 = D"
    using peer keepsD [OF peat_keeps(1) [OF http_st]] peat_documents.reads_docs(3) [OF peat refl] D
    by (auto simp: ensureReversePeer_def split: if_splits prod.splits sum.splits)
  obtain lr w2 where lst: "ListDocuments (env_Http E) pc (io_ManifestCollection opts) w1 = (lr, w2)" by fastforce
  have st2: "st w2 = st w" and docs2: "docs (cc_baseURL pc) w2 = D"
    using keepsD [OF peat_keeps(4) [OF http_st] lst] st1 peat_documents.reads_docs(2) [OF peat refl lst] docs1 by simp_all
  have "docs (cc_baseURL pc) w' = D \<and> bridgeWrites (io_Namespace opts) D (io_ManifestCollection opts) (st w) (st w') \<and>
    (\<forall>d data m. D (io_ManifestCollection opts, d) = Some data \<and> Parse data = Inr m \<and> mn_Complete m \<longrightarrow>
      (\<exists>e. ListFailed e \<in> set evs \<or> GetFailed d e \<in> set evs \<or> EnsureFailed d e \<in> set evs) \<or>
      (\<exists>j. ks_imps (st w') (io_Namespace opts, importName (mn_StorageLocation m) (mn_BackupName m)) = Some j \<and>
         dueImport (io_Namespace opts) D (io_ManifestCollection opts) j))"
  proof (cases lr)
    case (Inl e)
    then show ?thesis using run peer lst st2 docs2 by (auto simp: poll_def)
  next
    case (Inr ids)
    obtain evs' w3 where docs: "pollDocuments E opts pc ids w2 = (evs', w3)" by fastforce
    have fin: "evs = evs0 @ evs'" "w' = w3" using run peer lst Inr docs by (simp_all add: poll_def)
    have ids: "set ids = {d. D (io_ManifestCollection opts, d) \<noteq> None}"
      using peat_documents.ListDocuments_ok [OF peat lst [unfolded Inr] refl assms(2)] docs1 by simp
    then have "list_all valid_utf8 ids" using assms(4) by (auto simp: list_all_iff)
    note all = pollDocuments_outcome [OF assms(2) docs this docs2]
    have "(\<exists>e. ListFailed e \<in> set evs \<or> GetFailed d e \<in> set evs \<or> EnsureFailed d e \<in> set evs) \<or>
      (\<exists>j. ks_imps (st w') (io_Namespace opts, importName (mn_StorageLocation m) (mn_BackupName m)) = Some j \<and>
         dueImport (io_Namespace opts) D (io_ManifestCollection opts) j)"
      if "D (io_ManifestCollection opts, d) = Some data" "Parse data = Inr m" "mn_Complete m" for d data m
      using conjunct2 [OF conjunct2 [OF all], rule_format, of d data m] that ids unfolding fin by auto
    then show ?thesis using conjunct1 [OF all] conjunct1 [OF conjunct2 [OF all]] unfolding fin(2) st2 by blast
  qed
  then show "docs (cc_baseURL pc) w' = D" "bridgeWrites (io_Namespace opts) D (io_ManifestCollection opts) (st w) (st w')"
    and "D (io_ManifestCollection opts, d) = Some data \<Longrightarrow> Parse data = Inr m \<Longrightarrow> mn_Complete m \<Longrightarrow>
      (\<exists>e. ListFailed e \<in> set evs \<or> GetFailed d e \<in> set evs \<or> EnsureFailed d e \<in> set evs) \<or>
      (\<exists>j. ks_imps (st w') (io_Namespace opts, importName (mn_StorageLocation m) (mn_BackupName m)) = Some j \<and>
         dueImport (io_Namespace opts) D (io_ManifestCollection opts) j)"
    by blast+
qed

end


text \<open>Whatever the documents are, a poll changes no status: it only adds imports that have not started.\<close>

definition importStatusOf :: "kubeState \<Rightarrow> okey \<Rightarrow> BackupImportStatus" where
  "importStatusOf s k = (case ks_imps s k of None \<Rightarrow> zeroImportStatus | Some i \<Rightarrow> bi_Status i)"

definition statusesKept :: "kubeState \<Rightarrow> kubeState \<Rightarrow> bool" where
  "statusesKept s s' \<longleftrightarrow> ks_reps s' = ks_reps s \<and> importStatusOf s' = importStatusOf s \<and>
     dom (ks_imps s) \<subseteq> dom (ks_imps s')"

lemma statusesKept_refl [simp]: "statusesKept s s"
  by (simp add: statusesKept_def)

lemma statusesKept_trans: "statusesKept s t \<Longrightarrow> statusesKept t u \<Longrightarrow> statusesKept s u"
  unfolding statusesKept_def by auto

lemma statusesKept_put:
  "bi_Status j = importStatusOf s (imp_key j) \<Longrightarrow> statusesKept s (put_imp j s)"
  by (auto simp: statusesKept_def importStatusOf_def fun_eq_iff)

context controller_env
begin

lemma pollDocument_statuses: "pollDocument E opts pc d w = (evs, w') \<Longrightarrow> statusesKept (st w) (st w')"
proof -
  have ensure: "statusesKept (st v) (st v')" if "ensureBackupImport (env_Kube E) opts m v = (er, v')" for m v er v'
    using ensureBackupImport_stores [OF that]
    by (cases er) (auto simp: importStatusOf_def intro!: statusesKept_put)
  assume "pollDocument E opts pc d w = (evs, w')"
  then show ?thesis
    by (auto simp: pollDocument_def split: prod.splits sum.splits option.splits if_splits
        dest!: ensure keepsD [OF peat_keeps(3) [OF http_st]])
qed

lemma poll_statuses:
  assumes "poll E opts pc w = (evs, w')"
  shows "statusesKept (st w) (st w')"
proof -
  have docs: "pollDocuments E opts pc ids v = (es, v') \<Longrightarrow> statusesKept (st v) (st v')" for ids v es v'
    by (induction ids arbitrary: v es)
      (auto split: prod.splits dest!: pollDocument_statuses intro: statusesKept_trans)
  have peer: "st v' = st v" if "ensureReversePeer (env_Http E) opts pc v = (es, v')" for v es v'
    using that by (auto simp: ensureReversePeer_def split: if_splits prod.splits sum.splits
        dest: keepsD [OF peat_keeps(1) [OF http_st]])
  show ?thesis
    using assms by (auto simp: poll_def split: prod.splits sum.splits
        dest!: docs peer keepsD [OF peat_keeps(4) [OF http_st]])
qed

end


section \<open>The loop of the bridge\<close>

text \<open>
  When every tick and every poll is a run of some steps, so is the loop, and it ends in the tick
  that finds the context ended.
\<close>

lemma bridgeLoop_run:
  assumes ret: "bridgeLoop sel body w = Some w'"
    and "\<And>v e v'. sel v = (e, v') \<Longrightarrow> R\<^sup>*\<^sup>* v v'" and "\<And>v. R\<^sup>*\<^sup>* v (body v)"
  shows "\<exists>v. R\<^sup>*\<^sup>* w v \<and> sel v = (True, w')"
proof -
  have "(\<forall>v e v'. sel v = (e, v') \<longrightarrow> R\<^sup>*\<^sup>* v v') \<longrightarrow> (\<forall>v. R\<^sup>*\<^sup>* v (body v)) \<longrightarrow> (\<exists>v. R\<^sup>*\<^sup>* w v \<and> sel v = (True, w'))"
  proof (rule bridgeLoop.raw_induct [where P = "\<lambda>sel body w w'. (\<forall>v e v'. sel v = (e, v') \<longrightarrow> R\<^sup>*\<^sup>* v v') \<longrightarrow>
      (\<forall>v. R\<^sup>*\<^sup>* v (body v)) \<longrightarrow> (\<exists>v. R\<^sup>*\<^sup>* w v \<and> sel v = (True, w'))", OF _ ret], intro impI)
    fix loop sel body w w'
    assume IH: "\<And>sel body w w'. loop sel body w = Some w' \<Longrightarrow> (\<forall>v e v'. sel v = (e, v') \<longrightarrow> R\<^sup>*\<^sup>* v v') \<longrightarrow>
        (\<forall>v. R\<^sup>*\<^sup>* v (body v)) \<longrightarrow> (\<exists>v. R\<^sup>*\<^sup>* w v \<and> sel v = (True, w'))"
      and step: "(case sel w of (ended, w1) \<Rightarrow> if ended then Some w1 else loop sel body (body w1)) = Some w'"
      and runs: "\<forall>v e v'. sel v = (e, v') \<longrightarrow> R\<^sup>*\<^sup>* v v'" "\<forall>v. R\<^sup>*\<^sup>* v (body v)"
    obtain ended w1 where s: "sel w = (ended, w1)" by fastforce
    show "\<exists>v. R\<^sup>*\<^sup>* w v \<and> sel v = (True, w')"
    proof (cases ended)
      case True
      then show ?thesis using step s by auto
    next
      case False
      have "R\<^sup>*\<^sup>* w (body w1)" using runs s by (meson rtranclp_trans)
      moreover obtain v where "R\<^sup>*\<^sup>* (body w1) v" "sel v = (True, w')"
        using IH [of sel body "body w1" w'] runs step s False by auto
      ultimately show ?thesis by (meson rtranclp_trans)
    qed
  qed
  then show ?thesis using assms(2,3) by blast
qed

end
