(* ===== verification/Import_Properties.thy ===== *)
theory Import_Properties
  imports Import_Controller Replication_Properties
begin

text \<open>
  The theorems on the destination role: the phase machine of an import, what holds when a
  backup is declared imported or its manifest rejected, that landed backups are imported, and
  what a poll of the bridge writes. The example of the replication controller is carried on to
  an import into the same bucket under another prefix, for the witnesses.
\<close>


section \<open>A landed backup\<close>

text \<open>
  A reconcile of an import whose manifest is there and complete, and whose files have landed,
  comes to the update that declares it imported.
\<close>

context controller_env
begin

lemma landed_run:
  assumes get: "k_GetImport (env_Kube E) ns name w = (Inr bi, w1)"
    and bi: "IsZero (om_DeletionTimestamp (bi_Meta bi))" "\<not> importTerminal (bit_Phase (bi_Status bi))"
    and pc: "NewClient (io_PeatAddress opts) = Inr pc"
    and doc: "GetDocument (env_Http E) pc (io_ManifestCollection opts) (bis_ManifestDocID (bi_Spec bi)) w1 = (Inr (Some d), w2)"
    and m: "Parse d = Inr m" "mn_Complete m"
    and ms: "NewStore (env_SDK E) (io_DestStore opts) = Inr ms"
    and live: "live_store (minio_Store ms) canon objs I" "I w2" "\<forall>v t v'. I v \<and> k_Now (env_Kube E) v = (t, v') \<longrightarrow> I v'"
    and landed: "\<forall>v. \<forall>e \<in> set (mn_Files m). I v \<longrightarrow> landedAt (env_sha256 E) (env_OS E) (io_InboxRoot opts) v e"
  shows "\<exists>z v ur w'. bi_Meta z = bi_Meta bi \<and> bit_Phase (bi_Status z) = ImportImported \<and> st v = st w \<and>
    k_UpdateImportStatus (env_Kube E) z v = (ur, w') \<and> docs (cc_baseURL pc) w' = docs (cc_baseURL pc) w \<and>
    importedBy E opts objects m w' \<and>
    ReconcileImport E opts ns name w =
      (case ur of Inl e \<Rightarrow> ((doneResult, Some e), w') | Inr y \<Rightarrow> ((doneResult, None), w'))"
proof -
  let ?K = "env_Kube E"
  obtain bi1 w3 where mk: "markImportStarted ?K bi w2 = (bi1, w3)" by fastforce
  have "I w3" using mk live(2,3) unfolding markImportStarted_def by (auto split: if_splits prod.splits)
  from live_store.Import_live [OF live(1) this, of "inboxImporter opts ms" m "env_sha256 E" "env_OS E"]
  obtain res w4 where im: "Import (env_sha256 E) (env_OS E) (inboxImporter opts ms) m w3 = ((res, None), w4)" "res_Committed res"
    using landed by (auto simp: inboxImporter_def)
  obtain now w5 where now: "k_Now ?K w4 = (now, w5)" by fastforce
  have run: "ReconcileImport E opts ns name w = runImport E opts bi m ms w2"
    using get bi pc doc m ms by (simp add: ReconcileImport_def Let_def)
  define bi4 where "bi4 = (let b = setImportPhase bi1 ImportImporting;
      b3 = b\<lparr>bi_Status := (bi_Status b)\<lparr>bit_FilesTotal := int (length (mn_Files m))\<rparr>\<rparr>
    in b3\<lparr>bi_Status := (bi_Status b3)\<lparr>bit_FilesImported := res_FilesImported res, bit_BytesImported := res_BytesImported res\<rparr>\<rparr>)"
  define z where "z = setImportReady ?K (setImportPhase
      (bi4\<lparr>bi_Status := (bi_Status bi4)\<lparr>bit_CompletedAt := Some now, bit_Committed := True\<rparr>\<rparr>) ImportImported)
      ConditionTrue ''Imported'' (Lit ''backup reconstructed into destination store and committed'') w5"
  have z: "bi_Meta z = bi_Meta bi" "bit_Phase (bi_Status z) = ImportImported"
    using markImportStarted_simps(1) [OF mk] by (simp_all add: z_def bi4_def Let_def)
  obtain ur w' where u: "k_UpdateImportStatus ?K z w5 = (ur, w')" by fastforce
  have "store_keeps (im_Store (inboxImporter opts ms)) st" using store_st [OF ms] by (simp add: inboxImporter_def)
  from keepsD [OF Import_keeps [OF this] im(1)] have "st w5 = st w"
    using now_frame [OF now] markImportStarted_simps(2) [OF mk reads_st] keepsD [OF peat_keeps(3) [OF http_st] doc]
      get_imp_frame [OF get] by simp
  moreover have fin: "runImport E opts bi m ms w2 = updateImportThen ?K z doneResult w5"
    using mk im now by (simp add: runImport_def Let_def z_def bi4_def)
  moreover have "docs (cc_baseURL pc) w' = docs (cc_baseURL pc) w"
  proof -
    obtain r where "runImport E opts bi m ms w2 = (r, w')" using fin u by (auto simp: updateImportThen_def split: sum.splits)
    then show ?thesis
      using runImport_docs [OF _ ms] peat_documents.reads_docs(1) [OF peat refl doc]
        keepsD [OF kube_readsD(8) [OF kube_keepsD(1) [OF kube_docs]] get] by metis
  qed
  moreover have "importedBy E opts objects m w'"
    unfolding importedBy_def
    using ms im keepsD [OF kube_readsD(1) [OF kube_keepsD(1) [OF kube_objects]] now]
      keepsD [OF kube_keepsD(4) [OF kube_objects] u] by (metis (no_types))
  ultimately show ?thesis
    using z u run by (intro exI [of _ z] exI [of _ w5] exI [of _ ur] exI [of _ w']) (auto simp: updateImportThen_def split: sum.split)
qed

lemma fetched_doc:
  assumes "fetched E opts docs d s w'" and "valid_utf8 (io_ManifestCollection opts)" and "valid_utf8 d"
  shows "\<exists>pc. NewClient (io_PeatAddress opts) = Inr pc \<and> docs (cc_baseURL pc) w' (io_ManifestCollection opts, d) = Some s"
proof -
  obtain pc v v1 where f: "NewClient (io_PeatAddress opts) = Inr pc"
    "GetDocument (env_Http E) pc (io_ManifestCollection opts) d v = (Inr (Some s), v1)" "\<forall>a. docs a w' = docs a v1"
    using assms(1) unfolding fetched_def by blast
  from peat_documents.GetDocument_ok [OF peat f(2) refl assms(2,3)] f(1,3) show ?thesis by auto
qed

lemma imported_present:
  assumes "importedBy E opts objects m w'"
  shows "\<exists>ms. NewStore (env_SDK E) (io_DestStore opts) = Inr ms \<and>
    (sizesAgree (fullKey (ms_prefix ms)) (mn_Files m) \<longrightarrow>
      (\<forall>e \<in> set (mn_Files m). presentAt (\<lambda>w k. objects (io_DestStore opts) w (fullKey (ms_prefix ms) k)) w' e))"
proof -
  obtain ms v res v' where im: "NewStore (env_SDK E) (io_DestStore opts) = Inr ms"
    "Import (env_sha256 E) (env_OS E) (inboxImporter opts ms) m v = ((res, None), v')" "res_Committed res"
    "objects (io_DestStore opts) w' = objects (io_DestStore opts) v'"
    using assms unfolding importedBy_def by blast
  have "im_Store (inboxImporter opts ms) = minio_Store ms" by (simp add: inboxImporter_def)
  from object_store.Import_committed_present [OF store_contract [OF im(1)] im(2) this _ im(3)] im(1,4)
  show ?thesis by (auto simp: presentAt_def)
qed

end


section \<open>The example, continued\<close>

definition exImport :: BackupImport where
  "exImport = (newImport ''default-b'' ''velero'')\<lparr>bi_Meta := (newMeta ''default-b'' ''velero'')\<lparr>om_ResourceVersion := ''0''\<rparr>,
     bi_Spec := importSpec runManifest\<rparr>"

definition exArrived :: kubeworld where
  "exArrived = exShipped\<lparr>kw_imps := [exImport]\<rparr>"

definition exOptions :: ImportOptions where
  "exOptions = \<lparr>io_PeatAddress = ''http://peat:50051'', io_InboxRoot = ''/inbox'', io_ManifestCollection = Collection,
     io_Namespace = ''velero'', io_PollInterval = 30 * 1000000000,
     io_DestStore = zeroConfig\<lparr>cfg_Endpoint := ''https://minio.svc:9000'', cfg_Bucket := ''velero'', cfg_Prefix := ''restore''\<rparr>,
     io_SourceEndpointID = '''', io_SourceAddresses = [], io_SourceRelayURL = ''''\<rparr>"

definition exDest :: "kubeworld minioStore" where
  "exDest = \<lparr>ms_client = mem_client ''velero'', ms_bucket = ''velero'', ms_prefix = ''restore''\<rparr>"

lemma exDest_new: "NewStore (mem_sdk ''velero'') (io_DestStore exOptions) = Inr exDest"
proof -
  have "normalizeEndpoint ''https://minio.svc:9000'' = (''minio.svc:9000'', True)" "trim ''restore'' ''/'' = ''restore''"
    by code_simp+
  then show ?thesis
    by (simp add: NewStore_def tlsOptions_def mem_sdk_def exOptions_def exDest_def zeroConfig_def)
qed

lemma exImport_simps:
  "bis_ManifestDocID (bi_Spec exImport) = ''default/b''" "imp_key exImport = (''velero'', ''default-b'')"
  "bit_Phase (bi_Status exImport) = ImportUnset" "om_DeletionTimestamp (bi_Meta exImport) = None"
  by (simp_all add: exImport_def importSpec_def newImport_def newMeta_def imp_key_def meta_key_def zeroImportStatus_def
      DocID_def runManifest_def replicationManifest_def exItem_def)

lemma exArrived_import: "findImp exArrived (''velero'', ''default-b'') = Some exImport"
proof -
  have "stamp 0 (bi_Meta exImport) = bi_Meta exImport" by (simp add: exImport_def stamp_def newMeta_def) code_simp
  then show ?thesis using exImport_simps(2) by (simp add: findImp_def exArrived_def)
qed

lemma exArrived_fields:
  "pn_docs exArrived = [((Collection, ''default/b''), json_print (encManifest runManifest))]"
  "mf_files exArrived = exFiles @ exLanded"
  by (simp_all add: exArrived_def exShipped_def exCommitted_def exPublished_def exSentWorld_def)

lemma exArrived_get: "k_GetImport mem_kube ''velero'' ''default-b'' exArrived = (Inr exImport, exArrived)"
  by (simp add: mem_kube_def exArrived_import found_def)

lemma exArrived_doc: "GetDocument mem_http exPeat Collection ''default/b'' exArrived =
    (Inr (Some (json_print (encManifest runManifest))), exArrived)"
proof -
  have "valid_utf8 (json_print (encManifest runManifest))" by (rule json_print_utf8) (rule encManifest_ok [OF exEntries_ok(1)])
  then show ?thesis
    using GetDocument_mem_http [of Collection "''default/b''" exArrived exPeat] by (simp add: exArrived_fields Collection_def)
qed

lemma exParse: "Parse (json_print (encManifest runManifest)) = Inr runManifest" "mn_Complete runManifest"
  using exEntries_ok
  by (simp add: Parse_def unmarshal_manifest del: json_print.simps) (simp add: runManifest_def replicationManifest_def)

lemma exFiles_landed:
  assumes "mf_files v = mf_files exArrived" and "e \<in> set (mn_Files runManifest)"
  shows "landedAt exSum mem_os ''/inbox'' v e"
proof -
  have paths: "primaryPath ''/inbox'' (handleEntry (exSpecs ! 0) (exHandle 0)) = ''/inbox/b-0000-d0/velero-backup.json''"
    "primaryPath ''/inbox'' (handleEntry (exSpecs ! 1) (exHandle 1)) = ''/inbox/b-0000-d1/p0''"
    by code_simp+
  have "e = handleEntry (exSpecs ! 0) (exHandle 0) \<or> e = handleEntry (exSpecs ! 1) (exHandle 1)"
    using assms(2) by (auto simp: runManifest_def replicationManifest_def exEntries_def)
  then show ?thesis
    using assms(1) paths
    by (auto simp: landedAt_def mem_os_def exArrived_fields exFiles_def exLanded_def entryVerified_def handleEntry_def
        exSpecs_def exSpecOf_def exHandle_def node_dist_def int64_round in_int64_def)
qed

lemma exDest_live: "live_store (minio_Store exDest) (fullKey ''restore'') (\<lambda>w k. mem_store w (fullKey ''restore'' k))
    (\<lambda>w. mf_files w = mf_files exArrived)"
  using mem_live.live_store_axioms [of "''velero''" "''restore''" "mf_files exArrived"] by (simp add: exDest_def)

text \<open>In this cluster the update goes through.\<close>

lemma exImport_update:
  assumes "bi_Meta z = bi_Meta exImport" and "findImp v (''velero'', ''default-b'') = Some exImport"
  shows "\<exists>y v'. mem_UpdateImportStatus z v = (Inr y, v') \<and> findImp v' (''velero'', ''default-b'') = Some y \<and>
    bi_Spec y = bi_Spec exImport \<and> bi_Status y = bi_Status z"
proof -
  have key: "imp_key z = (''velero'', ''default-b'')" using assms(1) exImport_simps(2) by (simp add: imp_key_def)
  obtain ur v' where u: "mem_UpdateImportStatus z v = (ur, v')" by fastforce
  then obtain y where y: "ur = Inr y" using key assms by (auto simp: mem_UpdateImportStatus_def Let_def)
  then have "mem_st v' = put_imp y (mem_st v)" "imp_key y = imp_key z" "bi_Spec y = bi_Spec exImport" "bi_Status y = bi_Status z"
    using mem_update_imp [OF u] key assms(2) by auto
  moreover from this have "findImp v' (''velero'', ''default-b'') = Some y"
    using arg_cong [of _ _ ks_imps] key by (simp flip: mem_st_reps(2))
  ultimately show ?thesis using u y by blast
qed

definition exImported :: kubeworld where
  "exImported = snd (ReconcileImport exEnv exOptions ''velero'' ''default-b'' exArrived)"

lemma exImport_run:
  "\<exists>y. ReconcileImport exEnv exOptions ''velero'' ''default-b'' exArrived = ((doneResult, None), exImported) \<and>
     ks_imps (mem_st exImported) (''velero'', ''default-b'') = Some y \<and> bit_Phase (bi_Status y) = ImportImported \<and>
     bi_Spec y = bi_Spec exImport \<and> mem_docs exImported = mem_docs exArrived \<and>
     importedBy exEnv exOptions (mem_objects ''velero'') runManifest exImported"
proof -
  have opts: "io_PeatAddress exOptions = ''http://peat:50051''" "io_ManifestCollection exOptions = Collection"
    "io_InboxRoot exOptions = ''/inbox''" by (simp_all add: exOptions_def)
  have "\<exists>z v ur w'. bi_Meta z = bi_Meta exImport \<and> bit_Phase (bi_Status z) = ImportImported \<and> mem_st v = mem_st exArrived \<and>
    k_UpdateImportStatus (env_Kube exEnv) z v = (ur, w') \<and> mem_docs w' = mem_docs exArrived \<and>
    importedBy exEnv exOptions (mem_objects ''velero'') runManifest w' \<and>
    ReconcileImport exEnv exOptions ''velero'' ''default-b'' exArrived =
      (case ur of Inl e \<Rightarrow> ((doneResult, Some e), w') | Inr y \<Rightarrow> ((doneResult, None), w'))"
  proof (rule controller_env.landed_run [OF exEnv_contract])
    show "k_GetImport (env_Kube exEnv) ''velero'' ''default-b'' exArrived = (Inr exImport, exArrived)"
      using exArrived_get by simp
    show "IsZero (om_DeletionTimestamp (bi_Meta exImport))" "\<not> importTerminal (bit_Phase (bi_Status exImport))"
      by (simp_all add: exImport_simps IsZero_def)
    show "NewClient (io_PeatAddress exOptions) = Inr exPeat" by (simp add: opts exPeat_new)
    show "GetDocument (env_Http exEnv) exPeat (io_ManifestCollection exOptions) (bis_ManifestDocID (bi_Spec exImport)) exArrived =
        (Inr (Some (json_print (encManifest runManifest))), exArrived)"
      using exArrived_doc by (simp add: opts exImport_simps)
    show "Parse (json_print (encManifest runManifest)) = Inr runManifest" "mn_Complete runManifest" by (rule exParse)+
    show "NewStore (env_SDK exEnv) (io_DestStore exOptions) = Inr exDest" using exDest_new by simp
    show "live_store (minio_Store exDest) (fullKey ''restore'') (\<lambda>w k. mem_store w (fullKey ''restore'' k))
        (\<lambda>w. mf_files w = mf_files exArrived)" by (rule exDest_live)
    show "mf_files exArrived = mf_files exArrived" by (rule refl)
    show "\<forall>v t v'. mf_files v = mf_files exArrived \<and> k_Now (env_Kube exEnv) v = (t, v') \<longrightarrow> mf_files v' = mf_files exArrived"
      by (simp add: mem_kube_def)
    show "\<forall>v. \<forall>e \<in> set (mn_Files runManifest). mf_files v = mf_files exArrived \<longrightarrow>
        landedAt (env_sha256 exEnv) (env_OS exEnv) (io_InboxRoot exOptions) v e"
      unfolding opts exEnv_simps using exFiles_landed by blast
  qed
  then obtain z v ur w' where run: "bi_Meta z = bi_Meta exImport" "bit_Phase (bi_Status z) = ImportImported"
    "mem_st v = mem_st exArrived" "mem_UpdateImportStatus z v = (ur, w')" "mem_docs w' = mem_docs exArrived"
    "importedBy exEnv exOptions (mem_objects ''velero'') runManifest w'"
    "ReconcileImport exEnv exOptions ''velero'' ''default-b'' exArrived =
      (case ur of Inl e \<Rightarrow> ((doneResult, Some e), w') | Inr y \<Rightarrow> ((doneResult, None), w'))"
    by (auto simp: mem_kube_def)
  have "findImp v = findImp exArrived" using arg_cong [OF run(3), of ks_imps] by (simp add: mem_st_def)
  then obtain y where ur: "ur = Inr y" "findImp w' (''velero'', ''default-b'') = Some y" "bi_Spec y = bi_Spec exImport"
    "bi_Status y = bi_Status z"
    using exImport_update [OF run(1), of v] exArrived_import run(4) by auto
  then have fin: "exImported = w'" using run(7) by (simp add: exImported_def)
  then show ?thesis using run(2,5-7) ur by (auto simp: mem_st_def)
qed

lemma exImported_present:
  "\<forall>e \<in> set (mn_Files runManifest). \<exists>b. mem_store exImported (fullKey ''restore'' (fe_Key e)) = Some b \<and> int (length b) = fe_Size e"
proof -
  have "importedBy exEnv exOptions (mem_objects ''velero'') runManifest exImported" using exImport_run by blast
  from controller_env.imported_present [OF exEnv_contract this] exDest_new
  have "sizesAgree (fullKey ''restore'') (mn_Files runManifest) \<longrightarrow>
      (\<forall>e \<in> set (mn_Files runManifest). presentAt (\<lambda>w k. mem_objects ''velero'' (io_DestStore exOptions) w (fullKey ''restore'' k)) exImported e)"
    by (simp add: exDest_def)
  moreover have "sizesAgree (fullKey ''restore'') (mn_Files runManifest)" by code_simp
  ultimately show ?thesis by (simp add: presentAt_def mem_objects_def exOptions_def)
qed

text \<open>A poll in the state that the replication left.\<close>

lemma exList: "ListDocuments mem_http exPeat Collection exShipped = (Inr [''default/b''], exShipped)"
proof -
  let ?dec = "dec_struct [field ''docIds'' id (\<lambda>v _. v) (dec_slice dec_string '''')]"
  let ?resp = "JObj [(''docIds'', JArr [JStr ''default/b''])]"
  have docs: "pn_docs exShipped = [((Collection, ''default/b''), json_print (encManifest runManifest))]"
    using exArrived_fields(1) by (simp add: exArrived_def)
  have "call mem_http exPeat ''ListDocuments'' (json_map [(''collection'', JStr Collection)]) (Some ?dec) [] exShipped =
    (case ?dec ?resp [] of (r, None) \<Rightarrow> (Inr r, exShipped)
     | (r, Some e) \<Rightarrow> (Inl (Wrapf ''peat: unmarshal'' [''ListDocuments''] e), exShipped))"
  proof (rule call_mem_http)
    show "json_depth (json_map [(''collection'', JStr Collection)]) \<le> maxNestingDepth"
      by (rule order_trans [OF json_depth_map_le [of _ 0]]) (simp_all add: maxNestingDepth_def)
    show "node_call ''ListDocuments'' (json_map [(''collection'', JStr Collection)]) exShipped = (?resp, exShipped)"
      by (simp add: node_call_def json_member_map json_str_def Let_def docs)
  qed (simp_all add: Collection_def maxNestingDepth_def)
  moreover have "?dec ?resp [] = ([''default/b''], None)" by (simp add: dec_member_def find_field_def field_def)
  ultimately show ?thesis by (simp add: ListDocuments_def)
qed

definition exPolled :: kubeworld where
  "exPolled = snd (poll exEnv exOptions exPeat exShipped)"

lemma exPoll: "poll exEnv exOptions exPeat exShipped = ([], exPolled)"
proof -
  have col: "io_ManifestCollection exOptions = Collection" "io_SourceEndpointID exOptions = ''''" by (simp_all add: exOptions_def)
  have "valid_utf8 (json_print (encManifest runManifest))" by (rule json_print_utf8) (rule encManifest_ok [OF exEntries_ok(1)])
  then have "GetDocument mem_http exPeat Collection ''default/b'' exShipped =
      (Inr (Some (json_print (encManifest runManifest))), exShipped)"
    using GetDocument_mem_http [of Collection "''default/b''" exShipped exPeat] exArrived_fields(1)
    by (simp add: exArrived_def Collection_def)
  moreover have "fst (ensureBackupImport mem_kube exOptions runManifest exShipped) = None"
    by (simp add: ensureBackupImport_def mem_kube_def mem_EnsureImport_def Let_def)
  ultimately have "fst (pollDocument exEnv exOptions exPeat ''default/b'' exShipped) = []"
    using exParse by (simp add: pollDocument_def col prod_eq_iff split: prod.split option.split)
  then have "fst (poll exEnv exOptions exPeat exShipped) = []"
    by (simp add: poll_def ensureReversePeer_def col exList split: prod.split)
  then show ?thesis by (simp add: exPolled_def prod_eq_iff)
qed

lemma exPoll_utf8:
  "valid_utf8 (io_ManifestCollection exOptions)"
  "\<forall>d. mem_docs exShipped (io_ManifestCollection exOptions, d) \<noteq> None \<longrightarrow> valid_utf8 d"
  using exArrived_fields(1) by (auto simp: exOptions_def Collection_def mem_docs_def exArrived_def split: if_splits)


section \<open>Properties\<close>

text \<open>
  C31: the phase machine of an import: whatever the services answer, a reconcile writes at most
  once, and only the named import; the write keeps the specification and takes a step of the
  phase machine. No import leaves a terminal phase, other imports and the work items of the
  source role are left as they were.
\<close>

theorem import_phase_machine:
  assumes "controller_env E st files docs objects tags"
    and "ReconcileImport E opts ns name w = (res, w')"
  shows "(st w' = st w \<or>
      (\<exists>x y. ks_imps (st w) (ns, name) = Some x \<and> st w' = put_imp y (st w) \<and> imp_key y = (ns, name) \<and>
         bi_Spec y = bi_Spec x \<and> importStep (bit_Phase (bi_Status x)) (bit_Phase (bi_Status y)))) \<and>
    ks_reps (st w') = ks_reps (st w) \<and>
    (\<forall>k x. ks_imps (st w) k = Some x \<and> (k \<noteq> (ns, name) \<or> importTerminal (bit_Phase (bi_Status x))) \<longrightarrow>
       ks_imps (st w') k = Some x)"
proof -
  have writes: "st w' = st w \<or>
      (\<exists>x y. ks_imps (st w) (ns, name) = Some x \<and> st w' = put_imp y (st w) \<and> imp_key y = (ns, name) \<and>
         bi_Spec y = bi_Spec x \<and> importStep (bit_Phase (bi_Status x)) (bit_Phase (bi_Status y)))"
  proof (rule controller_env.ReconcileImport_cases [OF assms])
    fix x assume "imp_key x = (ns, name)" "storesStatus x (importOutcome E opts docs objects x w') (st w) (st w')"
    then show ?thesis unfolding storesStatus_def importOutcome_def by metis
  qed blast
  then have "ks_reps (st w') = ks_reps (st w)" by auto
  moreover have "ks_imps (st w') k = Some x"
    if "ks_imps (st w) k = Some x" "k \<noteq> (ns, name) \<or> importTerminal (bit_Phase (bi_Status x))" for k x
    using writes that importStep_not_terminal by (auto split: if_splits)
  ultimately show ?thesis using writes by blast
qed

theorem import_phase_machine_witness:
  "\<exists>x y. ks_imps (mem_st exArrived) (''velero'', ''default-b'') = Some x \<and> mem_st exImported = put_imp y (mem_st exArrived) \<and>
     importStep (bit_Phase (bi_Status x)) (bit_Phase (bi_Status y))"
proof -
  obtain y where run: "ReconcileImport exEnv exOptions ''velero'' ''default-b'' exArrived = ((doneResult, None), exImported)"
    "ks_imps (mem_st exImported) (''velero'', ''default-b'') = Some y" "bit_Phase (bi_Status y) = ImportImported"
    using exImport_run by blast
  have "mem_st exImported \<noteq> mem_st exArrived"
    using run(2,3) exArrived_import exImport_simps(3) by (auto simp: mem_st_def)
  then show ?thesis using import_phase_machine [OF exEnv_contract run(1)] by blast
qed

text \<open>
  C3: a backup is declared imported only when it is there: when a reconcile leaves an import in
  the phase \<open>Imported\<close> that was not stored like this before, the manifest document of the import
  is in the local peat sidecar, it is complete, the status says committed, and every file of
  the manifest is in the destination store at its size (for a manifest whose entries for one
  object agree on the size).
\<close>

theorem imported_only_when_complete:
  assumes "controller_env E st files docs objects tags"
    and "ReconcileImport E opts ns name w = (res, w')"
    and "ks_imps (st w') k = Some y" and "bit_Phase (bi_Status y) = ImportImported" and "ks_imps (st w) k \<noteq> Some y"
    and "valid_utf8 (io_ManifestCollection opts)" and "valid_utf8 (bis_ManifestDocID (bi_Spec y))"
  shows "k = (ns, name) \<and> bit_Committed (bi_Status y) \<and>
    (\<exists>pc d m ms. NewClient (io_PeatAddress opts) = Inr pc \<and>
       docs (cc_baseURL pc) w' (io_ManifestCollection opts, bis_ManifestDocID (bi_Spec y)) = Some d \<and>
       Parse d = Inr m \<and> mn_Complete m \<and> NewStore (env_SDK E) (io_DestStore opts) = Inr ms \<and>
       (sizesAgree (fullKey (ms_prefix ms)) (mn_Files m) \<longrightarrow>
         (\<forall>e \<in> set (mn_Files m). \<exists>b. objects (io_DestStore opts) w' (fullKey (ms_prefix ms) (fe_Key e)) = Some b \<and>
            int (length b) = fe_Size e)))"
proof (rule controller_env.ReconcileImport_cases [OF assms(1,2)])
  fix x assume key: "imp_key x = (ns, name)" and "storesStatus x (importOutcome E opts docs objects x w') (st w) (st w')"
  then obtain z where z: "imp_key z = imp_key x" "bi_Spec z = bi_Spec x" "importOutcome E opts docs objects x w' (bi_Status z)"
    "st w' = put_imp z (st w)" using assms(3,5) unfolding storesStatus_def by auto
  have k: "k = (ns, name)" "z = y" using z(1,4) key assms(3,5) by (auto split: if_splits)
  obtain d m where m: "fetched E opts docs (bis_ManifestDocID (bi_Spec y)) d w'" "Parse d = Inr m" "mn_Complete m"
    "importedBy E opts objects m w'" "bit_Committed (bi_Status y)"
    using z(2,3) assms(4) unfolding k(2) importOutcome_def by auto
  from controller_env.fetched_doc [OF assms(1) m(1) assms(6,7)] controller_env.imported_present [OF assms(1) m(4)]
  show ?thesis using k(1) m(2,3,5) unfolding presentAt_def by blast
qed (use assms(3,5) in simp)

theorem imported_only_when_complete_witness:
  "list_all (\<lambda>e. mem_store exImported (fullKey ''restore'' (fe_Key e)) \<noteq> None) (mn_Files runManifest)"
proof -
  obtain y where run: "ReconcileImport exEnv exOptions ''velero'' ''default-b'' exArrived = ((doneResult, None), exImported)"
    "ks_imps (mem_st exImported) (''velero'', ''default-b'') = Some y" "bit_Phase (bi_Status y) = ImportImported"
    "bi_Spec y = bi_Spec exImport" "mem_docs exImported = mem_docs exArrived"
    using exImport_run by blast
  have old: "ks_imps (mem_st exArrived) (''velero'', ''default-b'') \<noteq> Some y"
    using exArrived_import run(3) exImport_simps(3) by (auto simp: mem_st_def)
  have col: "io_ManifestCollection exOptions = Collection" by (simp add: exOptions_def)
  have utf: "valid_utf8 (io_ManifestCollection exOptions)" "valid_utf8 (bis_ManifestDocID (bi_Spec y))"
    by (simp_all add: col Collection_def run(4) exImport_simps)
  from imported_only_when_complete [OF exEnv_contract run(1-3) old utf]
  obtain pc d m ms where m: "mem_docs exImported (Collection, ''default/b'') = Some d" "Parse d = Inr m"
    "NewStore (env_SDK exEnv) (io_DestStore exOptions) = Inr ms"
    "sizesAgree (fullKey (ms_prefix ms)) (mn_Files m) \<longrightarrow>
      (\<forall>e \<in> set (mn_Files m). \<exists>b. mem_objects ''velero'' (io_DestStore exOptions) exImported (fullKey (ms_prefix ms) (fe_Key e)) = Some b \<and>
         int (length b) = fe_Size e)"
    unfolding run(4) exImport_simps(1) col by blast
  have "m = runManifest" using m(1,2) exParse(1) unfolding run(5) by (simp add: mem_docs_def exArrived_fields)
  moreover have "ms = exDest" using m(3) exDest_new by simp
  moreover have "sizesAgree (fullKey ''restore'') (mn_Files runManifest)" by code_simp
  ultimately show ?thesis
    using m(4) by (auto simp: list_all_iff exDest_def mem_objects_def exOptions_def)
qed

text \<open>
  C23: an import fails for good only for a manifest that cannot be read: when a reconcile leaves an
  import in the phase \<open>Failed\<close> that was not stored like this before, the document of the import
  is in the local peat sidecar, it does not parse, and the status carries the error. Every
  other error leaves the import in a phase from which it is tried again.
\<close>

theorem import_failed_only_for_bad_manifest:
  assumes "controller_env E st files docs objects tags"
    and "ReconcileImport E opts ns name w = (res, w')"
    and "ks_imps (st w') k = Some y" and "bit_Phase (bi_Status y) = ImportFailed" and "ks_imps (st w) k \<noteq> Some y"
    and "valid_utf8 (io_ManifestCollection opts)" and "valid_utf8 (bis_ManifestDocID (bi_Spec y))"
  shows "k = (ns, name) \<and>
    (\<exists>pc d e. NewClient (io_PeatAddress opts) = Inr pc \<and>
       docs (cc_baseURL pc) w' (io_ManifestCollection opts, bis_ManifestDocID (bi_Spec y)) = Some d \<and>
       Parse d = Inl e \<and> bit_LastError (bi_Status y) = ErrText e)"
proof (rule controller_env.ReconcileImport_cases [OF assms(1,2)])
  fix x assume key: "imp_key x = (ns, name)" and "storesStatus x (importOutcome E opts docs objects x w') (st w) (st w')"
  then obtain z where z: "imp_key z = imp_key x" "bi_Spec z = bi_Spec x" "importOutcome E opts docs objects x w' (bi_Status z)"
    "st w' = put_imp z (st w)" using assms(3,5) unfolding storesStatus_def by auto
  have k: "k = (ns, name)" "z = y" using z(1,4) key assms(3,5) by (auto split: if_splits)
  obtain d e where m: "fetched E opts docs (bis_ManifestDocID (bi_Spec y)) d w'" "Parse d = Inl e"
    "bit_LastError (bi_Status y) = ErrText e"
    using z(2,3) assms(4) unfolding k(2) importOutcome_def by auto
  from controller_env.fetched_doc [OF assms(1) m(1) assms(6,7)] show ?thesis using k(1) m(2,3) by blast
qed (use assms(3,5) in simp)

definition exBroken :: kubeworld where
  "exBroken = exCluster\<lparr>pn_docs := [((Collection, ''default/b''), ''{'')], kw_imps := [exImport]\<rparr>"

lemma exBroken_import: "findImp exBroken (''velero'', ''default-b'') = Some exImport"
proof -
  have "stamp 0 (bi_Meta exImport) = bi_Meta exImport" by (simp add: exImport_def stamp_def newMeta_def) code_simp
  then show ?thesis using exImport_simps(2) by (simp add: findImp_def exBroken_def)
qed

lemma exBroken_run:
  "\<exists>y w'. ReconcileImport exEnv exOptions ''velero'' ''default-b'' exBroken = ((doneResult, None), w') \<and>
     findImp w' (''velero'', ''default-b'') = Some y \<and> bit_Phase (bi_Status y) = ImportFailed \<and> bi_Spec y = bi_Spec exImport"
proof -
  have "isl (Parse ''{'')" by code_simp
  then obtain e where e: "Parse ''{'' = Inl e" by (auto simp: isl_def)
  have "GetDocument mem_http exPeat Collection ''default/b'' exBroken = (Inr (Some ''{''), exBroken)"
    using GetDocument_mem_http [of Collection "''default/b''" exBroken exPeat] by (simp add: exBroken_def Collection_def)
  then have run: "ReconcileImport exEnv exOptions ''velero'' ''default-b'' exBroken =
      importFailed mem_kube exImport ''ManifestParseFailed'' e exBroken"
    using e by (simp add: ReconcileImport_def Let_def mem_kube_def exBroken_import found_def exImport_simps IsZero_def
        exOptions_def exPeat_new)
  let ?z = "setImportReady mem_kube (setImportPhase (exImport\<lparr>bi_Status := (bi_Status exImport)\<lparr>bit_LastError := ErrText e\<rparr>\<rparr>)
    ImportFailed) ConditionFalse ''ManifestParseFailed'' (ErrText e) exBroken"
  obtain y w' where "mem_UpdateImportStatus ?z exBroken = (Inr y, w')" "findImp w' (''velero'', ''default-b'') = Some y"
    "bi_Spec y = bi_Spec exImport" "bi_Status y = bi_Status ?z"
    using exImport_update [OF _ exBroken_import, of ?z] by auto
  then show ?thesis
    using run by (auto simp: importFailed_def Let_def updateImportThen_def mem_kube_def)
qed

theorem import_failed_only_for_bad_manifest_witness:
  "\<exists>d e. mem_docs (snd (ReconcileImport exEnv exOptions ''velero'' ''default-b'' exBroken)) (Collection, ''default/b'') = Some d \<and>
     Parse d = Inl e"
proof -
  obtain y w' where run: "ReconcileImport exEnv exOptions ''velero'' ''default-b'' exBroken = ((doneResult, None), w')"
    "findImp w' (''velero'', ''default-b'') = Some y" "bit_Phase (bi_Status y) = ImportFailed" "bi_Spec y = bi_Spec exImport"
    using exBroken_run by blast
  have old: "ks_imps (mem_st exBroken) (''velero'', ''default-b'') \<noteq> Some y"
    using exBroken_import run(3) exImport_simps(3) by (auto simp: mem_st_def)
  have col: "io_ManifestCollection exOptions = Collection" by (simp add: exOptions_def)
  have utf: "valid_utf8 (io_ManifestCollection exOptions)" "valid_utf8 (bis_ManifestDocID (bi_Spec y))"
    by (simp_all add: col Collection_def run(4) exImport_simps)
  have "ks_imps (mem_st w') (''velero'', ''default-b'') = Some y" using run(2) by (simp add: mem_st_def)
  from import_failed_only_for_bad_manifest [OF exEnv_contract run(1) this run(3) old utf]
  show ?thesis unfolding run(1,4) exImport_simps(1) col snd_conv by blast
qed

text \<open>
  The destination store is written only from a complete manifest: an object of the store that
  differs after a reconcile has the key of a file of the complete manifest of this import, and
  holds bytes of the size and the SHA-256 that the manifest gives for it.
\<close>

theorem reconcile_writes_manifest_files_only:
  assumes "controller_env E st files docs objects tags"
    and "ReconcileImport E opts ns name w = (res, w')" and "NewStore (env_SDK E) (io_DestStore opts) = Inr ms"
    and "objects (io_DestStore opts) w' (fullKey (ms_prefix ms) k) \<noteq> objects (io_DestStore opts) w (fullKey (ms_prefix ms) k)"
  shows "\<exists>i d m e b. fetched E opts docs (bis_ManifestDocID (bi_Spec i)) d w' \<and> imp_key i = (ns, name) \<and>
    i \<in> ks_imp_seen (st w) \<and> Parse d = Inr m \<and> mn_Complete m \<and> e \<in> set (mn_Files m) \<and>
    fullKey (ms_prefix ms) k = fullKey (ms_prefix ms) (fe_Key e) \<and>
    objects (io_DestStore opts) w' (fullKey (ms_prefix ms) k) = Some b \<and>
    hex_encode (env_sha256 E b) = fe_SHA256 e \<and> int (length b) = fe_Size e"
proof (rule controller_env.ReconcileImport_cases [OF assms(1,2)])
  let ?objs = "\<lambda>w k. objects (io_DestStore opts) w (fullKey (ms_prefix ms) k)"
  fix x assume x: "x \<in> ks_imp_seen (st w)" "imp_key x = (ns, name)"
    and "objects (io_DestStore opts) w' = objects (io_DestStore opts) w \<or>
       storeTouched E opts docs objects (bis_ManifestDocID (bi_Spec x)) w w'"
  then obtain d m v r err v' where t: "fetched E opts docs (bis_ManifestDocID (bi_Spec x)) d w'" "Parse d = Inr m" "mn_Complete m"
    "Import (env_sha256 E) (env_OS E) (inboxImporter opts ms) m v = ((r, err), v')"
    "objects (io_DestStore opts) v = objects (io_DestStore opts) w"
    "objects (io_DestStore opts) w' = objects (io_DestStore opts) v'"
    using assms(3,4) unfolding storeTouched_def by auto
  have "im_Store (inboxImporter opts ms) = minio_Store ms" by (simp add: inboxImporter_def)
  from object_store.Import_change [OF controller_env.store_contract [OF assms(1,3)] t(4) this]
  have "verifiedChange (env_sha256 E) (fullKey (ms_prefix ms)) (set (mn_Files m)) (?objs w) (?objs w')"
    using t(5,6) by simp
  then show ?thesis
    using assms(4) t(1-3) x unfolding verifiedChange_def entryVerified_def by blast
qed (use assms(4) in simp)

theorem reconcile_writes_manifest_files_only_witness:
  "\<exists>e \<in> set (mn_Files runManifest). \<exists>b. mem_store exImported ''restore/kopia/p0'' = Some b \<and> hex_encode (exSum b) = fe_SHA256 e"
proof -
  have key: "fullKey (ms_prefix exDest) ''kopia/p0'' = ''restore/kopia/p0''" by (simp add: exDest_def) code_simp
  have store: "mem_objects ''velero'' (io_DestStore exOptions) w = mem_store w" for w :: kubeworld
    by (simp add: mem_objects_def exOptions_def)
  have "handleEntry (exSpecs ! 1) (exHandle 1) \<in> set (mn_Files runManifest)"
    by (simp add: runManifest_def replicationManifest_def exEntries_def)
  then have "mem_store exImported (fullKey ''restore'' ''kopia/p0'') \<noteq> None"
    using exImported_present by (fastforce simp: handleEntry_def exSpecs_def exSpecOf_def)
  moreover have "fullKey ''restore'' ''kopia/p0'' = ''restore/kopia/p0''" by code_simp
  moreover have "mem_store exArrived ''restore/kopia/p0'' = None"
    by (simp add: mem_store_def exArrived_def exShipped_objs)
  ultimately have new: "mem_objects ''velero'' (io_DestStore exOptions) exImported (fullKey (ms_prefix exDest) ''kopia/p0'') \<noteq>
      mem_objects ''velero'' (io_DestStore exOptions) exArrived (fullKey (ms_prefix exDest) ''kopia/p0'')"
    by (simp add: store key)
  have run: "ReconcileImport exEnv exOptions ''velero'' ''default-b'' exArrived = ((doneResult, None), exImported)"
    using exImport_run by blast
  have ms: "NewStore (env_SDK exEnv) (io_DestStore exOptions) = Inr exDest" using exDest_new by simp
  obtain i d m e b where f: "fetched exEnv exOptions (\<lambda>a. mem_docs) (bis_ManifestDocID (bi_Spec i)) d exImported"
    "imp_key i = (''velero'', ''default-b'')" "i \<in> ks_imp_seen (mem_st exArrived)" "Parse d = Inr m" "e \<in> set (mn_Files m)"
    "mem_store exImported ''restore/kopia/p0'' = Some b" "hex_encode (exSum b) = fe_SHA256 e"
    using reconcile_writes_manifest_files_only [where k = "''kopia/p0''", OF exEnv_contract run ms, OF new]
    unfolding store key exEnv_simps by blast
  have "i = exImport"
    using f(3) exArrived_import by (simp add: mem_st_def exArrived_def findImp_def exImport_simps split: if_splits)
  then have "mem_docs exImported (Collection, ''default/b'') = Some d"
    using controller_env.fetched_doc [OF exEnv_contract f(1)] by (auto simp: exImport_simps exOptions_def Collection_def)
  moreover have "mem_docs exImported = mem_docs exArrived" using exImport_run by blast
  ultimately have "m = runManifest" using f(4) exParse(1) by (simp add: mem_docs_def exArrived_fields)
  then show ?thesis using f(5-7) by blast
qed

text \<open>
  C14: landed backups are imported: for an import that is stored, not terminal and not being
  deleted, whose manifest document is there, complete and readable, when the destination store
  does not fail and the bytes of all files have landed, a reconcile comes to the update of the
  status to \<open>Imported\<close>; it succeeds with that update.
\<close>

theorem landed_backup_is_imported:
  assumes "controller_env E st files docs objects tags"
    and "k_GetImport (env_Kube E) ns name w = (Inr bi, w1)"
    and "IsZero (om_DeletionTimestamp (bi_Meta bi))" and "\<not> importTerminal (bit_Phase (bi_Status bi))"
    and "NewClient (io_PeatAddress opts) = Inr pc"
    and "GetDocument (env_Http E) pc (io_ManifestCollection opts) (bis_ManifestDocID (bi_Spec bi)) w1 = (Inr (Some d), w2)"
    and "Parse d = Inr m" and "mn_Complete m" and "NewStore (env_SDK E) (io_DestStore opts) = Inr ms"
    and "live_store (minio_Store ms) canon objs I" and "I w2" and "\<forall>v t v'. I v \<and> k_Now (env_Kube E) v = (t, v') \<longrightarrow> I v'"
    and "\<forall>v. \<forall>e \<in> set (mn_Files m). I v \<longrightarrow> landedAt (env_sha256 E) (env_OS E) (io_InboxRoot opts) v e"
  shows "\<exists>z v ur w'. bi_Meta z = bi_Meta bi \<and> bit_Phase (bi_Status z) = ImportImported \<and> st v = st w \<and>
    k_UpdateImportStatus (env_Kube E) z v = (ur, w') \<and>
    (case ur of
       Inl e \<Rightarrow> ReconcileImport E opts ns name w = ((doneResult, Some e), w')
     | Inr y \<Rightarrow> ReconcileImport E opts ns name w = ((doneResult, None), w') \<and>
         ks_imps (st w') (ns, name) = Some y \<and> bit_Phase (bi_Status y) = ImportImported)"
proof -
  from controller_env.landed_run [OF assms] obtain z v ur w' where run: "bi_Meta z = bi_Meta bi"
    "bit_Phase (bi_Status z) = ImportImported" "st v = st w" "k_UpdateImportStatus (env_Kube E) z v = (ur, w')"
    "ReconcileImport E opts ns name w = (case ur of Inl e \<Rightarrow> ((doneResult, Some e), w') | Inr y \<Rightarrow> ((doneResult, None), w'))"
    by blast
  note api = controller_env.axioms(1) [OF assms(1)]
  have "imp_key z = (ns, name)"
    using kube_api.get_imp_seen [OF api assms(2)] run(1) by (simp add: imp_key_def)
  then have "ks_imps (st w') (ns, name) = Some y \<and> bit_Phase (bi_Status y) = ImportImported" if "ur = Inr y" for y
    using kube_api.update_imp_ok [OF api run(4) [unfolded that]] run(2) by auto
  then show ?thesis
    using run by (intro exI [of _ z] exI [of _ v] exI [of _ ur] exI [of _ w']) (auto split: sum.split)
qed

theorem landed_backup_is_imported_witness:
  "\<exists>y. ks_imps (mem_st exImported) (''velero'', ''default-b'') = Some y \<and> bit_Phase (bi_Status y) = ImportImported"
proof -
  have live: "live_store (minio_Store exDest) (fullKey ''restore'') (\<lambda>w k. mem_store w (fullKey ''restore'' k))
      (\<lambda>w. mf_files w = mf_files exArrived)" by (rule exDest_live)
  have "\<exists>z v ur w'. bi_Meta z = bi_Meta exImport \<and> bit_Phase (bi_Status z) = ImportImported \<and> mem_st v = mem_st exArrived \<and>
    k_UpdateImportStatus (env_Kube exEnv) z v = (ur, w') \<and>
    (case ur of
       Inl e \<Rightarrow> ReconcileImport exEnv exOptions ''velero'' ''default-b'' exArrived = ((doneResult, Some e), w')
     | Inr y \<Rightarrow> ReconcileImport exEnv exOptions ''velero'' ''default-b'' exArrived = ((doneResult, None), w') \<and>
         ks_imps (mem_st w') (''velero'', ''default-b'') = Some y \<and> bit_Phase (bi_Status y) = ImportImported)"
    by (rule landed_backup_is_imported [OF exEnv_contract _ _ _ _ _ _ _ _ live])
      (use exArrived_get exPeat_new exArrived_doc exParse exDest_new exFiles_landed in
        \<open>auto simp: exImport_simps IsZero_def exOptions_def mem_kube_def\<close>)
  then obtain z v ur w' where run: "bi_Meta z = bi_Meta exImport" "mem_st v = mem_st exArrived"
    "mem_UpdateImportStatus z v = (ur, w')"
    "case ur of
       Inl e \<Rightarrow> ReconcileImport exEnv exOptions ''velero'' ''default-b'' exArrived = ((doneResult, Some e), w')
     | Inr y \<Rightarrow> ReconcileImport exEnv exOptions ''velero'' ''default-b'' exArrived = ((doneResult, None), w') \<and>
         ks_imps (mem_st w') (''velero'', ''default-b'') = Some y \<and> bit_Phase (bi_Status y) = ImportImported"
    by (auto simp: mem_kube_def)
  have "findImp v = findImp exArrived" using arg_cong [OF run(2), of ks_imps] by (simp add: mem_st_def)
  then obtain y where "ur = Inr y" using exImport_update [OF run(1), of v] exArrived_import run(3) by auto
  then show ?thesis using run(4) by (auto simp: exImported_def)
qed

text \<open>
  C26: a poll of the bridge imports every complete manifest: when every document id of the
  collection is UTF-8, then after a poll there is, for each document that is a complete manifest, an
  import under the name made of its location and backup, unless the poll has logged that the
  listing, the fetch of this document or the write of its import failed. That import names this
  manifest; the only exception is another complete manifest of the collection with the same import
  name (names can collide, see \<open>import_names_collide\<close>), which it may name instead.
\<close>

theorem poll_imports_complete_manifests:
  assumes "controller_env E st files docs objects tags" and "poll E opts pc w = (evs, w')"
    and "valid_utf8 (io_ManifestCollection opts)"
    and "\<forall>d. docs (cc_baseURL pc) w (io_ManifestCollection opts, d) \<noteq> None \<longrightarrow> valid_utf8 d"
    and "docs (cc_baseURL pc) w (io_ManifestCollection opts, d) = Some data" and "Parse data = Inr m" and "mn_Complete m"
  shows "(\<exists>e. ListFailed e \<in> set evs \<or> GetFailed d e \<in> set evs \<or> EnsureFailed d e \<in> set evs) \<or>
    (\<exists>i. ks_imps (st w') (io_Namespace opts, importName (mn_StorageLocation m) (mn_BackupName m)) = Some i \<and>
       (bi_Spec i = importSpec m \<or>
        (\<exists>d' data' m'. docs (cc_baseURL pc) w (io_ManifestCollection opts, d') = Some data' \<and> Parse data' = Inr m' \<and>
           mn_Complete m' \<and> importSpec m' \<noteq> importSpec m \<and>
           importName (mn_StorageLocation m') (mn_BackupName m') = importName (mn_StorageLocation m) (mn_BackupName m) \<and>
           bi_Spec i = importSpec m')))"
proof (cases "\<exists>e. ListFailed e \<in> set evs \<or> GetFailed d e \<in> set evs \<or> EnsureFailed d e \<in> set evs")
  case False
  let ?k = "(io_Namespace opts, importName (mn_StorageLocation m) (mn_BackupName m))"
  obtain i where i: "ks_imps (st w') ?k = Some i"
    "dueImport (io_Namespace opts) (docs (cc_baseURL pc) w) (io_ManifestCollection opts) i"
    using controller_env.poll_outcome(3) [OF assms(1-3) refl assms(4-7)] False by blast
  have "imp_key i = ?k" using kube_api.imp_stored [OF controller_env.axioms(1) [OF assms(1)] i(1)] by blast
  then show ?thesis using i unfolding dueImport_def by (metis prod.inject)
qed blast

theorem poll_imports_complete_manifests_witness:
  "\<exists>i. ks_imps (mem_st exPolled) (''velero'', ''default-b'') = Some i \<and> bi_Spec i = importSpec runManifest"
proof -
  have doc: "mem_docs exShipped (io_ManifestCollection exOptions, ''default/b'') = Some (json_print (encManifest runManifest))"
    using exArrived_fields(1) by (simp add: mem_docs_def exArrived_def exOptions_def)
  have docs: "pn_docs exShipped = [((Collection, ''default/b''), json_print (encManifest runManifest))]"
    using exArrived_fields(1) by (simp add: exArrived_def del: json_print.simps)
  have only: "m' = runManifest" if "mem_docs exShipped (io_ManifestCollection exOptions, d') = Some data'" "Parse data' = Inr m'"
    for d' data' m'
  proof -
    have "data' = json_print (encManifest runManifest)"
      using that(1) unfolding mem_docs_def docs by (simp split: if_splits del: json_print.simps)
    then show ?thesis using that(2) exParse(1) by simp
  qed
  have key: "importName (mn_StorageLocation runManifest) (mn_BackupName runManifest) = ''default-b''"
    "io_Namespace exOptions = ''velero''"
    by (simp_all add: importName_def runManifest_def replicationManifest_def exItem_def exOptions_def)
  note polled = poll_imports_complete_manifests [OF exEnv_contract exPoll exPoll_utf8 _ exParse, of "''default/b''"]
  show ?thesis
  proof (rule disjE [OF polled [OF doc]])
    assume "\<exists>i. ks_imps (mem_st exPolled) (io_Namespace exOptions, importName (mn_StorageLocation runManifest)
        (mn_BackupName runManifest)) = Some i \<and> (bi_Spec i = importSpec runManifest \<or>
        (\<exists>d' data' m'. mem_docs exShipped (io_ManifestCollection exOptions, d') = Some data' \<and> Parse data' = Inr m' \<and>
           mn_Complete m' \<and> importSpec m' \<noteq> importSpec runManifest \<and>
           importName (mn_StorageLocation m') (mn_BackupName m') =
             importName (mn_StorageLocation runManifest) (mn_BackupName runManifest) \<and> bi_Spec i = importSpec m'))"
    then show ?thesis using only unfolding key by (elim exE conjE disjE) blast+
  qed simp
qed

text \<open>
  C27: a poll of the bridge writes only imports that are due: each write is an import that names a
  complete manifest of the collection, under the name made of its location and backup; an
  existing import keeps its status, so a poll never restarts one; the work items of the
  source role and the documents are left alone.
\<close>

theorem poll_writes_due_imports:
  assumes "controller_env E st files docs objects tags" and "poll E opts pc w = (evs, w')"
    and "valid_utf8 (io_ManifestCollection opts)"
    and "\<forall>d. docs (cc_baseURL pc) w (io_ManifestCollection opts, d) \<noteq> None \<longrightarrow> valid_utf8 d"
  shows "bridgeWrites (io_Namespace opts) (docs (cc_baseURL pc) w) (io_ManifestCollection opts) (st w) (st w') \<and>
    docs (cc_baseURL pc) w' = docs (cc_baseURL pc) w \<and> ks_reps (st w') = ks_reps (st w) \<and>
    (\<forall>k i. ks_imps (st w) k = Some i \<longrightarrow> (\<exists>j. ks_imps (st w') k = Some j \<and> bi_Status j = bi_Status i))"
  using controller_env.poll_outcome(1,2) [OF assms(1-3) refl assms(4)] bridgeWrites_frame by blast

theorem poll_writes_due_imports_witness:
  "ks_reps (mem_st exPolled) = ks_reps (mem_st exShipped) \<and> mem_docs exPolled = mem_docs exShipped"
  using poll_writes_due_imports [OF exEnv_contract exPoll exPoll_utf8] by simp

text \<open>
  The names of imports keep backups apart when locations have no hyphen and the names fit
  into the 253 characters of a Kubernetes name.
\<close>

theorem import_names_distinct:
  assumes "CHR ''-'' \<notin> set loc" and "CHR ''-'' \<notin> set loc'"
    and "length loc + length backup < 253" and "length loc' + length backup' < 253"
  shows "importName loc backup = importName loc' backup' \<longleftrightarrow> loc = loc' \<and> backup = backup'"
  using append_sep_inject [of loc "CHR ''-''" backup loc' backup'] assms by (auto simp: importName_def Let_def)

theorem import_names_distinct_witness:
  "importName ''default'' ''b'' \<noteq> importName ''default2'' ''b''"
  using import_names_distinct [of "''default''" "''default2''" "''b''" "''b''"] by simp

text \<open>
  Outside that range the names of imports collide: hyphens in the names of a location and a
  backup can be exchanged, and of names that are too long only the first 253 characters count,
  so two manifests share one import and the later poll of the two decides which backup it is.
\<close>

theorem import_names_collide:
  "importName (loc @ ''-'' @ x) backup = importName loc (x @ ''-'' @ backup) \<and>
   (length loc + length backup \<ge> 252 \<longrightarrow> importName loc (backup @ rest) = importName loc backup)"
proof -
  have name: "importName l b = take 253 (l @ ''-'' @ b)" for l b by (simp add: importName_def Let_def)
  have "take 253 ((loc @ ''-'' @ backup) @ rest) = take 253 (loc @ ''-'' @ backup)" if "length loc + length backup \<ge> 252"
    by (subst take_append) (use that in simp)
  then show ?thesis unfolding name by simp
qed

theorem import_names_collide_witness:
  "importName ''a-b'' ''c'' = importName ''a'' ''b-c'' \<and>
   importName ''default'' (replicate 250 CHR ''x'' @ ''1'') = importName ''default'' (replicate 250 CHR ''x'')"
  using import_names_collide [of "''a''" "''b''" "''c''" "''''"]
    import_names_collide [of "''default''" "''''" "replicate 250 CHR ''x''" "''1''"] by simp

end
