(* ===== verification/Ledger_Concurrency.thy ===== *)
theory Ledger_Concurrency
  imports Replication_Properties
begin

text \<open>
  Concurrent commits of one ledger. \<open>commitLedger\<close> reads the ledger object, records keys and
  writes the object back with the entity tag it has read; other writers may come in between. The
  commit is split into its two accesses here, any number of writers interleave them, and the
  compare-and-swap of the store keeps every recorded key, whatever the outcomes of the writes.
\<close>


section \<open>The two halves of a commit\<close>

definition commitRead :: "'w Store \<Rightarrow> string \<Rightarrow> ('w, ledger option \<times> string) effect" where
  "commitRead store key w =
     (case st_GetLedger store key w of
        (Inl e, w1) \<Rightarrow> (Inl e, w1)
      | (Inr (body, etag), w1) \<Rightarrow>
          (case readLedger body of Inl e \<Rightarrow> (Inl e, w1) | Inr l \<Rightarrow> (Inr (l, etag), w1)))"

definition commitWrite :: "'w Store \<Rightarrow> string \<Rightarrow> string list \<Rightarrow> ledger option \<times> string \<Rightarrow> 'w \<Rightarrow>
    commitOutcome \<times> 'w" where
  "commitWrite store key keys le w =
     (case le of (l, etag) \<Rightarrow>
        if l = None \<and> keys \<noteq> [] then (CommitPanic, w)
        else let out = json_print (encLedger (map_option (recordKeys keys) l)) in
          case st_PutLedger store key out etag w of
            (Inl e, w2) \<Rightarrow> (CommitError e, w2)
          | (Inr _, w2) \<Rightarrow> (Committed, w2))"

lemma commitLedger_halves:
  "commitLedger store br keys w =
     (let key = ledgerKey (brs_StorageLocation (br_Spec br)) in
      case commitRead store key w of
        (Inl e, w1) \<Rightarrow> (CommitError e, w1)
      | (Inr le, w1) \<Rightarrow> commitWrite store key keys le w1)"
  by (simp add: commitLedger_def commitRead_def commitWrite_def Let_def split: prod.split sum.split)


section \<open>Interleaved commits\<close>

text \<open>
  The state of the writers: what each has read, the content that each entity tag has named so far,
  and the keys of the commits that have returned successfully.
\<close>

record writers =
  wr_read :: "nat \<rightharpoonup> ledger option \<times> string"
  wr_named :: "string \<rightharpoonup> bytes"
  wr_done :: "string set"

text \<open>
  The service names every new version of the ledger object with a new entity tag.
\<close>

definition tagged :: "('w \<Rightarrow> string \<rightharpoonup> bytes) \<Rightarrow> ('w \<Rightarrow> string \<rightharpoonup> string) \<Rightarrow> string \<Rightarrow> 'w \<Rightarrow> 'w \<Rightarrow>
    (string \<rightharpoonup> bytes) \<Rightarrow> (string \<rightharpoonup> bytes) \<Rightarrow> bool" where
  "tagged store etag key w w' h h' \<longleftrightarrow>
     (store w' key = store w key \<and> etag w' key = etag w key \<and> h' = h) \<or>
     (\<exists>t b. etag w' key = Some t \<and> store w' key = Some b \<and> h t = None \<and> h' = h(t \<mapsto> b))"

inductive ledgerStep :: "'w Store \<Rightarrow> ('w \<Rightarrow> string \<rightharpoonup> bytes) \<Rightarrow> ('w \<Rightarrow> string \<rightharpoonup> string) \<Rightarrow> string \<Rightarrow>
    'w \<times> writers \<Rightarrow> 'w \<times> writers \<Rightarrow> bool" for S store etag key where
  read: "commitRead S key w = (Inr le, w') \<Longrightarrow>
     ledgerStep S store etag key (w, p) (w', p\<lparr>wr_read := (wr_read p)(i \<mapsto> le)\<rparr>)"
| read_failed: "commitRead S key w = (Inl e, w') \<Longrightarrow> ledgerStep S store etag key (w, p) (w', p)"
| wrote: "wr_read p i = Some le \<Longrightarrow> keys \<noteq> [] \<Longrightarrow> list_all valid_utf8 keys \<Longrightarrow>
     commitWrite S key keys le w = (r, w') \<Longrightarrow> tagged store etag key w w' (wr_named p) h' \<Longrightarrow>
     ledgerStep S store etag key (w, p) (w', p\<lparr>wr_read := (wr_read p)(i := None), wr_named := h',
       wr_done := (if r = Committed then set keys else {}) \<union> wr_done p\<rparr>)"
| world: "store w' key = store w key \<Longrightarrow> etag w' key = etag w key \<Longrightarrow>
     ledgerStep S store etag key (w, p) (w', p)"

inductive_cases ledgerStepE: "ledgerStep S store etag key (w, p) (w', p')"

text \<open>
  The stored ledger as a map, and the invariant: the ledger can be read and records what has been
  committed; the current tag names the current content; and what a writer has read is named by
  the tag it holds, the empty tag naming the absent object.
\<close>

definition ledgerNow :: "bytes option \<Rightarrow> ledger \<Rightarrow> bool" where
  "ledgerNow ob l \<longleftrightarrow> readLedger (case ob of None \<Rightarrow> [] | Some b \<Rightarrow> b) = Inr (Some l) \<and> ledgerOk l"

definition tagsNamed :: "bytes option \<Rightarrow> string option \<Rightarrow> writers \<Rightarrow> bool" where
  "tagsNamed ob tag p \<longleftrightarrow> (\<forall>t. tag = Some t \<longrightarrow> ob \<noteq> None \<and> wr_named p t = ob) \<and>
     (\<forall>i l t. wr_read p i = Some (l, t) \<longrightarrow>
        (if t = [] then readLedger [] = Inr l else \<exists>b. wr_named p t = Some b \<and> readLedger b = Inr l))"

text \<open>No step of a run forgets a key.\<close>

definition ledgerGrows :: "bytes option \<Rightarrow> bytes option \<Rightarrow> bool" where
  "ledgerGrows ob ob' \<longleftrightarrow> (\<forall>l. ledgerNow ob l \<longrightarrow> (\<exists>l'. ledgerNow ob' l' \<and> dom (map_of l) \<subseteq> dom (map_of l')))"

lemma ledgerGrows_refl [simp]: "ledgerGrows ob ob"
  by (auto simp: ledgerGrows_def)

lemma ledgerGrows_trans: "ledgerGrows a b \<Longrightarrow> ledgerGrows b c \<Longrightarrow> ledgerGrows a c"
  unfolding ledgerGrows_def by (meson subset_trans)

lemma ledgerNow_unique: "ledgerNow ob l \<Longrightarrow> ledgerNow ob l' \<Longrightarrow> l = l'"
  by (simp add: ledgerNow_def)

lemma tagged_named: "tagged store etag key w w' h h' \<Longrightarrow> h t = Some b \<Longrightarrow> h' t = Some b"
  by (auto simp: tagged_def)

text \<open>What is read back after a write is again a ledger that can be written.\<close>

lemma dec_entries_distinct:
  "dec_entries d zero ms m = (m', e) \<Longrightarrow> distinct (map fst m) \<Longrightarrow> distinct (map fst m')"
proof (induction ms arbitrary: m e)
  case (Cons kj ms)
  then show ?case by (cases kj) (auto simp: distinct_kv_set split: prod.splits)
qed simp

lemma readLedger_distinct:
  assumes "readLedger body = Inr (Some l)"
  shows "distinct (map fst l)"
proof (cases "body = []")
  case False
  then obtain j where "dec_map (dec_struct ledgerEntryFields) zeroLedgerEntry j (Some []) = (Some l, None) \<or> l = []"
    using assms by (auto simp: readLedger_def json_unmarshal_def split: prod.splits option.splits sum.splits)
  then show ?thesis
    by (cases j) (auto split: prod.splits simp del: dec_struct.simps dest: dec_entries_distinct)
qed (use assms in \<open>simp add: readLedger_def\<close>)

lemma ledgerOk_map:
  assumes "ledgerOk l" and "map_of l' = map_of l" and "distinct (map fst l')"
  shows "ledgerOk l'"
proof -
  have "(k, e) \<in> set l" if "(k, e) \<in> set l'" for k e
    using that assms(2,3) by (metis map_of_SomeD map_of_is_SomeI)
  then show ?thesis using assms(1,3) by (fastforce simp: ledgerOk_def)
qed

text \<open>A write over the content that was read.\<close>

lemma ledgerNow_written:
  assumes "ledgerNow ob l" and "list_all valid_utf8 keys"
  shows "\<exists>l'. ledgerNow (Some (json_print (encLedger (Some (recordKeys keys l))))) l' \<and>
    dom (map_of l') = set keys \<union> dom (map_of l)"
proof -
  have ok: "ledgerOk (recordKeys keys l)" using assms by (auto simp: ledgerNow_def intro: recordKeys_ok)
  from read_encLedger [OF this] obtain l' where l': "readLedger (json_print (encLedger (Some (recordKeys keys l)))) = Inr (Some l')"
    "map_of l' = map_of (recordKeys keys l)" by blast
  moreover have "ledgerOk l'" by (rule ledgerOk_map [OF ok l'(2)]) (rule readLedger_distinct [OF l'(1)])
  moreover have "dom (map_of l') = set keys \<union> dom (map_of l)"
    unfolding l'(2) by (auto simp: recordKeys_map dom_def)
  ultimately show ?thesis by (auto simp: ledgerNow_def)
qed


section \<open>No commit is lost\<close>

definition ledgerInv :: "bytes option \<Rightarrow> string option \<Rightarrow> writers \<Rightarrow> bool" where
  "ledgerInv ob tag p \<longleftrightarrow> tagsNamed ob tag p \<and> (\<exists>l. ledgerNow ob l \<and> wr_done p \<subseteq> dom (map_of l))"

lemma tagsNamed_idle:
  "tagsNamed ob tag p \<Longrightarrow> tagsNamed ob tag (p\<lparr>wr_read := (wr_read p)(i := None), wr_done := d\<rparr>)"
  by (auto simp: tagsNamed_def split: if_splits)

context s3_client
begin

lemma commitRead_s3:
  assumes "commitRead (minio_Store \<lparr>ms_client = C, ms_bucket = bkt, ms_prefix = pfx\<rparr>) key w = (r, w')"
  shows "r = Inr (l, t) \<Longrightarrow> store w' = store w \<and> etag w' = etag w \<and>
    (if t = [] then readLedger [] = Inr l
     else \<exists>b. store w key = Some b \<and> etag w key = Some t \<and> readLedger b = Inr l)"
proof -
  have s3: "s3_store C bkt store etag" by (simp add: s3_store_def s3_client_axioms)
  assume "r = Inr (l, t)"
  then obtain body where "GetLedger_minio \<lparr>ms_client = C, ms_bucket = bkt, ms_prefix = pfx\<rparr> key w = (Inr (body, t), w')"
    "readLedger body = Inr l"
    using assms by (auto simp: commitRead_def minio_Store_def split: prod.splits sum.splits)
  then show ?thesis using s3_store.GetLedger_ok [OF s3, of pfx key w body t w'] by (auto split: if_splits)
qed

lemma commitRead_frame:
  assumes "commitRead (minio_Store \<lparr>ms_client = C, ms_bucket = bkt, ms_prefix = pfx\<rparr>) key w = (r, w')"
  shows "store w' = store w \<and> etag w' = etag w"
proof -
  obtain gr where get: "GetLedger_minio \<lparr>ms_client = C, ms_bucket = bkt, ms_prefix = pfx\<rparr> key w = (gr, w')"
    using assms by (auto simp: commitRead_def minio_Store_def split: prod.splits sum.splits)
  obtain ob w1 where ob: "mc_GetObject C bkt key w = (ob, w1)" by fastforce
  show ?thesis
  proof (cases ob)
    case (Inl e)
    then show ?thesis using get ob get_frame [OF ob] by (simp add: GetLedger_minio_def)
  next
    case (Inr o')
    obtain osr w2 where st: "ob_Stat o' w1 = (osr, w2)" by fastforce
    obtain d re w3 where rd: "ob_Read o' w2 = ((d, re), w3)" by (metis prod.exhaust)
    have "w' = w2 \<or> w' = w3"
      using get ob st rd Inr by (auto simp: GetLedger_minio_def split: sum.splits if_splits option.splits)
    then show ?thesis
      using get_frame [OF ob] get_stat_frame [OF ob [unfolded Inr] st] get_read_frame [OF ob [unfolded Inr] rd] by auto
  qed
qed

lemma commitWrite_s3:
  assumes "commitWrite (minio_Store \<lparr>ms_client = C, ms_bucket = bkt, ms_prefix = pfx\<rparr>) key keys (l, tag) w = (r, w')"
    and "keys \<noteq> []"
  obtains (kept) "r \<noteq> Committed" "store w' = store w" "etag w' = etag w"
    | (written) l' t where "l = Some l'" "store w' = (store w)(key \<mapsto> json_print (encLedger (Some (recordKeys keys l'))))"
        "etag w' = (etag w)(key \<mapsto> t)" "if tag = [] then store w key = None else etag w key = Some tag"
proof (cases l)
  case None
  then show ?thesis using assms kept by (simp add: commitWrite_def)
next
  case (Some l')
  have s3: "s3_store C bkt store etag" by (simp add: s3_store_def s3_client_axioms)
  obtain pr where put: "PutLedger_minio \<lparr>ms_client = C, ms_bucket = bkt, ms_prefix = pfx\<rparr> key
      (json_print (encLedger (Some (recordKeys keys l')))) tag w = (pr, w')" and r: "r = Committed \<longleftrightarrow> \<not> isl pr"
    using assms(1) Some by (auto simp: commitWrite_def minio_Store_def Let_def split: prod.splits sum.splits)
  show ?thesis
    by (rule s3_store.PutLedger_cases [OF s3 put]) (use kept written Some r in blast)+
qed

lemma ledgerStep_inv:
  assumes "ledgerStep (minio_Store \<lparr>ms_client = C, ms_bucket = bkt, ms_prefix = pfx\<rparr>) store etag key (w, p) (w', p')"
    and inv: "ledgerInv (store w key) (etag w key) p"
  shows "ledgerInv (store w' key) (etag w' key) p' \<and> ledgerGrows (store w key) (store w' key) \<and> wr_done p \<subseteq> wr_done p'"
proof (cases rule: ledgerStepE [OF assms(1), case_names read read_failed wrote world])
  case (read le i)
  obtain l t where le: "le = (l, t)" by fastforce
  note got = commitRead_s3 [OF read(2) arg_cong [OF le, of Inr]]
  have "tagsNamed (store w key) (etag w key) p'"
    using inv got by (auto simp: ledgerInv_def tagsNamed_def read(1) le)
  then show ?thesis using inv got by (simp add: ledgerInv_def read(1))
next
  case (read_failed e)
  then show ?thesis using inv commitRead_frame [OF read_failed(2)] by simp
next
  case (wrote i le keys r h')
  obtain l0 t where le: "le = (l0, t)" by fastforce
  obtain l where l: "ledgerNow (store w key) l" "wr_done p \<subseteq> dom (map_of l)" and named: "tagsNamed (store w key) (etag w key) p"
    using inv by (auto simp: ledgerInv_def)
  show ?thesis
  proof (rule commitWrite_s3 [OF wrote(5) [unfolded le] wrote(3)])
    assume kept: "r \<noteq> Committed" "store w' = store w" "etag w' = etag w"
    have "h' = wr_named p" using wrote(6) kept(2,3) named by (auto simp: tagged_def tagsNamed_def)
    then have "tagsNamed (store w key) (etag w key) p'" using named kept(1) by (auto simp: wrote(1) tagsNamed_def split: if_splits)
    then show ?thesis using l kept by (auto simp: ledgerInv_def wrote(1))
  next
    fix l1 t' assume new: "l0 = Some l1"
      "store w' = (store w)(key \<mapsto> json_print (encLedger (Some (recordKeys keys l1))))" "etag w' = (etag w)(key \<mapsto> t')"
      "if t = [] then store w key = None else etag w key = Some t"
    have "if t = [] then readLedger [] = Inr (Some l1) else \<exists>b. wr_named p t = Some b \<and> readLedger b = Inr (Some l1)"
      using named wrote(2) unfolding tagsNamed_def le new(1) by blast
    then have "l1 = l" using l(1) new(4) named by (auto simp: ledgerNow_def tagsNamed_def split: if_splits)
    then obtain l' where l': "ledgerNow (store w' key) l'" "dom (map_of l') = set keys \<union> dom (map_of l)"
      using ledgerNow_written [OF l(1) wrote(4)] new(2) by auto
    have "h' t' = store w' key" "store w' key \<noteq> None"
      using wrote(6) new(2,3) named by (auto simp: tagged_def tagsNamed_def)
    moreover have "if u = [] then readLedger [] = Inr k else \<exists>b. h' u = Some b \<and> readLedger b = Inr k"
      if "wr_read p j = Some (k, u)" for j k u
      using named that tagged_named [OF wrote(6)] unfolding tagsNamed_def by (metis (no_types, lifting))
    ultimately have "tagsNamed (store w' key) (etag w' key) p'"
      using new(3) by (auto simp: tagsNamed_def wrote(1) split: if_splits)
    moreover have "wr_done p' \<subseteq> dom (map_of l')" using l(2) l'(2) by (auto simp: wrote(1))
    moreover have "ledgerGrows (store w key) (store w' key)"
      unfolding ledgerGrows_def using ledgerNow_unique [OF l(1)] l' by blast
    ultimately show ?thesis using l'(1) by (auto simp: ledgerInv_def wrote(1))
  qed
next
  case world
  then show ?thesis using inv by simp
qed

lemma ledgerRun_inv:
  assumes "(ledgerStep (minio_Store \<lparr>ms_client = C, ms_bucket = bkt, ms_prefix = pfx\<rparr>) store etag key)\<^sup>*\<^sup>* (w, p) (w', p')"
    and "ledgerInv (store w key) (etag w key) p"
  shows "ledgerInv (store w' key) (etag w' key) p' \<and> ledgerGrows (store w key) (store w' key) \<and> wr_done p \<subseteq> wr_done p'"
  using assms(1)
proof (induction rule: rtranclp_induct2)
  case (step v q v' q')
  then show ?case using ledgerStep_inv [OF step.hyps(2)] ledgerGrows_trans by blast
qed (use assms(2) in simp)

end


section \<open>Two writers on the example cluster\<close>

abbreviation exKey :: string where
  "exKey \<equiv> ''snapback/ledger/default.json''"

lemma exAbsent: "map_of (mw_objs exPublished) exKey = None" "mw_ver exPublished = 3"
  by (simp_all add: exPublished_def exSentWorld_def exSending_def exQueued_def exCluster_def)

lemma exReadLedger: "commitRead (minio_Store exMinio) exKey exPublished = (Inr (Some [], ''''), exPublished)"
  by (simp add: commitRead_def minio_Store_def GetLedger_minio_def exMinio_def mem_client_def mem_stat_def noSuchKey_def
      isNotFound_def exAbsent readLedger_def)

lemma exFirstWrite: "commitWrite (minio_Store exMinio) exKey exKeys (Some [], '''') exPublished = (Committed, exCommitted)"
proof -
  have "ledgerKey (brs_StorageLocation (br_Spec exCompleted)) = exKey" by (simp add: ledgerKey_def exItem_def)
  then show ?thesis using exCommit exReadLedger by (simp add: commitLedger_halves Let_def)
qed

lemma exWritten: "mem_store exCommitted exKey = Some exLedger" "mem_etag exCommitted exKey = Some (dec 3)"
  by (simp_all add: mem_store_def mem_etag_def exCommitted_def exAbsent exPublished_def exSentWorld_def exSending_def
      exQueued_def exCluster_def)

lemma exSecondWrite:
  "commitWrite (minio_Store exMinio) exKey [''kopia/p9''] (Some [], '''') exCommitted = (CommitError ErrLedgerConflict, exCommitted)"
proof -
  have "map_of (mw_objs exCommitted) exKey \<noteq> None" using exWritten(1) by (auto simp: mem_store_def)
  then show ?thesis
    by (simp add: commitWrite_def minio_Store_def PutLedger_minio_def exMinio_def mem_client_def mem_put_def bytes_reader_def
        noPutOpts_def Let_def isPreconditionFailed_def del: json_print.simps)
qed


section \<open>Properties\<close>

text \<open>
  C8: concurrent commits lose nothing: any number of replications read the ledger and write it back
  in any interleaving, and their writes succeed, meet a conflict, or fail with or without an
  effect. When the ledger can be read at the start, it can be read at any later point, it records
  every key that it recorded at any earlier point, and every key of every commit that has
  returned successfully. The service gives every version of the object a new entity tag.
\<close>

theorem concurrent_commits_lose_nothing:
  assumes "s3_client C bkt store etag"
    and "ledgerNow (store w key) l" and "wr_read p = Map.empty" and "wr_done p = {}"
    and "\<forall>t. etag w key = Some t \<longrightarrow> store w key \<noteq> None \<and> wr_named p t = store w key"
    and "(ledgerStep (minio_Store \<lparr>ms_client = C, ms_bucket = bkt, ms_prefix = pfx\<rparr>) store etag key)\<^sup>*\<^sup>* (w, p) (v, q)"
    and "(ledgerStep (minio_Store \<lparr>ms_client = C, ms_bucket = bkt, ms_prefix = pfx\<rparr>) store etag key)\<^sup>*\<^sup>* (v, q) (w', p')"
  shows "\<exists>lv l'. ledgerNow (store v key) lv \<and> ledgerNow (store w' key) l' \<and>
    dom (map_of l) \<subseteq> dom (map_of lv) \<and> dom (map_of lv) \<subseteq> dom (map_of l') \<and>
    wr_done q \<subseteq> wr_done p' \<and> wr_done p' \<subseteq> dom (map_of l')"
proof -
  have start: "ledgerInv (store w key) (etag w key) p"
    using assms(2-5) by (auto simp: ledgerInv_def tagsNamed_def)
  note first = s3_client.ledgerRun_inv [OF assms(1,6) start]
  note second = s3_client.ledgerRun_inv [OF assms(1,7) conjunct1 [OF first]]
  obtain lv where lv: "ledgerNow (store v key) lv" "dom (map_of l) \<subseteq> dom (map_of lv)"
    using first assms(2) by (auto simp: ledgerGrows_def)
  obtain l' where l': "ledgerNow (store w' key) l'" "wr_done p' \<subseteq> dom (map_of l')"
    using second by (auto simp: ledgerInv_def)
  have "dom (map_of lv) \<subseteq> dom (map_of l')"
    using second lv(1) ledgerNow_unique [OF l'(1)] unfolding ledgerGrows_def by blast
  then show ?thesis using lv l' second by blast
qed

theorem concurrent_commits_lose_nothing_witness:
  "\<exists>l'. ledgerNow (mem_store exCommitted exKey) l' \<and> set exKeys \<subseteq> dom (map_of l')"
proof -
  define S where "S = minio_Store exMinio"
  define R where "R = ledgerStep S mem_store mem_etag exKey"
  define p0 where "p0 = \<lparr>wr_read = Map.empty, wr_named = Map.empty, wr_done = {}\<rparr>"
  define p1 where "p1 = p0\<lparr>wr_read := (wr_read p0)(0 \<mapsto> (Some [], ''''))\<rparr>"
  define p2 where "p2 = p1\<lparr>wr_read := (wr_read p1)(1 \<mapsto> (Some [], ''''))\<rparr>"
  define p3 where "p3 = p2\<lparr>wr_read := (wr_read p2)(0 := None), wr_named := [dec 3 \<mapsto> exLedger],
    wr_done := (if Committed = Committed then set exKeys else {}) \<union> wr_done p2\<rparr>"
  define p4 where "p4 = p3\<lparr>wr_read := (wr_read p3)(1 := None), wr_named := wr_named p3,
    wr_done := (if CommitError ErrLedgerConflict = Committed then set [''kopia/p9''] else {}) \<union> wr_done p3\<rparr>"
  have "R (exPublished, p0) (exPublished, p1)" "R (exPublished, p1) (exPublished, p2)"
    unfolding R_def S_def p1_def p2_def by (rule ledgerStep.read [OF exReadLedger])+
  moreover have "R (exPublished, p2) (exCommitted, p3)"
    unfolding R_def S_def p3_def
    by (rule ledgerStep.wrote [OF _ _ _ exFirstWrite])
      (simp_all add: exKeys_def tagged_def exWritten p0_def p1_def p2_def del: One_nat_def)
  ultimately have run1: "R\<^sup>*\<^sup>* (exPublished, p0) (exCommitted, p3)" by (rule converse_rtranclp_into_rtranclp [OF _ converse_rtranclp_into_rtranclp [OF _ r_into_rtranclp]])
  have "R (exCommitted, p3) (exCommitted, p4)"
    unfolding R_def S_def p4_def
    by (rule ledgerStep.wrote [OF _ _ _ exSecondWrite]) (simp_all add: tagged_def p0_def p1_def p2_def p3_def del: One_nat_def)
  then have run2: "R\<^sup>*\<^sup>* (exCommitted, p3) (exCommitted, p4)" by blast
  have absent: "mem_store exPublished exKey = None" "mem_etag exPublished exKey = None"
    by (simp_all add: mem_store_def mem_etag_def exAbsent)
  have now: "ledgerNow (mem_store exPublished exKey) []" by (simp add: absent ledgerNow_def readLedger_def ledgerOk_def)
  have "wr_read p0 = Map.empty" "wr_done p0 = {}"
    "\<forall>t. mem_etag exPublished exKey = Some t \<longrightarrow> mem_store exPublished exKey \<noteq> None \<and> wr_named p0 t = mem_store exPublished exKey"
    by (simp_all add: p0_def absent)
  from concurrent_commits_lose_nothing [OF mem_s3.s3_client_axioms now this run1 [unfolded R_def S_def exMinio_def]
      run2 [unfolded R_def S_def exMinio_def]]
  obtain l' where "ledgerNow (mem_store exCommitted exKey) l'" "wr_done p4 \<subseteq> dom (map_of l')" by blast
  then show ?thesis by (auto simp: p3_def p4_def)
qed

end
