(* ===== verification/Destination_Store.thy ===== *)
theory Destination_Store
  imports Import_Properties
begin

text \<open>
  The destination store over whole runs of the destination role: reconciles of imports and polls of
  the bridge follow each other in any order, and between them anything happens except that
  somebody else writes the store. Whatever the store holds in the end was there at the start, or
  has been verified against a complete manifest during the run, and nothing is ever removed.
\<close>


section \<open>A poll does not touch the store\<close>

lemma ensureReversePeer_keeps:
  "http_keeps http f \<Longrightarrow> keeps f (ensureReversePeer http opts pc)"
  by (rule keepsI) (auto simp: ensureReversePeer_def split: prod.splits sum.splits if_splits dest: keepsD [OF peat_keeps(1)])

lemma ensureBackupImport_keeps:
  "kube_keeps K f \<Longrightarrow> keeps f (ensureBackupImport K opts m)"
  by (rule keepsI) (auto simp: ensureBackupImport_def split: prod.splits sum.splits dest: keepsD [OF kube_keepsD(5)])

lemma pollDocuments_keeps:
  assumes "kube_keeps (env_Kube E) f" and "http_keeps (env_Http E) f"
  shows "keeps f (pollDocuments E opts pc ds)"
proof -
  have one: "f w' = f w" if "pollDocument E opts pc d w = (evs, w')" for d w evs w'
    using that
    by (auto simp: pollDocument_def split: prod.splits sum.splits option.splits if_splits
        dest!: keepsD [OF peat_keeps(3) [OF assms(2)]] keepsD [OF ensureBackupImport_keeps [OF assms(1)]])
  have "f w' = f w" if "pollDocuments E opts pc ds w = (evs, w')" for w evs w'
    using that by (induction ds arbitrary: w evs) (auto split: prod.splits dest!: one)
  then show ?thesis by (rule keepsI)
qed

lemma poll_keeps [frames]:
  assumes "kube_keeps (env_Kube E) f" and "http_keeps (env_Http E) f"
  shows "keeps f (poll E opts pc)"
  by (rule keepsI)
    (auto simp: poll_def split: prod.splits sum.splits dest!: keepsD [OF ensureReversePeer_keeps [OF assms(2)]]
      keepsD [OF peat_keeps(4) [OF assms(2)]] keepsD [OF pollDocuments_keeps [OF assms]])


section \<open>Runs of the destination\<close>

inductive destStep :: "'w Env \<Rightarrow> ImportOptions \<Rightarrow> (Config \<Rightarrow> 'w \<Rightarrow> string \<rightharpoonup> bytes) \<Rightarrow> 'w \<Rightarrow> 'w \<Rightarrow> bool"
  for E opts objects where
  import: "ReconcileImport E opts ns name w = (r, w') \<Longrightarrow> destStep E opts objects w w'"
| bridge: "poll E opts pc w = (evs, w') \<Longrightarrow> destStep E opts objects w w'"
| world: "objects (io_DestStore opts) w' = objects (io_DestStore opts) w \<Longrightarrow> destStep E opts objects w w'"

text \<open>
  Content under a key that agrees with an entry of a complete manifest, which was fetched from
  the local sidecar in a reconcile that ended in the state \<open>v\<close>.
\<close>

definition fetchedAndVerified :: "'w Env \<Rightarrow> ImportOptions \<Rightarrow> (string \<Rightarrow> 'w \<Rightarrow> string \<times> string \<rightharpoonup> string) \<Rightarrow>
    (string \<Rightarrow> string) \<Rightarrow> 'w \<Rightarrow> string \<Rightarrow> bytes \<Rightarrow> bool" where
  "fetchedAndVerified E opts docs canon v k b \<longleftrightarrow> (\<exists>i s m e. fetched E opts docs i s v \<and> Parse s = Inr m \<and>
     mn_Complete m \<and> e \<in> set (mn_Files m) \<and> canon k = canon (fe_Key e) \<and> entryVerified (env_sha256 E) e b)"

context controller_env
begin

lemma destStep_change:
  assumes "destStep E opts objects w w'" and "NewStore (env_SDK E) (io_DestStore opts) = Inr ms"
    and diff: "objects (io_DestStore opts) w' (fullKey (ms_prefix ms) k) \<noteq> objects (io_DestStore opts) w (fullKey (ms_prefix ms) k)"
  shows "\<exists>b. objects (io_DestStore opts) w' (fullKey (ms_prefix ms) k) = Some b \<and>
    fetchedAndVerified E opts docs (fullKey (ms_prefix ms)) w' k b"
  using assms(1)
proof cases
  case (import ns name r)
  from this show ?thesis
  proof (rule ReconcileImport_cases)
    fix x assume touched: "objects (io_DestStore opts) w' = objects (io_DestStore opts) w \<or>
      storeTouched E opts docs objects (bis_ManifestDocID (bi_Spec x)) w w'"
    then obtain d m v r err v' where t: "fetched E opts docs (bis_ManifestDocID (bi_Spec x)) d w'" "Parse d = Inr m"
      "mn_Complete m" "Import (env_sha256 E) (env_OS E) (inboxImporter opts ms) m v = ((r, err), v')"
      "objects (io_DestStore opts) v = objects (io_DestStore opts) w"
      "objects (io_DestStore opts) w' = objects (io_DestStore opts) v'"
      using diff assms(2) unfolding storeTouched_def by auto
    have "im_Store (inboxImporter opts ms) = minio_Store ms" by (simp add: inboxImporter_def)
    from object_store.Import_change [OF store_contract [OF assms(2)] t(4) this] diff t(5,6)
    show ?thesis using t(1-3) unfolding verifiedChange_def fetchedAndVerified_def by auto blast
  qed (use diff in simp)
next
  case (bridge pc evs)
  then show ?thesis using keepsD [OF poll_keeps [OF kube_objects http_objects]] diff by metis
next
  case world
  then show ?thesis using diff by simp
qed

lemma destRun_content:
  assumes "(destStep E opts objects)\<^sup>*\<^sup>* w w'" and "NewStore (env_SDK E) (io_DestStore opts) = Inr ms"
  shows "objects (io_DestStore opts) w' (fullKey (ms_prefix ms) k) = objects (io_DestStore opts) w (fullKey (ms_prefix ms) k) \<or>
    (\<exists>b v. objects (io_DestStore opts) w' (fullKey (ms_prefix ms) k) = Some b \<and>
       (destStep E opts objects)\<^sup>*\<^sup>* w v \<and> (destStep E opts objects)\<^sup>*\<^sup>* v w' \<and>
       fetchedAndVerified E opts docs (fullKey (ms_prefix ms)) v k b)"
  using assms(1)
proof (induction rule: rtranclp_induct)
  case (step u w')
  show ?case
  proof (cases "objects (io_DestStore opts) w' (fullKey (ms_prefix ms) k) = objects (io_DestStore opts) u (fullKey (ms_prefix ms) k)")
    case True
    then show ?thesis using step.IH step.hyps(2) by (metis (no_types, lifting) rtranclp.rtrancl_into_rtrancl)
  next
    case False
    then show ?thesis
      using destStep_change [OF step.hyps(2) assms(2)] rtranclp.rtrancl_into_rtrancl [OF step.hyps] by blast
  qed
qed simp

end


section \<open>Properties\<close>

text \<open>
  C9: the integrity of the destination store: in every run of the destination role, an object of the
  store is as it was at the start of the run, or it was written during the run and its bytes have
  the size and the SHA-256 that an entry for its key gives in a complete manifest, fetched from
  the local sidecar during the run. No object is ever removed.
\<close>

theorem destination_store_integrity:
  assumes "controller_env E st files docs objects tags" and "(destStep E opts objects)\<^sup>*\<^sup>* w w'"
    and "NewStore (env_SDK E) (io_DestStore opts) = Inr ms"
  shows "(\<forall>b. objects (io_DestStore opts) w' (fullKey (ms_prefix ms) k) = Some b \<longrightarrow>
      objects (io_DestStore opts) w (fullKey (ms_prefix ms) k) = Some b \<or>
      (\<exists>v i s m e. (destStep E opts objects)\<^sup>*\<^sup>* w v \<and> (destStep E opts objects)\<^sup>*\<^sup>* v w' \<and>
         fetched E opts docs i s v \<and> Parse s = Inr m \<and> mn_Complete m \<and> e \<in> set (mn_Files m) \<and>
         fullKey (ms_prefix ms) k = fullKey (ms_prefix ms) (fe_Key e) \<and>
         hex_encode (env_sha256 E b) = fe_SHA256 e \<and> int (length b) = fe_Size e)) \<and>
    (objects (io_DestStore opts) w (fullKey (ms_prefix ms) k) \<noteq> None \<longrightarrow>
     objects (io_DestStore opts) w' (fullKey (ms_prefix ms) k) \<noteq> None)"
  using controller_env.destRun_content [OF assms, of k]
  unfolding fetchedAndVerified_def entryVerified_def by auto

theorem destination_store_integrity_witness:
  "\<exists>b (m :: Manifest) (e :: FileEntry). mem_store exImported ''restore/kopia/p0'' = Some b \<and> mn_Complete m \<and> e \<in> set (mn_Files m) \<and>
     hex_encode (exSum b) = fe_SHA256 e \<and> int (length b) = fe_Size e"
proof -
  have key: "fullKey (ms_prefix exDest) ''kopia/p0'' = ''restore/kopia/p0''" by (simp add: exDest_def) code_simp
  have store: "mem_objects ''velero'' (io_DestStore exOptions) w = mem_store w" for w :: kubeworld
    by (simp add: mem_objects_def exOptions_def)
  have "ReconcileImport exEnv exOptions ''velero'' ''default-b'' exArrived = ((doneResult, None), exImported)"
    using exImport_run by blast
  then have run: "(destStep exEnv exOptions (mem_objects ''velero''))\<^sup>*\<^sup>* exArrived exImported"
    by (intro r_into_rtranclp destStep.import)
  have ms: "NewStore (env_SDK exEnv) (io_DestStore exOptions) = Inr exDest" using exDest_new by simp
  have "handleEntry (exSpecs ! 1) (exHandle 1) \<in> set (mn_Files runManifest)"
    by (simp add: runManifest_def replicationManifest_def exEntries_def)
  then obtain b where b: "mem_store exImported (fullKey ''restore'' ''kopia/p0'') = Some b"
    using exImported_present by (fastforce simp: handleEntry_def exSpecs_def exSpecOf_def)
  moreover have "fullKey ''restore'' ''kopia/p0'' = ''restore/kopia/p0''" by code_simp
  ultimately have now: "mem_store exImported ''restore/kopia/p0'' = Some b" by simp
  have old: "mem_store exArrived ''restore/kopia/p0'' \<noteq> Some b"
    by (simp add: mem_store_def exArrived_def exShipped_objs)
  from mp [OF spec [OF conjunct1 [OF destination_store_integrity [OF exEnv_contract run ms, of "''kopia/p0''",
      unfolded store key exEnv_simps]]] now]
  show ?thesis
  proof (elim disjE exE conjE)
    fix m :: Manifest and e :: FileEntry assume "mn_Complete m" "e \<in> set (mn_Files m)" "hex_encode (exSum b) = fe_SHA256 e" "int (length b) = fe_Size e"
    with now show ?thesis by (intro exI [of _ b] exI [of _ m] exI [of _ e] conjI)
  qed (use old in contradiction)
qed

end
