(* ===== verification/Shipped_Data.thy ===== *)
theory Shipped_Data
  imports Replication_Properties
begin

text \<open>
  What a shipped backup leaves behind, whatever handles the sidecar returns: every entry of the
  manifest is a well-formed and true description of one of the staged objects, and the bundle
  statuses account for every staged file and every staged byte.
\<close>


section \<open>Digests in hexadecimal\<close>

lemma length_hex_encode: "length (hex_encode b) = 2 * length b"
  by (induction b) (simp_all add: hex_encode_def Let_def)

lemma hex_digit_set: "n < 16 \<Longrightarrow> hex_digit n \<in> set ''0123456789abcdef''"
proof -
  assume "n < 16"
  moreover have "list_all (\<lambda>n. hex_digit n \<in> set ''0123456789abcdef'') [0 ..< 16]" by code_simp
  ultimately show ?thesis by (simp add: list_all_iff)
qed

lemma hex_encode_set: "set (hex_encode b) \<subseteq> set ''0123456789abcdef''"
proof (induction b)
  case (Cons c b)
  have "of_char c div 16 < (16 :: nat)" by (simp add: div_less_iff_less_mult)
  then have "hex_digit (of_char c div 16) \<in> set ''0123456789abcdef''" "hex_digit (of_char c mod 16) \<in> set ''0123456789abcdef''"
    by (blast intro: hex_digit_set, intro hex_digit_set) simp
  moreover have "hex_encode (c # b) = hex_digit (of_char c div 16) # hex_digit (of_char c mod 16) # hex_encode b"
    by (simp add: hex_encode_def Let_def)
  ultimately show ?case using Cons by (metis insert_subset list.simps(15))
qed (simp add: hex_encode_def)


section \<open>Entries and statuses\<close>

text \<open>
  The format of an entry: the path is relative and normalised and stays inside the root, the base
  name is that of the path, and the digest has 64 hexadecimal digits in lower case.
\<close>

definition entryTyped :: "FileEntry \<Rightarrow> bool" where
  "entryTyped e \<longleftrightarrow> safe_path (fe_Key e) \<and> fe_Basename e = path_base (fe_Key e) \<and>
     length (fe_SHA256 e) = 64 \<and> set (fe_SHA256 e) \<subseteq> set ''0123456789abcdef''"

lemma handleEntries_sources:
  "e \<in> set (handleEntries files hs entries) \<Longrightarrow> e \<in> set entries \<or> (\<exists>f \<in> set files. \<exists>h. e = handleEntry f h)"
proof (induction hs arbitrary: entries)
  case (Cons h hs)
  then show ?case by (fastforce split: if_splits)
qed simp

text \<open>The statuses count the batches, the entries come from their files.\<close>

lemma sendBundles_accounts:
  "sendBundles http name prio pc i bs (statuses, entries, d) w = Some (Inr (statuses', entries', d'), w') \<Longrightarrow>
   map bs_FileCount statuses' = map bs_FileCount statuses @ map (\<lambda>b. wrap32 (int (length (b_Files b)))) bs \<and>
   map bs_Bytes statuses' = map bs_Bytes statuses @ map (\<lambda>b. int64_of_u64 (b_Bytes b)) bs \<and>
   (\<forall>e \<in> set entries'. e \<in> set entries \<or> (\<exists>f \<in> set (concat (map b_Files bs)). \<exists>h. e = handleEntry f h))"
proof (induction bs arbitrary: pc i statuses entries d w)
  case (Cons b bs)
  show ?case
  proof (rule sendBundles_Cons_cases [OF Cons.prems(1)])
    fix res pc1 w1 progs w2 phase bytes ids
    let ?s = "(newBundleStatus (bundleIdent name i) b)\<lparr>bs_Phase := phase, bs_BytesTransferred := bytes,
        bs_DistributionIDs := ids\<rparr>"
    assume rest: "sendBundles http name prio pc1 (Suc i) bs
        (statuses @ [?s], handleEntries (b_Files b) (sr_Handles res) entries,
         if phase \<noteq> BundleCompleted then False else d) w2 = Some (Inr (statuses', entries', d'), w')"
    have "bs_FileCount ?s = wrap32 (int (length (b_Files b)))" "bs_Bytes ?s = int64_of_u64 (b_Bytes b)"
      by (simp_all add: newBundleStatus_def)
    then show ?thesis
      using Cons.IH [OF rest] handleEntries_sources [of _ "b_Files b" "sr_Handles res" entries] by fastforce
  qed simp_all
qed simp

lemma sum_list_member: "x \<in> set xs \<Longrightarrow> f x \<le> (\<Sum>y \<leftarrow> xs. f y :: nat)"
  by (rule member_le_sum_list) auto

lemma wsum_nsum: "nsum fs < 2 ^ 64 \<Longrightarrow> unat (wsum fs) = nsum fs"
proof (induction fs)
  case (Cons f fs)
  then show ?case using unat_add_no_wrap [of "fs_Size f" "wsum fs"] by (simp add: wsum_Cons)
qed simp

lemma length_concat_files: "length (concat (map b_Files bs)) = (\<Sum>b \<leftarrow> bs. length (b_Files b))"
  by (induction bs) simp_all

lemma nsum_concat_files: "nsum (concat (map b_Files bs)) = (\<Sum>b \<leftarrow> bs. nsum (b_Files b))"
  by (induction bs) simp_all

lemma sum_list_int: "(\<Sum>x \<leftarrow> xs. int (f x)) = int (\<Sum>x \<leftarrow> xs. f x)"
  by (induction xs) simp_all

text \<open>The batches of a packing, counted as the statuses count them.\<close>

lemma Pack_file_counts:
  assumes "length files < 2 ^ 31"
  shows "(\<Sum>b \<leftarrow> Pack files mf mb. wrap32 (int (length (b_Files b)))) = int (length files)"
    and "b \<in> set (Pack files mf mb) \<Longrightarrow> 1 \<le> wrap32 (int (length (b_Files b)))"
proof -
  have small: "wrap32 (int (length (b_Files b))) = int (length (b_Files b))" if "b \<in> set (Pack files mf mb)" for b
  proof -
    have "length (b_Files b) \<le> length files"
      using sum_list_member [OF that, of "\<lambda>b. length (b_Files b)"] by (simp flip: length_concat_files add: Pack_concat_files)
    then show ?thesis using assms by (simp add: in_int32_def)
  qed
  have "(\<Sum>b \<leftarrow> Pack files mf mb. wrap32 (int (length (b_Files b)))) = (\<Sum>b \<leftarrow> Pack files mf mb. int (length (b_Files b)))"
    by (rule arg_cong [of _ _ sum_list]) (simp add: small)
  also have "\<dots> = int (length (concat (map b_Files (Pack files mf mb))))"
    by (simp only: length_concat_files sum_list_int)
  finally show "(\<Sum>b \<leftarrow> Pack files mf mb. wrap32 (int (length (b_Files b)))) = int (length files)"
    by (simp add: Pack_concat_files)
  show "1 \<le> wrap32 (int (length (b_Files b)))" if "b \<in> set (Pack files mf mb)"
    using small [OF that] Pack_batch_ok [OF that] by (cases "b_Files b") (simp_all add: batch_ok_def)
qed

lemma Pack_byte_counts:
  assumes "nsum files < 2 ^ 63"
  shows "(\<Sum>b \<leftarrow> Pack files mf mb. int64_of_u64 (b_Bytes b)) = int (nsum files)"
proof -
  have small: "int64_of_u64 (b_Bytes b) = int (nsum (b_Files b))" if b: "b \<in> set (Pack files mf mb)" for b
  proof -
    have "nsum (b_Files b) \<le> nsum files"
      using sum_list_member [OF b, of "\<lambda>b. nsum (b_Files b)"] by (simp flip: nsum_concat_files add: Pack_concat_files)
    moreover have "b_Bytes b = wsum (b_Files b)" using Pack_batch_ok [OF b] by (simp add: batch_ok_def)
    ultimately show ?thesis using assms int64_of_u64_small [of "b_Bytes b"] wsum_nsum [of "b_Files b"] by simp
  qed
  have "(\<Sum>b \<leftarrow> Pack files mf mb. int64_of_u64 (b_Bytes b)) = (\<Sum>b \<leftarrow> Pack files mf mb. int (nsum (b_Files b)))"
    by (rule arg_cong [of _ _ sum_list]) (simp add: small)
  also have "\<dots> = int (nsum (concat (map b_Files (Pack files mf mb))))"
    by (simp only: nsum_concat_files sum_list_int)
  finally show ?thesis by (simp add: Pack_concat_files)
qed

context controller_env
begin

lemma describes_typed:
  assumes "describes E objects cfg k v e"
  shows "entryTyped e"
proof -
  obtain b where e: "safeRelPath k = Inr (fe_Key e)" "fe_Basename e = path_base (fe_Key e)"
    "fe_SHA256 e = hex_encode (sum32 (env_sha256 E b))"
    using assms unfolding describes_def by blast
  have "length (sum32 (env_sha256 E b)) = 32" by (simp add: sum32_def)
  then show ?thesis
    unfolding entryTyped_def e(2,3) length_hex_encode using safeRelPath_safe [OF e(1)] hex_encode_set by simp
qed

text \<open>The staged objects have contents, whose lengths are the sizes of the files.\<close>

lemma staged_contents:
  assumes "list_all2 (\<lambda>(k, v) f. stagedFor E objects cfg root k v f) (zip keys states) specs"
    and "length states = length keys" and "NewStore (env_SDK E) cfg = Inr ms"
  shows "\<exists>bs. length bs = length keys \<and> (\<forall>i < length keys. objects cfg (states ! i) (fullKey (ms_prefix ms) (keys ! i)) = Some (bs ! i)) \<and>
    ((\<Sum>b \<leftarrow> bs. length b) < 2 ^ 63 \<longrightarrow> nsum specs = (\<Sum>b \<leftarrow> bs. length b))"
proof -
  have len: "length specs = length keys" using list_all2_lengthD [OF assms(1)] assms(2) by simp
  have "\<exists>b. objects cfg (states ! i) (fullKey (ms_prefix ms) (keys ! i)) = Some b \<and> fs_Size (specs ! i) = u64_of_int64 (int (length b))"
    if "i < length keys" for i
    using assms that len by (auto simp: list_all2_conv_all_nth stagedFor_def)
  then obtain g where g: "\<And>i. i < length keys \<Longrightarrow> objects cfg (states ! i) (fullKey (ms_prefix ms) (keys ! i)) = Some (g i)"
    "\<And>i. i < length keys \<Longrightarrow> fs_Size (specs ! i) = u64_of_int64 (int (length (g i)))" by metis
  let ?bs = "map g [0 ..< length keys]"
  have "nsum specs = (\<Sum>b \<leftarrow> ?bs. length b)" if "(\<Sum>b \<leftarrow> ?bs. length b) < 2 ^ 63"
  proof -
    have "unat (fs_Size (specs ! i)) = length (g i)" if i: "i < length keys" for i
    proof -
      have "length (g i) \<le> (\<Sum>b \<leftarrow> ?bs. length b)" using i by (intro sum_list_member) auto
      then show ?thesis using \<open>(\<Sum>b \<leftarrow> ?bs. length b) < 2 ^ 63\<close> g(2) [OF i] by (simp add: unat_u64_of_int64)
    qed
    then have "map (\<lambda>f. unat (fs_Size f)) specs = map length ?bs" using len by (intro nth_equalityI) simp_all
    then show ?thesis by simp
  qed
  then show ?thesis using g(1) by (intro exI [of _ ?bs]) simp
qed

lemma shipped_accounts:
  assumes "shippedBy E policy x cfg keys states statuses entries w w'"
  shows "length states = length keys" and "e \<in> set entries \<Longrightarrow> \<exists>i < length keys. describes E objects cfg (keys ! i) (states ! i) e"
    and "length keys < 2 ^ 31 \<Longrightarrow> (\<Sum>s \<leftarrow> statuses. bs_FileCount s) = int (length keys) \<and> (\<forall>s \<in> set statuses. 1 \<le> bs_FileCount s)"
    and "\<exists>ms bs. NewStore (env_SDK E) cfg = Inr ms \<and> length bs = length keys \<and>
      (\<forall>i < length keys. objects cfg (states ! i) (fullKey (ms_prefix ms) (keys ! i)) = Some (bs ! i)) \<and>
      ((\<Sum>b \<leftarrow> bs. length b) < 2 ^ 63 \<longrightarrow> (\<Sum>s \<leftarrow> statuses. bs_Bytes s) = int (\<Sum>b \<leftarrow> bs. length b))"
proof -
  obtain ms v1 specs tot v2 sg pc v3 v4 where run: "NewStore (env_SDK E) cfg = Inr ms"
    "stageAll E sg (minio_Store ms) keys [] 0 v1 = (Inr (specs, tot), v2)"
    "states = stagingStates E sg (minio_Store ms) keys v1"
    "sendBundles (env_Http E) (snd (rep_key x)) (mapPriority (rp_Priority (pol_Spec policy))) pc 0
      (Pack specs (rp_BundleFileLimit (pol_Spec policy)) (u64_of_int64 (rp_BundleByteLimit (pol_Spec policy))))
      ([], [], True) v3 = Some (Inr (statuses, entries, True), v4)"
    by (rule shipped_steps [OF assms])
  let ?bs = "Pack specs (rp_BundleFileLimit (pol_Spec policy)) (u64_of_int64 (rp_BundleByteLimit (pol_Spec policy)))"
  have sent: "map bs_FileCount statuses = map (\<lambda>b. wrap32 (int (length (b_Files b)))) ?bs"
    "map bs_Bytes statuses = map (\<lambda>b. int64_of_u64 (b_Bytes b)) ?bs"
    and sources: "\<forall>e \<in> set entries. \<exists>f \<in> set specs. \<exists>h. e = handleEntry f h"
    using sendBundles_accounts [OF run(4), unfolded Pack_concat_files] by simp_all
  show lens: "length states = length keys" by (simp add: run(3))
  have staged: "list_all2 (\<lambda>(k, v) f. stagedFor E objects cfg (sg_RootName sg) k v f) (zip keys states) specs"
    unfolding run(3) by (rule stageAll_describes(1) [OF run(1,2)])
  have len: "length specs = length keys" using list_all2_lengthD [OF staged] lens by simp
  show "\<exists>i < length keys. describes E objects cfg (keys ! i) (states ! i) e" if e: "e \<in> set entries"
  proof -
    obtain i h where "i < length keys" "e = handleEntry (specs ! i) h"
      using sources e len by (metis in_set_conv_nth)
    then show ?thesis using staged lens len by (auto simp: list_all2_conv_all_nth intro: stagedFor_describes)
  qed
  show "(\<Sum>s \<leftarrow> statuses. bs_FileCount s) = int (length keys) \<and> (\<forall>s \<in> set statuses. 1 \<le> bs_FileCount s)"
    if "length keys < 2 ^ 31"
  proof
    show "(\<Sum>s \<leftarrow> statuses. bs_FileCount s) = int (length keys)" unfolding sent(1) using Pack_file_counts(1) len that by simp
    have "set (map bs_FileCount statuses) = (\<lambda>b. wrap32 (int (length (b_Files b)))) ` set ?bs" unfolding sent(1) by simp
    moreover have "1 \<le> wrap32 (int (length (b_Files b)))" if "b \<in> set ?bs" for b
      by (rule Pack_file_counts(2) [OF _ that]) (use len \<open>length keys < 2 ^ 31\<close> in simp)
    ultimately have "\<forall>n \<in> set (map bs_FileCount statuses). 1 \<le> n" by simp
    then show "\<forall>s \<in> set statuses. 1 \<le> bs_FileCount s" by simp
  qed
  show "\<exists>ms bs. NewStore (env_SDK E) cfg = Inr ms \<and> length bs = length keys \<and>
      (\<forall>i < length keys. objects cfg (states ! i) (fullKey (ms_prefix ms) (keys ! i)) = Some (bs ! i)) \<and>
      ((\<Sum>b \<leftarrow> bs. length b) < 2 ^ 63 \<longrightarrow> (\<Sum>s \<leftarrow> statuses. bs_Bytes s) = int (\<Sum>b \<leftarrow> bs. length b))"
    unfolding sent(2) using staged_contents [OF staged lens run(1)] run(1) Pack_byte_counts by metis
qed

end


section \<open>Properties\<close>

text \<open>
  C12: what is shipped is well-formed, true and accounted for, whatever handles the sidecar returns.
  Every entry of the manifest has a path that stays inside the root, its base name and a digest of
  64 hexadecimal digits, and it describes one of the listed objects as it was when it was
  staged: a sidecar that loses or invents handles can make the manifest incomplete, but never
  false. The statuses of the bundles account for every object: no bundle is empty, the file
  counts add up to the number of listed objects (below 2^31), and the byte counts to the
  lengths of the contents that the objects had when they were staged (below 2^63 in all).
\<close>

theorem shipped_data_typed_and_true:
  assumes "controller_env E st files docs objects tags"
    and "shippedBy E policy x cfg keys states statuses entries w w'"
  shows "(\<forall>e \<in> set entries. entryTyped e \<and> (\<exists>i < length keys. describes E objects cfg (keys ! i) (states ! i) e)) \<and>
    (length keys < 2 ^ 31 \<longrightarrow>
      (\<Sum>s \<leftarrow> statuses. bs_FileCount s) = int (length keys) \<and> (\<forall>s \<in> set statuses. 1 \<le> bs_FileCount s)) \<and>
    (\<exists>ms bs. NewStore (env_SDK E) cfg = Inr ms \<and> length bs = length keys \<and>
      (\<forall>i < length keys. objects cfg (states ! i) (fullKey (ms_prefix ms) (keys ! i)) = Some (bs ! i)) \<and>
      ((\<Sum>b \<leftarrow> bs. length b) < 2 ^ 63 \<longrightarrow> (\<Sum>s \<leftarrow> statuses. bs_Bytes s) = int (\<Sum>b \<leftarrow> bs. length b)))"
  using controller_env.shipped_accounts(2-4) [OF assms] controller_env.describes_typed [OF assms(1)] by blast

theorem shipped_data_typed_and_true_witness:
  "list_all entryTyped exEntries \<and> bs_FileCount exBundleStatus = 2 \<and> bs_Bytes exBundleStatus = 5"
proof -
  note shipped = shipped_data_typed_and_true [OF exEnv_contract exShippedBy]
  have keys: "length exKeys = 2" by (simp add: exKeys_def)
  have count: "bs_FileCount exBundleStatus = 2" using shipped keys by simp
  obtain ms bs where bs: "NewStore (env_SDK exEnv) exStoreConfig = Inr ms" "length bs = 2"
    "\<forall>i < 2. mem_objects ''velero'' exStoreConfig (exStates ! i) (fullKey (ms_prefix ms) (exKeys ! i)) = Some (bs ! i)"
    "(\<Sum>b \<leftarrow> bs. length b) < 2 ^ 63 \<longrightarrow> bs_Bytes exBundleStatus = int (\<Sum>b \<leftarrow> bs. length b)"
    using shipped unfolding keys by auto
  have "ms = exMinio" using bs(1) exNewStore by simp
  then have "ms_prefix ms = ''backups''" by (simp add: exMinio_def)
  moreover have "fullKey ''backups'' (exKeys ! 0) = ''backups/backups/b/velero-backup.json''"
    "fullKey ''backups'' (exKeys ! 1) = ''backups/kopia/p0''" by code_simp+
  ultimately have "bs ! 0 = ''{}''" "bs ! 1 = ''abc''"
    using bs(3) exStates_objs(2) [of 0] exStates_objs(2) [of 1]
    by (auto simp: less_2_cases_iff mem_objects_def mem_store_def exStoreConfig_def zeroConfig_def exQueued_def exCluster_def)
  then have "bs = [''{}'', ''abc'']" using bs(2) by (intro nth_equalityI) (auto simp: less_2_cases_iff)
  then show ?thesis using bs(4) shipped count by (simp add: list_all_iff)
qed

end
