(* ===== verification/Snapback_Main.thy ===== *)
theory Snapback_Main
  imports Import_Controller
begin

text \<open>
  The start of the program (\<open>src/src/cmd/main.go\<close>): the flags with their defaults, the
  validation of the role, the import options of the destination role, which controllers are
  registered for which role, and the order of the start. The parsing of the command line, the
  manager and the logger are libraries.
\<close>


section \<open>Flags\<close>

definition roleSource :: string where
  "roleSource = ''source''"

definition roleDestination :: string where
  "roleDestination = ''destination''"

record Flags =
  fl_role :: string
  fl_peatAddress :: string
  fl_inboxPath :: string
  fl_manifestCollection :: string
  fl_pollInterval :: int
  fl_destEndpoint :: string
  fl_destRegion :: string
  fl_destBucket :: string
  fl_destPrefix :: string
  fl_destForcePathStyle :: bool
  fl_destInsecureTLS :: bool
  fl_destCredsFile :: string
  fl_destCredsProfile :: string
  fl_sourceEndpointID :: string
  fl_sourceAddresses :: string
  fl_sourceRelayURL :: string

definition defaultFlags :: Flags where
  "defaultFlags = \<lparr>fl_role = roleSource, fl_peatAddress = ''localhost:50051'', fl_inboxPath = ''/var/lib/peat/inbox'',
     fl_manifestCollection = Collection, fl_pollInterval = 30 * second, fl_destEndpoint = '''', fl_destRegion = '''',
     fl_destBucket = '''', fl_destPrefix = '''', fl_destForcePathStyle = True, fl_destInsecureTLS = False,
     fl_destCredsFile = '''', fl_destCredsProfile = '''', fl_sourceEndpointID = '''', fl_sourceAddresses = '''',
     fl_sourceRelayURL = ''''\<rparr>"


section \<open>Options of the destination\<close>

definition splitCSV :: "string \<Rightarrow> string list" where
  "splitCSV s =
     (if trim_space s = '''' then []
      else filter (\<lambda>p. p \<noteq> '''') (map trim_space (split_on (CHR '','') s)))"

text \<open>\<open>os.ReadFile\<close>.\<close>

definition readFile :: "'w OS \<Rightarrow> string \<Rightarrow> 'w \<Rightarrow> bytes result" where
  "readFile os p w = (case os_Open os p w of Inl e \<Rightarrow> Inl e | Inr _ \<Rightarrow> os_Read os p w)"

definition destStore :: "'w OS \<Rightarrow> Flags \<Rightarrow> 'w \<Rightarrow> Config result" where
  "destStore os f w =
     (let cfg = zeroConfig\<lparr>cfg_Endpoint := fl_destEndpoint f, cfg_Region := fl_destRegion f, cfg_Bucket := fl_destBucket f,
            cfg_Prefix := fl_destPrefix f, cfg_ForcePathStyle := fl_destForcePathStyle f,
            cfg_InsecureTLS := fl_destInsecureTLS f\<rparr>
      in if fl_destCredsFile f = '''' then Inr cfg
         else case readFile os (fl_destCredsFile f) w of
             Inl e \<Rightarrow> Inl (Wrapf ''read dest credentials'' [fl_destCredsFile f] e)
           | Inr credBytes \<Rightarrow>
               (case ParseAWSCredentials credBytes (fl_destCredsProfile f) of
                  Inl e \<Rightarrow> Inl (Wrapf ''parse dest credentials'' [] e)
                | Inr (ak, sk, token) \<Rightarrow>
                    Inr (cfg\<lparr>cfg_AccessKeyID := ak, cfg_SecretAccessKey := sk, cfg_SessionToken := token\<rparr>)))"

definition buildImportOptions :: "'w OS \<Rightarrow> (string \<Rightarrow> string) \<Rightarrow> Flags \<Rightarrow> 'w \<Rightarrow> ImportOptions result" where
  "buildImportOptions os getenv f w =
     (if fl_destEndpoint f = '''' then Inl (Errorf ''--dest-endpoint is required for role=destination'' [])
      else if fl_destBucket f = '''' then Inl (Errorf ''--dest-bucket is required for role=destination'' [])
      else case destStore os f w of
          Inl e \<Rightarrow> Inl e
        | Inr cfg \<Rightarrow>
            Inr \<lparr>io_PeatAddress = fl_peatAddress f, io_InboxRoot = fl_inboxPath f,
              io_ManifestCollection = fl_manifestCollection f,
              io_Namespace = (let ns = getenv ''POD_NAMESPACE'' in if ns = '''' then ''snapback'' else ns),
              io_PollInterval = fl_pollInterval f, io_DestStore = cfg, io_SourceEndpointID = fl_sourceEndpointID f,
              io_SourceAddresses = splitCSV (fl_sourceAddresses f), io_SourceRelayURL = fl_sourceRelayURL f\<rparr>)"


section \<open>Roles\<close>

text \<open>
  What is registered with the manager before it starts. The manager is that of the
  controller-runtime: it may fail at every call.
\<close>

datatype runner =
    RunBackup
  | RunReplication
  | RunImport ImportOptions
  | RunBridge ImportOptions

record 'w Manager =
  mg_New :: "'w \<Rightarrow> goerr option \<times> 'w"
  mg_Register :: "runner \<Rightarrow> 'w \<Rightarrow> goerr option \<times> 'w"
  mg_AddHealthzCheck :: "'w \<Rightarrow> goerr option \<times> 'w"
  mg_AddReadyzCheck :: "'w \<Rightarrow> goerr option \<times> 'w"
  mg_Start :: "'w \<Rightarrow> goerr option \<times> 'w"

definition validRole :: "Flags \<Rightarrow> bool" where
  "validRole f \<longleftrightarrow> \<not> (fl_role f \<noteq> roleSource \<and> fl_role f \<noteq> roleDestination)"

text \<open>Two registrations one after the other; the second is tried only when the first succeeds.\<close>

definition registerBoth :: "'w Manager \<Rightarrow> runner \<Rightarrow> runner \<Rightarrow> ('w, runner list) effect" where
  "registerBoth M a b w =
     (case mg_Register M a w of
        (Some e, w1) \<Rightarrow> (Inl e, w1)
      | (None, w1) \<Rightarrow> (case mg_Register M b w1 of
            (Some e, w2) \<Rightarrow> (Inl e, w2)
          | (None, w2) \<Rightarrow> (Inr [a, b], w2)))"

definition setupRole :: "'w Manager \<Rightarrow> 'w OS \<Rightarrow> (string \<Rightarrow> string) \<Rightarrow> Flags \<Rightarrow> ('w, runner list) effect" where
  "setupRole M os getenv f w =
     (if fl_role f = roleSource then registerBoth M RunBackup RunReplication w
      else if fl_role f = roleDestination then
        (case buildImportOptions os getenv f w of
           Inl e \<Rightarrow> (Inl e, w)
         | Inr opts \<Rightarrow> registerBoth M (RunImport opts) (RunBridge opts) w)
      else (Inr [], w))"

text \<open>The health checks and the run of the manager.\<close>

definition startManager :: "'w Manager \<Rightarrow> 'w \<Rightarrow> goerr option \<times> 'w" where
  "startManager M w =
     (case mg_AddHealthzCheck M w of
        (Some e, w1) \<Rightarrow> (Some e, w1)
      | (None, w1) \<Rightarrow> (case mg_AddReadyzCheck M w1 of
            (Some e, w2) \<Rightarrow> (Some e, w2)
          | (None, w2) \<Rightarrow> mg_Start M w2))"

text \<open>
  The program after the parsing of its flags: the result is the error with which the process
  exits, or what ran until the manager was stopped.
\<close>

definition mainProgram :: "'w Manager \<Rightarrow> 'w OS \<Rightarrow> (string \<Rightarrow> string) \<Rightarrow> Flags \<Rightarrow> ('w, runner list) effect" where
  "mainProgram M os getenv f w =
     (if \<not> validRole f then (Inl (Errorf ''invalid role'' [fl_role f]), w)
      else case mg_New M w of
          (Some e, w1) \<Rightarrow> (Inl e, w1)
        | (None, w1) \<Rightarrow> (case setupRole M os getenv f w1 of
              (Inl e, w2) \<Rightarrow> (Inl e, w2)
            | (Inr rs, w2) \<Rightarrow> (case startManager M w2 of
                  (Some e, w3) \<Rightarrow> (Inl e, w3)
                | (None, w3) \<Rightarrow> (Inr rs, w3))))"


section \<open>Properties\<close>

text \<open>Addresses as they are written in a list: printable, without spaces and commas.\<close>

definition cleanAddress :: "string \<Rightarrow> bool" where
  "cleanAddress a \<longleftrightarrow> a \<noteq> '''' \<and> list_all plain a \<and> CHR '','' \<notin> set a"

lemma cleanAddress_trim: "cleanAddress a \<Longrightarrow> trim_space a = a"
  unfolding cleanAddress_def by (intro trim_space_plain) (auto simp: list_all_iff)

lemma join_clean: "list_all cleanAddress as \<Longrightarrow> list_all plain (join_with (CHR '','') as)"
proof (induction "CHR '',''" as rule: join_with.induct)
  case (3 w v ws)
  then show ?case by (simp add: cleanAddress_def plain_def)
qed (simp_all add: cleanAddress_def)

lemma ParseAWSCredentials_keys:
  "ParseAWSCredentials body profile = Inr (ak, sk, token) \<Longrightarrow> ak \<noteq> '''' \<and> sk \<noteq> ''''"
  by (auto simp: ParseAWSCredentials_def Let_def split: sum.splits option.splits if_splits)

text \<open>
  The list of source addresses is read as it is written: joining clean addresses with commas
  and splitting gives the same list.
\<close>

theorem addresses_round_trip:
  assumes "list_all cleanAddress as"
  shows "splitCSV (join_with (CHR '','') as) = as"
proof (cases as)
  case (Cons a r)
  let ?s = "join_with (CHR '','') as"
  have "?s \<noteq> []" using assms Cons by (cases r) (auto simp: cleanAddress_def)
  moreover have "list_all plain ?s" using join_clean assms by blast
  ultimately have "trim_space ?s = ?s" by (intro trim_space_plain) (auto simp: list_all_iff)
  moreover have "split_on (CHR '','') ?s = as"
    using assms Cons by (intro split_join) (auto simp: cleanAddress_def list_all_iff)
  moreover have "map trim_space as = as" using assms cleanAddress_trim by (intro map_idI) (auto simp: list_all_iff)
  moreover have "filter (\<lambda>p. p \<noteq> '''') as = as" using assms by (auto simp: filter_id_conv cleanAddress_def list_all_iff)
  ultimately show ?thesis using \<open>?s \<noteq> []\<close> by (simp add: splitCSV_def)
qed (simp add: splitCSV_def trim_space_def)

theorem addresses_round_trip_witness:
  "splitCSV ''10.0.0.1:4001,peat.example:4001'' = [''10.0.0.1:4001'', ''peat.example:4001'']"
proof -
  have "list_all cleanAddress [''10.0.0.1:4001'', ''peat.example:4001'']" by code_simp
  from addresses_round_trip [OF this] show ?thesis by simp
qed

lemma registerBoth_ok: "registerBoth M a b w = (Inr rs, w') \<Longrightarrow> rs = [a, b]"
  by (auto simp: registerBoth_def split: prod.splits option.splits)

text \<open>
  C40: the roles are kept apart and a destination never runs half configured: a program that has run
  had registered either the two controllers of the source, or the import controller and the
  manifest bridge, with the same options; and a destination runs only with an endpoint, a bucket,
  and, when a credentials file is given, an access key and a secret from it.
\<close>

theorem roles_and_options:
  assumes "mainProgram M os getenv f w = (Inr rs, w')"
  shows "(fl_role f = roleSource \<and> rs = [RunBackup, RunReplication]) \<or>
    (\<exists>opts v. fl_role f = roleDestination \<and> rs = [RunImport opts, RunBridge opts] \<and>
       cfg_Endpoint (io_DestStore opts) \<noteq> '''' \<and> cfg_Bucket (io_DestStore opts) \<noteq> '''' \<and> io_Namespace opts \<noteq> '''' \<and>
       (fl_destCredsFile f \<noteq> '''' \<longrightarrow> (\<exists>b. readFile os (fl_destCredsFile f) v = Inr b \<and>
          ParseAWSCredentials b (fl_destCredsProfile f) = Inr (cfg_AccessKeyID (io_DestStore opts),
            cfg_SecretAccessKey (io_DestStore opts), cfg_SessionToken (io_DestStore opts)) \<and>
          cfg_AccessKeyID (io_DestStore opts) \<noteq> '''' \<and> cfg_SecretAccessKey (io_DestStore opts) \<noteq> '''')))"
proof -
  have role: "validRole f" using assms by (auto simp: mainProgram_def split: if_splits)
  obtain e v where new: "mg_New M w = (e, v)" by fastforce
  then have "e = None" using assms role by (cases e) (simp_all add: mainProgram_def)
  moreover obtain sr v' where set0: "setupRole M os getenv f v = (sr, v')" by fastforce
  moreover obtain se v'' where start: "startManager M v' = (se, v'')" by fastforce
  ultimately have "case sr of Inl e \<Rightarrow> False | Inr rs' \<Rightarrow> rs' = rs"
    using assms role new by (cases sr; cases se) (simp_all add: mainProgram_def)
  then have set: "setupRole M os getenv f v = (Inr rs, v')" using set0 by (simp split: sum.splits)
  show ?thesis
  proof (cases "fl_role f = roleSource")
    case True
    then show ?thesis using set registerBoth_ok [of M RunBackup RunReplication v rs v'] by (simp add: setupRole_def)
  next
    case False
    then have dest: "fl_role f = roleDestination" using role by (simp add: validRole_def)
    then obtain opts where opts: "buildImportOptions os getenv f v = Inr opts" "rs = [RunImport opts, RunBridge opts]"
      using set False registerBoth_ok [of M _ _ v rs v'] by (cases "buildImportOptions os getenv f v") (auto simp: setupRole_def)
    show ?thesis
      using dest opts ParseAWSCredentials_keys
      by (intro disjI2 exI [of _ opts] exI [of _ v])
        (auto simp: buildImportOptions_def destStore_def Let_def split: if_splits option.splits sum.splits prod.splits)
  qed
qed

definition exFlags :: Flags where
  "exFlags = defaultFlags\<lparr>fl_role := roleDestination, fl_destEndpoint := ''http://minio:9000'', fl_destBucket := ''velero''\<rparr>"

definition exManager :: "'w Manager" where
  "exManager = \<lparr>mg_New = Pair None, mg_Register = (\<lambda>r. Pair None), mg_AddHealthzCheck = Pair None,
     mg_AddReadyzCheck = Pair None, mg_Start = Pair None\<rparr>"

theorem roles_and_options_witness:
  "\<exists>opts. mainProgram exManager mem_os (\<lambda>v. '''') exFlags exInbox = (Inr [RunImport opts, RunBridge opts], exInbox) \<and>
     io_Namespace opts = ''snapback'' \<and> cfg_Bucket (io_DestStore opts) \<noteq> ''''"
proof -
  obtain opts where run: "mainProgram exManager mem_os (\<lambda>v. '''') exFlags exInbox = (Inr [RunImport opts, RunBridge opts], exInbox)"
    "io_Namespace opts = ''snapback''"
    by (simp add: mainProgram_def validRole_def setupRole_def registerBoth_def startManager_def exManager_def
        buildImportOptions_def destStore_def
        exFlags_def defaultFlags_def roleSource_def roleDestination_def Let_def)
  then show ?thesis using roles_and_options [OF run(1)] by auto
qed

end
