(* ===== verification/Spec2Isabelle.thy ===== *)
theory Spec2Isabelle
  imports Backup_Controller Replication_Properties Import_Properties Ledger_Concurrency
    Destination_Store Shipped_Data Snapback_Main
begin

text \<open>
  Snapback is a Kubernetes operator that replicates Velero backups across an air gap or a bad
  link, over the peat-node sidecar. This library models its Go code (below \<open>src/src\<close>) and proves
  what the code promises.

  \<^bold>\<open>The program.\<close> One binary (\<open>cmd/main.go\<close>) runs in one of two roles. In the \<^emph>\<open>source\<close> role the
  backup controller turns a completed Velero backup with an eligible policy into a work item, and
  the replication controller drives the item: it lists the objects of the backup that the
  ledger does not know, copies them to the outbox of the sidecar, packs them into bundles,
  sends the bundles and waits for them, publishes the manifest as a document of the sidecar
  and commits the ledger. In the \<^emph>\<open>destination\<close> role the manifest bridge polls the documents and
  creates an import for each complete manifest, and the import controller verifies the landed
  files against the manifest and publishes them in the destination store, the object by which
  Velero discovers a backup last. Kubernetes, the sidecar, the S3 service and the file system are
  reached through clients.

  \<^bold>\<open>Conventions.\<close> Stateful code takes the state of the world \<open>'w\<close> and returns it; every service
  is a record of functions on it (\<open>Kube\<close>, \<open>Http\<close>, \<open>OS\<close>, \<open>MinioClient\<close>, \<open>MinioSDK\<close>, \<open>Manager\<close>,
  together the \<open>Env\<close> of the controllers). A Go error is a value of \<open>goerr\<close>, a fallible result a
  sum with the error on the left. \<open>uint64\<close> is a 64-bit word, \<open>int64\<close> and \<open>int32\<close> are integers with
  explicit wrap-around, strings and byte slices are lists of bytes. A loop that may run for
  ever is a partial function into \<open>option\<close>: \<open>waitLoop\<close> (polling of a bundle), of which it is shown
  when it returns, with what, and when it does not, and \<open>bridgeLoop\<close> (the bridge), whose returning
  runs are shown to be runs of the system. No other computation is unbounded. The definitions that model code are executable.

  \<^bold>\<open>Foundations.\<close> \<open>Snapback_Prelude\<close>: errors, integers, lists, frame rules. \<open>Go_Strings\<close>, \<open>Go_Paths\<close>,
  \<open>Go_OS\<close>, \<open>Go_Json\<close>, \<open>Go_Url\<close>, \<open>Go_Time\<close>: what the code uses of the Go library; \<open>Go_Json\<close> has the printer,
  the whole parser (with the nesting bound of the library, 10000) and the decoding into structs,
  with \<open>parse (print v) = v\<close>; \<open>Go_OS\<close> has the contract \<open>posix_fs\<close> of the file system.

  \<^bold>\<open>Components.\<close>
  \<^item> \<open>Api_Types\<close>: \<open>api/v1alpha1\<close> and \<open>api/velero/v1\<close>, the resources as records.
  \<^item> \<open>Batching\<close>: \<open>internal/batching/batching.go\<close>. \<open>Pack\<close> is the unique next-fit packing, keeps its
    caps for sizes below \<open>2^63\<close>, and is stable under appending.
  \<^item> \<open>Manifest\<close>: \<open>internal/manifest/manifest.go\<close>. \<open>Parse\<close> inverts \<open>Marshal\<close> through the JSON bytes.
  \<^item> \<open>Objstore\<close>, \<open>Minio_Store\<close>, \<open>Objstore_New\<close>, \<open>Credentials\<close>: \<open>internal/objstore\<close>. The contract \<open>object_store\<close>
    of the \<open>Store\<close> interface, its implementation over an S3 client (\<open>s3_client\<close>, \<open>s3_store\<close>) as a
    refinement, the compare-and-swap of the ledger, the construction of a store, the parser of
    credentials files.
  \<^item> \<open>Staging\<close>: \<open>internal/staging/outbox.go\<close>. What \<open>StageObject\<close> leaves in the outbox on every path, and
    that no key leads out of it.
  \<^item> \<open>Importer\<close>: \<open>internal/importer/importer.go\<close>. One pass: verified bytes only, the discovery object
    last, exact results, idempotence, completion (\<open>live_store\<close>: a store that does not fail).
  \<^item> \<open>Peat_Types\<close>, \<open>Peat_Client\<close>: \<open>internal/peat\<close>, every call with its JSON messages, and the polling of
    \<open>WaitBundle\<close>. \<open>Peat_Node\<close>: the contracts of the sidecar, \<open>peat_documents\<close> and \<open>peat_attachments\<close>.
  \<^item> \<open>Kube\<close>, \<open>Controller_Env\<close>: what the controllers use of the controller runtime; \<open>kube_api\<close> is optimistic
    concurrency (reads may be stale, an update needs the current version), \<open>controller_env\<close> all
    contracts of the environment together.
  \<^item> \<open>Backup_Controller\<close>, \<open>Replication_Controller\<close>, \<open>Import_Controller\<close>: \<open>internal/controller\<close>, each
    reconcile with all its branches, and the bridge. \<open>Replication_Shipping\<close> shows what a pass achieves,
    \<open>Replication_Properties\<close> and \<open>Import_Properties\<close> hold the theorems on the two controllers.
  \<^item> \<open>Ledger_Concurrency\<close>: the commit of the ledger split into its read and its conditional write, which any
    number of writers interleave (the passes of several work items, or of several replicas). The
    compare-and-swap keeps every recorded key, whatever the outcomes of the single writes.
  \<^item> \<open>Destination_Store\<close>: the destination store over whole runs of imports and polls. Every new object
    holds bytes of the size and SHA-256 that some complete manifest document states for its key.
  \<^item> \<open>Shipped_Data\<close>: what a pass records is well-formed, true of the objects as they were staged, and
    accounts for every object and every byte, whatever handles the sidecar returns.
  \<^item> \<open>Snapback_Main\<close>: \<open>cmd/main.go\<close>, from the parsed flags to the end of the manager.

  Each contract is a locale and is interpreted on the in-memory services that stand beside it
  (\<open>mem_os\<close>, \<open>mem_client\<close>, \<open>mem_http\<close>, \<open>mem_kube\<close>, together \<open>mem_env\<close>); \<open>Example_Run\<close> replicates a backup
  there step by step, \<open>Import_Properties\<close> imports it, and the witnesses evaluate these runs.

  \<^bold>\<open>The system.\<close> This theory interleaves all controllers and the bridge (\<open>clusterStep\<close>) and shows that
  finished items stay finished and that the statuses are truthful in every reachable state. It
  composes the two roles over two clusters: what the replication declared shipped and the import
  declared imported is, object by object, what the source held in the state in which the object
  was staged. \<open>shippedBy\<close> is the whole reconcile that ships a backup, from state to state, and it
  determines these states. The bridge, from its start to its return, is a run of the system.

  \<^bold>\<open>What the theorems assume.\<close> The environment behaves as documented (\<open>controller_env\<close>); the strings
  that pass through JSON are UTF-8; where a theorem needs the sidecar to return one handle for
  each file, it says so (\<open>peat_attachments\<close>). SHA-256 is a parameter. \<^emph>\<open>Truthful\<close> about content thus
  means equality of digests.

  \<^bold>\<open>Not modelled.\<close> The generated deep copies (\<open>zz_generated.deepcopy.go\<close>) and the registration of
  types (\<open>groupversion_info.go\<close>, \<open>init\<close> of \<open>main.go\<close>); \<open>SetupWithManager\<close>, which names the watched
  types, and \<open>NeedLeaderElection\<close>, a constant; log lines (those of the bridge are events); the parsing
  of the command line and the address and leader flags, which go to the manager; \<open>Close\<close> methods,
  which do nothing; cancellation of a context, other than as an error of a call or the end of a
  wait; a change of an inbox file between its hash and its upload, which see one state. Writes of a work item by users are not steps of the system.
\<close>


section \<open>The system\<close>

text \<open>
  A cluster in which all parts of Snapback run: any reconcile and any poll may come next, in any
  order, and between them anything but the stored work items and imports may change. What a
  reconcile reads may be stale.
\<close>

inductive clusterStep :: "'w Env \<Rightarrow> ImportOptions \<Rightarrow> ('w \<Rightarrow> kubeState) \<Rightarrow> 'w \<Rightarrow> 'w \<Rightarrow> bool" for E opts st where
  backup: "ReconcileBackup (env_Kube E) ns name w = (r, w') \<Longrightarrow> clusterStep E opts st w w'"
| replication: "ReconcileReplication E ns name w = Some (r, w') \<Longrightarrow> clusterStep E opts st w w'"
| import: "ReconcileImport E opts ns name w = (r, w') \<Longrightarrow> clusterStep E opts st w w'"
| bridge: "poll E opts pc w = (evs, w') \<Longrightarrow> clusterStep E opts st w w'"
| world: "st w' = st w \<Longrightarrow> clusterStep E opts st w w'"

text \<open>What each step does to the statuses of the stored objects.\<close>

definition bundlesDone :: "BackupReplicationStatus \<Rightarrow> bool" where
  "bundlesDone s \<longleftrightarrow> brt_Bundles s \<noteq> [] \<and> (\<forall>b \<in> set (brt_Bundles s). bs_Phase b = BundleCompleted)"

definition repStatusOf :: "kubeState \<Rightarrow> okey \<Rightarrow> BackupReplicationStatus" where
  "repStatusOf s k = (case ks_reps s k of None \<Rightarrow> zeroReplicationStatus | Some x \<Rightarrow> br_Status x)"

definition repMoves :: "BackupReplicationStatus \<Rightarrow> BackupReplicationStatus \<Rightarrow> bool" where
  "repMoves s s' \<longleftrightarrow> s' = s \<or> (\<not> replicationTerminal (brt_Phase s) \<and> brt_Phase s' \<noteq> PhaseFailed \<and>
     (brt_Phase s' = PhaseReplicated \<longrightarrow> bundlesDone s'))"

definition impMoves :: "BackupImportStatus \<Rightarrow> BackupImportStatus \<Rightarrow> bool" where
  "impMoves s s' \<longleftrightarrow> s' = s \<or> (\<not> importTerminal (bit_Phase s) \<and> (bit_Phase s' = ImportImported \<longrightarrow> bit_Committed s'))"

definition evolves :: "kubeState \<Rightarrow> kubeState \<Rightarrow> bool" where
  "evolves s s' \<longleftrightarrow> (\<forall>k. repMoves (repStatusOf s k) (repStatusOf s' k)) \<and>
     (\<forall>k. impMoves (importStatusOf s k) (importStatusOf s' k)) \<and>
     dom (ks_reps s) \<subseteq> dom (ks_reps s') \<and> dom (ks_imps s) \<subseteq> dom (ks_imps s')"

text \<open>The statuses that the system can reach from a cluster whose items have not been started.\<close>

definition soundStatuses :: "kubeState \<Rightarrow> bool" where
  "soundStatuses s \<longleftrightarrow> (\<forall>k. brt_Phase (repStatusOf s k) \<noteq> PhaseFailed \<and>
       (brt_Phase (repStatusOf s k) = PhaseReplicated \<longrightarrow> bundlesDone (repStatusOf s k))) \<and>
     (\<forall>k. bit_Phase (importStatusOf s k) = ImportImported \<longrightarrow> bit_Committed (importStatusOf s k))"

lemma moves_refl [simp]: "repMoves s s" "impMoves t t"
  by (simp_all add: repMoves_def impMoves_def)

lemma repMoves_terminal: "repMoves s t \<Longrightarrow> replicationTerminal (brt_Phase s) \<Longrightarrow> t = s"
  by (auto simp: repMoves_def)

lemma impMoves_terminal: "impMoves s t \<Longrightarrow> importTerminal (bit_Phase s) \<Longrightarrow> t = s"
  by (auto simp: impMoves_def)

lemma evolves_refl [simp]: "evolves s s"
  by (simp add: evolves_def)

lemma evolves_put_rep:
  "repMoves (repStatusOf s (rep_key y)) (br_Status y) \<Longrightarrow> evolves s (put_rep y s)"
  by (auto simp: evolves_def repStatusOf_def importStatusOf_def)

lemma evolves_put_imp:
  "impMoves (importStatusOf s (imp_key y)) (bi_Status y) \<Longrightarrow> evolves s (put_imp y s)"
  by (auto simp: evolves_def repStatusOf_def importStatusOf_def)

lemma repMoves_quiet:
  "repMoves s t \<Longrightarrow> repMoves t u \<Longrightarrow> brt_Phase t \<noteq> PhaseReplicated \<or> bundlesDone t \<Longrightarrow> repMoves s u"
  by (auto simp: repMoves_def)

lemma quiet_evolves:
  assumes "repWrites quietStep k s s'"
  shows "evolves s s'"
  using assms
proof (induction rule: rtranclp_induct)
  case (step t u)
  obtain x y where u: "u = put_rep y t" "ks_reps t k = Some x" "rep_key y = k"
    "quietStep (brt_Phase (br_Status x)) (brt_Phase (br_Status y))"
    using step.hyps(2) by (auto elim: repWriteE)
  have move: "repMoves (br_Status x) (br_Status y)"
    using u(4) phaseStep_not_terminal by (auto simp: quietStep_def repMoves_def phaseStep_to_failed)
  have IH: "repMoves (repStatusOf s k') (repStatusOf t k')" for k' using step.IH unfolding evolves_def by blast
  have now: "repStatusOf t k = br_Status x" by (simp add: repStatusOf_def u(2))
  have "repMoves (repStatusOf s k') (repStatusOf u k')" for k'
  proof (cases "k' = k")
    case True
    have "repStatusOf u k = br_Status y" by (simp add: repStatusOf_def u(1,3))
    moreover have "replicationTerminal (brt_Phase (br_Status x)) \<Longrightarrow> False"
      using phaseStep_not_terminal u(4) by (auto simp: quietStep_def)
    ultimately show ?thesis using True IH [of k] move unfolding now by (auto simp: repMoves_def)
  next
    case False
    then have "repStatusOf u k' = repStatusOf t k'" using u(3) by (auto simp: repStatusOf_def u(1))
    then show ?thesis using IH by simp
  qed
  moreover have "ks_imps u = ks_imps t" "dom (ks_reps t) \<subseteq> dom (ks_reps u)" by (auto simp: u(1))
  moreover have "importStatusOf u = importStatusOf t" using \<open>ks_imps u = ks_imps t\<close> by (auto simp: importStatusOf_def fun_eq_iff)
  ultimately show ?case using step.IH unfolding evolves_def by (metis subset_trans)
qed simp

context controller_env
begin

lemma backup_evolves:
  assumes "ReconcileBackup (env_Kube E) ns name w = (r, w')"
  shows "evolves (st w) (st w')"
proof (cases rule: ReconcileBackup_cases [of "env_Kube E" ns name w])
  case (idle w1)
  then have "st w' = st w"
    using assms matchPolicy_frame [OF kube_api_axioms] get_backup_frame by fastforce
  then show ?thesis by simp
next
  case (ensure backup w1 policy w2 er w3)
  have st2: "st w2 = st w" using ensure matchPolicy_frame [OF kube_api_axioms] get_backup_frame by metis
  show ?thesis
  proof (cases er)
    case (Inl e)
    then show ?thesis using ensure ensure_rep_err st2 assms by simp
  next
    case (Inr op)
    let ?new = "newReplication (om_Name (bk_Meta backup)) (om_Namespace (bk_Meta backup))"
    obtain y where "rep_key y = rep_key ?new" "br_Status y = repStatusOf (st w2) (rep_key ?new)" "st w3 = put_rep y (st w2)"
      using ensure_rep_ok [OF ensure(5) [unfolded Inr]] unfolding repStatusOf_def by blast
    then show ?thesis using evolves_put_rep [of "st w" y] ensure(6) st2 assms by simp
  qed
qed

lemma replication_evolves:
  assumes "ReconcileReplication E ns name w = Some (r, w')"
  shows "evolves (st w) (st w')"
proof (rule Reconcile_cases [OF assms])
  fix policy x cfg keys states statuses entries y1 y
  assume run: "shippedBy E policy x cfg keys states statuses entries w w'" "\<not> replicationTerminal (brt_Phase (br_Status x))"
    "ks_reps (st w) (ns, name) = Some x" "rep_key y1 = (ns, name)" "rep_key y = (ns, name)"
    "brt_Phase (br_Status y) = PhaseReplicated" "brt_Bundles (br_Status y) = statuses" "st w' = put_rep y (put_rep y1 (st w))"
  have "repMoves (br_Status x) (br_Status y)"
    using run(2,6,7) shipped_effects(2,3) [OF run(1)] by (simp add: repMoves_def bundlesDone_def)
  then show ?thesis using run(3-5,8) by (auto simp: evolves_def repStatusOf_def importStatusOf_def)
qed (rule quiet_evolves)

lemma import_evolves:
  assumes "ReconcileImport E opts ns name w = (r, w')"
  shows "evolves (st w) (st w')"
proof (rule ReconcileImport_cases [OF assms])
  fix x assume "x \<in> ks_imp_seen (st w)" "imp_key x = (ns, name)" "\<not> importTerminal (bit_Phase (bi_Status x))"
    "storesStatus x (importOutcome E opts docs objects x w') (st w) (st w')"
  then show ?thesis
    unfolding storesStatus_def importOutcome_def
    by (auto simp: importStatusOf_def impMoves_def intro!: evolves_put_imp dest: importStep_not_terminal)
qed simp

lemma poll_evolves: "poll E opts pc w = (evs, w') \<Longrightarrow> evolves (st w) (st w')"
  using poll_statuses [of opts pc w evs w'] by (simp add: statusesKept_def evolves_def repStatusOf_def)

lemma clusterStep_evolves: "clusterStep E opts st w w' \<Longrightarrow> evolves (st w) (st w')"
  by (induction rule: clusterStep.induct)
    (auto intro: backup_evolves replication_evolves import_evolves poll_evolves)

lemma run_evolves:
  assumes "(clusterStep E opts st)\<^sup>*\<^sup>* w w'"
  shows "dom (ks_reps (st w)) \<subseteq> dom (ks_reps (st w'))" and "dom (ks_imps (st w)) \<subseteq> dom (ks_imps (st w'))"
    and "replicationTerminal (brt_Phase (repStatusOf (st w) k)) \<Longrightarrow> repStatusOf (st w') k = repStatusOf (st w) k"
    and "importTerminal (bit_Phase (importStatusOf (st w) k)) \<Longrightarrow> importStatusOf (st w') k = importStatusOf (st w) k"
proof -
  have "dom (ks_reps (st w)) \<subseteq> dom (ks_reps (st w')) \<and> dom (ks_imps (st w)) \<subseteq> dom (ks_imps (st w')) \<and>
    (replicationTerminal (brt_Phase (repStatusOf (st w) k)) \<longrightarrow> repStatusOf (st w') k = repStatusOf (st w) k) \<and>
    (importTerminal (bit_Phase (importStatusOf (st w) k)) \<longrightarrow> importStatusOf (st w') k = importStatusOf (st w) k)"
    using assms
  proof (induction rule: rtranclp_induct)
    case (step v v')
    from clusterStep_evolves [OF step.hyps(2)]
    have "dom (ks_reps (st v)) \<subseteq> dom (ks_reps (st v'))" "dom (ks_imps (st v)) \<subseteq> dom (ks_imps (st v'))"
      "repMoves (repStatusOf (st v) k) (repStatusOf (st v') k)" "impMoves (importStatusOf (st v) k) (importStatusOf (st v') k)"
      unfolding evolves_def by blast+
    then show ?case
      using step.IH repMoves_terminal [of "repStatusOf (st v) k"] impMoves_terminal [of "importStatusOf (st v) k"]
      by (intro conjI impI) (blast, blast, simp_all)
  qed simp
  then show "dom (ks_reps (st w)) \<subseteq> dom (ks_reps (st w'))" "dom (ks_imps (st w)) \<subseteq> dom (ks_imps (st w'))"
    "replicationTerminal (brt_Phase (repStatusOf (st w) k)) \<Longrightarrow> repStatusOf (st w') k = repStatusOf (st w) k"
    "importTerminal (bit_Phase (importStatusOf (st w) k)) \<Longrightarrow> importStatusOf (st w') k = importStatusOf (st w) k"
    by blast+
qed

lemma run_terminal_imports:
  assumes "(clusterStep E opts st)\<^sup>*\<^sup>* w w'" and "ks_imps (st w) k = Some x" and "importTerminal (bit_Phase (bi_Status x))"
  shows "\<exists>y. ks_imps (st w') k = Some y \<and> bi_Status y = bi_Status x"
proof -
  note later = run_evolves [OF assms(1)]
  obtain y where "ks_imps (st w') k = Some y"
    using later(2) domI [of "ks_imps (st w)", OF assms(2)] by (metis domD subsetD)
  then show ?thesis using later(4) [of k] assms(2,3) by (simp add: importStatusOf_def)
qed

lemma run_sound:
  assumes "(clusterStep E opts st)\<^sup>*\<^sup>* w w'" and "soundStatuses (st w)"
  shows "soundStatuses (st w')"
  using assms(1)
proof (induction rule: rtranclp_induct)
  case (step v v')
  have "brt_Phase (repStatusOf (st v') k) \<noteq> PhaseFailed \<and>
      (brt_Phase (repStatusOf (st v') k) = PhaseReplicated \<longrightarrow> bundlesDone (repStatusOf (st v') k))" for k
  proof -
    have "repMoves (repStatusOf (st v) k) (repStatusOf (st v') k)"
      using clusterStep_evolves [OF step.hyps(2)] unfolding evolves_def by blast
    then show ?thesis using step.IH unfolding soundStatuses_def repMoves_def by metis
  qed
  moreover have "bit_Phase (importStatusOf (st v') k) = ImportImported \<longrightarrow> bit_Committed (importStatusOf (st v') k)" for k
  proof -
    have "impMoves (importStatusOf (st v) k) (importStatusOf (st v') k)"
      using clusterStep_evolves [OF step.hyps(2)] unfolding evolves_def by blast
    then show ?thesis using step.IH unfolding soundStatuses_def impMoves_def by metis
  qed
  ultimately show ?case unfolding soundStatuses_def by blast
qed (rule assms(2))

text \<open>
  What the destination holds after an import has been declared imported, when the document of
  the import is an encoded manifest whose entries are for distinct objects.
\<close>

lemma imported_contents:
  assumes run: "ReconcileImport E opts ns name w = (res, w')"
    and y: "ks_imps (st w') k = Some y" "bit_Phase (bi_Status y) = ImportImported" "ks_imps (st w) k \<noteq> Some y"
    and utf: "valid_utf8 (io_ManifestCollection opts)" "valid_utf8 (bis_ManifestDocID (bi_Spec y))"
    and doc: "\<And>pc. NewClient (io_PeatAddress opts) = Inr pc \<Longrightarrow>
      docs (cc_baseURL pc) w' (io_ManifestCollection opts, bis_ManifestDocID (bi_Spec y)) = Some (json_print (encManifest m))"
    and m: "manifestOk m" "mn_SchemaVersion m = SchemaVersion" "inj_on (\<lambda>e. trim_left (fe_Key e) ''/'') (set (mn_Files m))"
  shows "\<exists>ms. NewStore (env_SDK E) (io_DestStore opts) = Inr ms \<and>
    (\<forall>e \<in> set (mn_Files m). \<exists>c. objects (io_DestStore opts) w' (fullKey (ms_prefix ms) (fe_Key e)) = Some c \<and>
       int (length c) = fe_Size e \<and>
       (objects (io_DestStore opts) w (fullKey (ms_prefix ms) (fe_Key e)) = Some c \<or>
        hex_encode (env_sha256 E c) = fe_SHA256 e))"
proof (rule ReconcileImport_cases [OF run])
  let ?objs = "objects (io_DestStore opts)"
  fix x assume x: "imp_key x = (ns, name)" "storesStatus x (importOutcome E opts docs objects x w') (st w) (st w')"
    and touched: "?objs w' = ?objs w \<or> storeTouched E opts docs objects (bis_ManifestDocID (bi_Spec x)) w w'"
  obtain z where z: "imp_key z = imp_key x" "bi_Spec z = bi_Spec x" "importOutcome E opts docs objects x w' (bi_Status z)"
    "st w' = put_imp z (st w)" using x(2) y(1,3) unfolding storesStatus_def by auto
  then have zy: "z = y" using y(1,3) by (auto split: if_splits)
  have parse: "Parse d = Inr m" if "fetched E opts docs (bis_ManifestDocID (bi_Spec y)) d w'" for d
    using fetched_doc [OF that utf] doc unmarshal_manifest [OF m(1)] m(2) by (auto simp: Parse_def)
  have "importedBy E opts objects m w'"
    using z(2,3) y(2) parse unfolding zy importOutcome_def by auto
  from imported_present [OF this] obtain ms where ms: "NewStore (env_SDK E) (io_DestStore opts) = Inr ms"
    "sizesAgree (fullKey (ms_prefix ms)) (mn_Files m) \<Longrightarrow>
      \<forall>e \<in> set (mn_Files m). presentAt (\<lambda>w k. ?objs w (fullKey (ms_prefix ms) k)) w' e" by blast
  have inj: "e = e'" if "e \<in> set (mn_Files m)" "e' \<in> set (mn_Files m)"
    "fullKey (ms_prefix ms) (fe_Key e) = fullKey (ms_prefix ms) (fe_Key e')" for e e'
    using inj_onD [OF m(3)] that by (simp add: fullKey_eq_iff)
  then have "sizesAgree (fullKey (ms_prefix ms)) (mn_Files m)" unfolding sizesAgree_def by blast
  note present = ms(2) [OF this]
  have "verifiedChange (env_sha256 E) (fullKey (ms_prefix ms)) (set (mn_Files m))
      (\<lambda>k. ?objs w (fullKey (ms_prefix ms) k)) (\<lambda>k. ?objs w' (fullKey (ms_prefix ms) k))"
    using touched
  proof
    assume "storeTouched E opts docs objects (bis_ManifestDocID (bi_Spec x)) w w'"
    then obtain v r err v' where t: "Import (env_sha256 E) (env_OS E) (inboxImporter opts ms) m v = ((r, err), v')"
      "?objs v = ?objs w" "?objs w' = ?objs v'"
      using parse ms(1) unfolding storeTouched_def z(2) [symmetric] zy by fastforce
    have "im_Store (inboxImporter opts ms) = minio_Store ms" by (simp add: inboxImporter_def)
    from object_store.Import_change [OF store_contract [OF ms(1)] t(1) this] t(2,3) show ?thesis by simp
  qed simp
  then have "?objs w (fullKey (ms_prefix ms) (fe_Key e)) = Some c \<or> hex_encode (env_sha256 E c) = fe_SHA256 e"
    if "e \<in> set (mn_Files m)" "?objs w' (fullKey (ms_prefix ms) (fe_Key e)) = Some c" for e c
    using that inj unfolding verifiedChange_def entryVerified_def by (metis option.inject)
  then show ?thesis using ms(1) present unfolding presentAt_def by blast
qed (use y in simp)

end


section \<open>Properties\<close>

text \<open>
  C6: what is finished stays finished: in any run of the system, in which the reconciles of all
  three controllers and the polls of the bridge interleave in any order and read stale copies, a
  work item or an import that has reached a terminal phase is still stored later on, with the
  very same status.
\<close>

theorem terminal_forever:
  assumes "controller_env E st files docs objects tags" and "(clusterStep E opts st)\<^sup>*\<^sup>* w w'"
  shows "(\<forall>k x. ks_reps (st w) k = Some x \<and> replicationTerminal (brt_Phase (br_Status x)) \<longrightarrow>
      (\<exists>y. ks_reps (st w') k = Some y \<and> br_Status y = br_Status x)) \<and>
    (\<forall>k x. ks_imps (st w) k = Some x \<and> importTerminal (bit_Phase (bi_Status x)) \<longrightarrow>
      (\<exists>y. ks_imps (st w') k = Some y \<and> bi_Status y = bi_Status x))"
proof -
  note later = controller_env.run_evolves [OF assms]
  have "\<exists>y. ks_reps (st w') k = Some y \<and> br_Status y = br_Status x"
    if item: "ks_reps (st w) k = Some x" "replicationTerminal (brt_Phase (br_Status x))" for k x
  proof -
    obtain y where "ks_reps (st w') k = Some y" using later(1) domI [of "ks_reps (st w)", OF item(1)] by (metis domD subsetD)
    then show ?thesis using later(3) [of k] item by (simp add: repStatusOf_def)
  qed
  moreover note controller_env.run_terminal_imports [OF assms]
  ultimately show ?thesis by blast
qed

theorem terminal_forever_witness:
  "\<exists>y. ks_reps (mem_st exPolled) (''velero'', ''b'') = Some y \<and> br_Status y = br_Status exReplicated"
proof -
  have "(clusterStep exEnv exOptions mem_st)\<^sup>*\<^sup>* exShipped exPolled"
    by (rule r_into_rtranclp) (rule clusterStep.bridge [OF exPoll])
  from terminal_forever [OF exEnv_contract this] show ?thesis
    using exShipped_item exReplicated_simps(1) by simp
qed

text \<open>
  C7: the statuses of the system are truthful: in every run from a cluster whose stored work items
  and imports have not been started, no work item ever fails, one that is \<open>Replicated\<close> records at
  least one bundle and only completed ones, and an import that is \<open>Imported\<close> is committed.
\<close>

theorem system_statuses_sound:
  assumes "controller_env E st files docs objects tags" and "(clusterStep E opts st)\<^sup>*\<^sup>* w w'"
    and "\<forall>x \<in> ran (ks_reps (st w)). br_Status x = zeroReplicationStatus"
    and "\<forall>x \<in> ran (ks_imps (st w)). bi_Status x = zeroImportStatus"
  shows "(\<forall>k x. ks_reps (st w') k = Some x \<longrightarrow> brt_Phase (br_Status x) \<noteq> PhaseFailed \<and>
      (brt_Phase (br_Status x) = PhaseReplicated \<longrightarrow> bundlesDone (br_Status x))) \<and>
    (\<forall>k x. ks_imps (st w') k = Some x \<and> bit_Phase (bi_Status x) = ImportImported \<longrightarrow> bit_Committed (bi_Status x))"
proof -
  have "repStatusOf (st w) k = zeroReplicationStatus" "importStatusOf (st w) k = zeroImportStatus" for k
    using assms(3,4) ranI [of "ks_reps (st w)" k] ranI [of "ks_imps (st w)" k]
    unfolding repStatusOf_def importStatusOf_def by (metis option.case_eq_if option.collapse)+
  then have "soundStatuses (st w)" by (simp add: soundStatuses_def zeroReplicationStatus_def zeroImportStatus_def)
  from controller_env.run_sound [OF assms(1,2) this]
  have rep: "brt_Phase (repStatusOf (st w') k) \<noteq> PhaseFailed \<and>
      (brt_Phase (repStatusOf (st w') k) = PhaseReplicated \<longrightarrow> bundlesDone (repStatusOf (st w') k))"
    and imp: "bit_Phase (importStatusOf (st w') k) = ImportImported \<longrightarrow> bit_Committed (importStatusOf (st w') k)" for k
    unfolding soundStatuses_def by blast+
  have "brt_Phase (br_Status x) \<noteq> PhaseFailed \<and> (brt_Phase (br_Status x) = PhaseReplicated \<longrightarrow> bundlesDone (br_Status x))"
    if "ks_reps (st w') k = Some x" for k x
    using rep [of k] that by (simp add: repStatusOf_def)
  moreover have "bit_Committed (bi_Status x)"
    if "ks_imps (st w') k = Some x" "bit_Phase (bi_Status x) = ImportImported" for k x
    using imp [of k] that by (simp add: importStatusOf_def)
  ultimately show ?thesis by blast
qed

theorem system_statuses_sound_witness:
  "\<exists>y. ks_reps (mem_st exShipped) (''velero'', ''b'') = Some y \<and> bundlesDone (br_Status y)"
proof -
  have run: "(clusterStep exEnv exOptions mem_st)\<^sup>*\<^sup>* exQueued exShipped"
    by (rule r_into_rtranclp) (rule clusterStep.replication [OF runPass])
  have "ran (ks_reps (mem_st exQueued)) \<subseteq> {exItem}" "ks_imps (mem_st exQueued) = Map.empty"
  proof -
    have "stamp 0 (br_Meta exItem) = br_Meta exItem" by code_simp
    then have "exItem\<lparr>br_Meta := stamp 0 (br_Meta exItem)\<rparr> = exItem" by simp
    then show "ran (ks_reps (mem_st exQueued)) \<subseteq> {exItem}"
      by (auto simp: mem_st_def findRep_def exQueued_def ran_def split: if_splits)
    show "ks_imps (mem_st exQueued) = Map.empty"
      by (simp add: mem_st_def findImp_def exQueued_def exCluster_def fun_eq_iff)
  qed
  then have "\<forall>x \<in> ran (ks_reps (mem_st exQueued)). br_Status x = zeroReplicationStatus"
    "\<forall>x \<in> ran (ks_imps (mem_st exQueued)). bi_Status x = zeroImportStatus"
    by (auto simp: exItem_def)
  from system_statuses_sound [OF exEnv_contract run this] show ?thesis
    using exShipped_item exReplicated_simps(1) by blast
qed

text \<open>The manifest entries that describe the listed objects, seen from the other side.\<close>

lemma described_unrooted:
  assumes "describeAll E objects cfg keys states entries" and "e \<in> set entries"
  shows "trim_left (fe_Key e) ''/'' = fe_Key e"
proof -
  obtain i where "i < length entries" "e = entries ! i" using assms(2) by (auto simp: in_set_conv_nth)
  then obtain key v where "describes E objects cfg key v e"
    using list_all2_nthD2 [OF assms(1), of i] by (auto split: prod.splits)
  then have "safeRelPath key = Inr (fe_Key e)" unfolding describes_def by blast
  then have "\<not> has_prefix (fe_Key e) ''/''" using safeRelPath_safe safe_path_not_rooted by blast
  then show ?thesis by (intro trim_left_id) (auto split: list.split)
qed

lemma described_restored:
  assumes described: "describeAll E objects cfg keys states entries" and len: "length states = length keys"
    and restored: "\<And>e. e \<in> set entries \<Longrightarrow> \<exists>c. new (fe_Key e) = Some c \<and> int (length c) = fe_Size e \<and>
      (old (fe_Key e) = Some c \<or> hex_encode (digest c) = fe_SHA256 e)"
    and ms: "NewStore (env_SDK E) cfg = Inr ms" and i: "i < length keys"
  shows "\<exists>rel b c. safeRelPath (keys ! i) = Inr rel \<and> objects cfg (states ! i) (fullKey (ms_prefix ms) (keys ! i)) = Some b \<and>
    new rel = Some c \<and> int (length c) = wrap64 (int (length b)) \<and>
    (old rel = Some c \<or> hex_encode (digest c) = hex_encode (sum32 (env_sha256 E b)))"
proof -
  have "describes E objects cfg (keys ! i) (states ! i) (entries ! i)" and "entries ! i \<in> set entries"
    using described len i by (auto simp: list_all2_conv_all_nth)
  then show ?thesis using restored [of "entries ! i"] ms unfolding describes_def by fastforce
qed

text \<open>
  C1: the pipeline from end to end: a backup is shipped by a reconcile of the replication
  controller on the source cluster, its manifest document arrives on the destination cluster as
  it is stored at the source, and the import that names the document is declared imported there.
  Then for every object that the reconcile listed, the destination store has an object under the
  same path, whose length is that of the content the source object had in the state in which
  the reconcile staged it (\<open>states\<close>, which \<open>shippedBy\<close> determines from the run), and which either
  was there before or has the SHA-256 of that content. The two clusters have environments of
  their own; the sidecar of the source answers a send with one handle for each file, the
  strings are UTF-8, and no two manifest entries name the same path.
\<close>

theorem replicated_backup_is_restored:
  assumes source: "controller_env Es sts filess docss objectss tagss" "peat_attachments (env_Http Es)"
    and shipped: "shippedBy Es policy x cfg keys states statuses entries ws ws'"
    and carried: "carriable x (cfg_Prefix cfg) entries" "valid_utf8 (snd (rep_key x))"
      "valid_utf8 (ps_OutboxRoot (rp_Peat (pol_Spec policy)))" "list_all shippable keys" "length keys < 2 ^ 32"
      "inj_on fe_Key (set entries)"
    and dest: "controller_env Ed std filesd docsd objectsd tagsd"
      "ReconcileImport Ed opts ns name w = (res, w')"
      "ks_imps (std w') k = Some y" "bit_Phase (bi_Status y) = ImportImported" "ks_imps (std w) k \<noteq> Some y"
      "io_ManifestCollection opts = Collection"
      "bis_ManifestDocID (bi_Spec y) = DocID (brs_StorageLocation (br_Spec x)) (brs_BackupName (br_Spec x))"
    and arrived: "\<forall>pcs pcd. NewClient (ps_Address (rp_Peat (pol_Spec policy))) = Inr pcs \<and>
        NewClient (io_PeatAddress opts) = Inr pcd \<longrightarrow>
      docsd (cc_baseURL pcd) w' (Collection, bis_ManifestDocID (bi_Spec y)) =
        docss (cc_baseURL pcs) ws' (Collection, bis_ManifestDocID (bi_Spec y))"
  shows "\<exists>mss msd. NewStore (env_SDK Es) cfg = Inr mss \<and> NewStore (env_SDK Ed) (io_DestStore opts) = Inr msd \<and>
    (\<forall>i < length keys. \<exists>rel b c. safeRelPath (keys ! i) = Inr rel \<and>
       objectss cfg (states ! i) (fullKey (ms_prefix mss) (keys ! i)) = Some b \<and>
       objectsd (io_DestStore opts) w' (fullKey (ms_prefix msd) rel) = Some c \<and>
       int (length c) = wrap64 (int (length b)) \<and>
       (objectsd (io_DestStore opts) w (fullKey (ms_prefix msd) rel) = Some c \<or>
        hex_encode (env_sha256 Ed c) = hex_encode (sum32 (env_sha256 Es b))))"
proof -
  note effects = controller_env.shipped_effects [OF source(1) shipped]
  let ?m = "\<lambda>tot. replicationManifest x (cfg_Prefix cfg) entries (int64_of_u64 tot)"
  have described: "describeAll Es objectss cfg keys states entries" and len: "length states = length keys"
    using effects(7) [OF source(2) carried(2-5)] by blast+
  obtain pcs tot now where pcs: "NewClient (ps_Address (rp_Peat (pol_Spec policy))) = Inr pcs"
    "docss (cc_baseURL pcs) ws' (Collection, bis_ManifestDocID (bi_Spec y)) = Some (json_print (encManifest (?m tot now)))"
    using effects(6) carried(1) dest(7) by auto
  note unrooted = described_unrooted [OF described]
  have files: "mn_Files (?m tot now) = entries" "mn_SchemaVersion (?m tot now) = SchemaVersion"
    by (simp_all add: replicationManifest_def)
  have "\<exists>msd. NewStore (env_SDK Ed) (io_DestStore opts) = Inr msd \<and>
    (\<forall>e \<in> set entries. \<exists>c. objectsd (io_DestStore opts) w' (fullKey (ms_prefix msd) (fe_Key e)) = Some c \<and>
       int (length c) = fe_Size e \<and>
       (objectsd (io_DestStore opts) w (fullKey (ms_prefix msd) (fe_Key e)) = Some c \<or>
        hex_encode (env_sha256 Ed c) = fe_SHA256 e))"
  proof (rule controller_env.imported_contents [OF dest(1-5), of "?m tot now", unfolded files])
    show "valid_utf8 (io_ManifestCollection opts)" by (simp add: dest(6) Collection_def)
    show "valid_utf8 (bis_ManifestDocID (bi_Spec y))" unfolding dest(7) by (rule carriable_manifest(2) [OF carried(1)])
    show "docsd (cc_baseURL pcd) w' (io_ManifestCollection opts, bis_ManifestDocID (bi_Spec y)) =
        Some (json_print (encManifest (?m tot now)))" if "NewClient (io_PeatAddress opts) = Inr pcd" for pcd
      using arrived pcs that unfolding dest(6) by simp
    show "manifestOk (?m tot now)" by (rule carriable_manifest(1) [OF carried(1)])
    show "inj_on (\<lambda>e. trim_left (fe_Key e) ''/'') (set entries)"
      using carried(6) unrooted by (simp add: inj_on_def)
  qed (rule refl)
  then obtain msd where msd: "NewStore (env_SDK Ed) (io_DestStore opts) = Inr msd"
    "\<And>e. e \<in> set entries \<Longrightarrow> \<exists>c. objectsd (io_DestStore opts) w' (fullKey (ms_prefix msd) (fe_Key e)) = Some c \<and>
       int (length c) = fe_Size e \<and>
       (objectsd (io_DestStore opts) w (fullKey (ms_prefix msd) (fe_Key e)) = Some c \<or>
        hex_encode (env_sha256 Ed c) = fe_SHA256 e)" by blast
  obtain mss where mss: "NewStore (env_SDK Es) cfg = Inr mss" using shipped unfolding shippedBy_def by blast
  show ?thesis using described_restored [of Es objectss cfg keys states entries
      "\<lambda>k. objectsd (io_DestStore opts) w' (fullKey (ms_prefix msd) k)" "\<lambda>k. objectsd (io_DestStore opts) w (fullKey (ms_prefix msd) k)"
      "env_sha256 Ed", OF described len msd(2) mss] mss msd(1) by blast
qed

theorem replicated_backup_is_restored_witness:
  "(\<exists>rel b c. safeRelPath (exKeys ! 0) = Inr rel \<and> mem_store exQueued (fullKey ''backups'' (exKeys ! 0)) = Some b \<and>
     mem_store exImported (fullKey ''restore'' rel) = Some c \<and> int (length c) = wrap64 (int (length b))) \<and>
   (\<exists>rel b c. safeRelPath (exKeys ! 1) = Inr rel \<and> mem_store exQueued (fullKey ''backups'' (exKeys ! 1)) = Some b \<and>
     mem_store exImported (fullKey ''restore'' rel) = Some c \<and> int (length c) = wrap64 (int (length b)))"
proof -
  obtain y where run: "ReconcileImport exEnv exOptions ''velero'' ''default-b'' exArrived = ((doneResult, None), exImported)"
    "ks_imps (mem_st exImported) (''velero'', ''default-b'') = Some y" "bit_Phase (bi_Status y) = ImportImported"
    "bi_Spec y = bi_Spec exImport" "mem_docs exImported = mem_docs exArrived"
    using exImport_run by blast
  have old: "ks_imps (mem_st exArrived) (''velero'', ''default-b'') \<noteq> Some y"
    using exArrived_import run(3) exImport_simps(3) by (auto simp: mem_st_def)
  have opts: "io_ManifestCollection exOptions = Collection" by (simp add: exOptions_def)
  have id: "bis_ManifestDocID (bi_Spec y) = DocID (brs_StorageLocation (br_Spec exItem)) (brs_BackupName (br_Spec exItem))"
    unfolding run(4) by (simp add: exImport_simps exItem_def DocID_def)
  have docs: "mem_docs exImported = mem_docs exShipped" unfolding run(5) by (simp add: exArrived_def mem_docs_def)
  have sync: "\<forall>pcs pcd. NewClient (ps_Address (rp_Peat (pol_Spec exPolicy))) = Inr pcs \<and>
      NewClient (io_PeatAddress exOptions) = Inr pcd \<longrightarrow>
      mem_docs exImported (Collection, bis_ManifestDocID (bi_Spec y)) = mem_docs exShipped (Collection, bis_ManifestDocID (bi_Spec y))"
    unfolding docs by simp
  have att: "peat_attachments (env_Http exEnv)" using mem_attachments.peat_attachments_axioms by simp
  have utf: "valid_utf8 (snd (rep_key exItem))" "valid_utf8 (ps_OutboxRoot (rp_Peat (pol_Spec exPolicy)))"
    by (simp_all add: exItem_def rep_key_def meta_key_def newMeta_def exPolicy_def)
  have exShipPaths: "safeRelPath ''backups/b/velero-backup.json'' = Inr ''backups/b/velero-backup.json''"
    "safeRelPath ''kopia/p0'' = Inr ''kopia/p0''" by code_simp+
  have keys: "list_all shippable exKeys" "length exKeys < 2 ^ 32"
    by (use exShipPaths in \<open>simp_all add: exKeys_def shippable_def exBases\<close>)
  have "carriable exItem (cfg_Prefix exStoreConfig) exEntries"
    using exEntries_ok(1) by (simp add: manifestOk_def runManifest_def replicationManifest_def carriable_def in_int64_def exStoreConfig_def)
  moreover have "inj_on fe_Key (set exEntries)"
    by (simp add: exEntries_def handleEntry_def exSpecs_def exSpecOf_def)
  ultimately obtain mss msd where ms: "NewStore (env_SDK exEnv) exStoreConfig = Inr mss"
    "NewStore (env_SDK exEnv) (io_DestStore exOptions) = Inr msd"
    and all: "\<forall>i < length exKeys. \<exists>rel b c. safeRelPath (exKeys ! i) = Inr rel \<and>
       mem_objects ''velero'' exStoreConfig (exStates ! i) (fullKey (ms_prefix mss) (exKeys ! i)) = Some b \<and>
       mem_objects ''velero'' (io_DestStore exOptions) exImported (fullKey (ms_prefix msd) rel) = Some c \<and>
       int (length c) = wrap64 (int (length b))"
    using replicated_backup_is_restored [OF exEnv_contract att exShippedBy _ utf keys _ exEnv_contract run(1-3) old opts id sync]
    by blast
  have stores: "mss = exMinio" "msd = exDest" using ms exNewStore exDest_new by simp_all
  have prefixes: "ms_prefix exMinio = ''backups''" "ms_prefix exDest = ''restore''" "length exKeys = 2"
    by (simp_all add: exMinio_def exDest_def exKeys_def)
  have source: "mem_objects ''velero'' exStoreConfig (exStates ! i) = mem_store exQueued" if "i < 2" for i
    using exStates_objs(2) [OF that] by (simp add: mem_objects_def mem_store_def exStoreConfig_def zeroConfig_def fun_eq_iff)
  have dest: "mem_objects ''velero'' (io_DestStore exOptions) exImported = mem_store exImported"
    by (simp add: mem_objects_def exOptions_def)
  have each: "\<exists>rel b c. safeRelPath (exKeys ! i) = Inr rel \<and> mem_store exQueued (fullKey ''backups'' (exKeys ! i)) = Some b \<and>
     mem_store exImported (fullKey ''restore'' rel) = Some c \<and> int (length c) = wrap64 (int (length b))" if "i < 2" for i
    using all source [OF that] that unfolding stores prefixes dest by metis
  show ?thesis using each [of 0] each [of 1] by simp
qed



end
